theory Spec2Isabelle
  imports Complex_Main
begin

section \<open>Values of the notebook\<close>

text \<open>
  The program is the notebook \<^verbatim>\<open>modelo_final/modelo_final.ipynb\<close>: a linear script that
  searches hyperparameters for three candidate regressors, scores each on a held-out
  split, builds a voting and a stacking ensemble, scores them, and picks the entry of
  least RMSE. Floating-point numbers are modelled as real numbers; Python dictionaries,
  which keep insertion order, as association lists with distinct keys.
\<close>

datatype error = KeyError | ValueError | ZeroDivisionError | LibraryError

datatype hp_value = IntV int | FloatV real | NoneV

text \<open>
  The value stored under \<^verbatim>\<open>'Best Params'\<close>: the search's \<^verbatim>\<open>best_params_\<close> dictionary for
  a candidate model, the string \<^verbatim>\<open>'N/A'\<close> for an ensemble.
\<close>

datatype pyval = Dict "(string \<times> hp_value) list" | Str string

record score =
  Best_Params :: pyval
  MAE :: real
  RMSE :: real

subsection \<open>Dictionaries\<close>

text \<open>\<^verbatim>\<open>d[k] = v\<close>: an existing key keeps its position and takes the new value, a new key goes last.\<close>

fun dict_set :: "('k \<times> 'v) list \<Rightarrow> 'k \<Rightarrow> 'v \<Rightarrow> ('k \<times> 'v) list" where
  "dict_set [] k v = [(k, v)]"
| "dict_set ((k', v') # d) k v =
     (if k' = k then (k, v) # d else (k', v') # dict_set d k v)"

text \<open>\<^verbatim>\<open>d[k]\<close>: a missing key raises.\<close>

definition dict_get :: "('k \<times> 'v) list \<Rightarrow> 'k \<Rightarrow> error + 'v" where
  "dict_get d k = (case map_of d k of None \<Rightarrow> Inl KeyError | Some v \<Rightarrow> Inr v)"

subsection \<open>Selection: \<^verbatim>\<open>min(results, key=lambda x: results[x]['RMSE'])\<close>\<close>

text \<open>
  Python's \<^verbatim>\<open>min\<close> with a key walks the iterable once, keeps the first item, and replaces
  it only when a later item's key is strictly smaller; an empty iterable raises
  \<^verbatim>\<open>ValueError\<close>. Iterating a dictionary yields its keys in insertion order.
\<close>

fun min_loop :: "('a \<Rightarrow> error + real) \<Rightarrow> 'a \<Rightarrow> real \<Rightarrow> 'a list \<Rightarrow> error + 'a" where
  "min_loop key item val [] = Inr item"
| "min_loop key item val (x # xs) =
     (case key x of
        Inl e \<Rightarrow> Inl e
      | Inr v \<Rightarrow> if v < val then min_loop key x v xs else min_loop key item val xs)"

definition py_min :: "'a list \<Rightarrow> ('a \<Rightarrow> error + real) \<Rightarrow> error + 'a" where
  "py_min xs key =
     (case xs of
        [] \<Rightarrow> Inl ValueError
      | x # rest \<Rightarrow> (case key x of Inl e \<Rightarrow> Inl e | Inr v \<Rightarrow> min_loop key x v rest))"

definition rmse_key :: "(string \<times> score) list \<Rightarrow> string \<Rightarrow> error + real" where
  "rmse_key results x = (case dict_get results x of Inl e \<Rightarrow> Inl e | Inr s \<Rightarrow> Inr (RMSE s))"

definition select_best :: "(string \<times> score) list \<Rightarrow> error + string" where
  "select_best results = py_min (map fst results) (rmse_key results)"

subsection \<open>Evaluation\<close>

text \<open>
  Modelled from the spec: the mean taken by the library's metrics, absent from the
  repository. The spec says that division by zero on an empty set is an explicit error.
\<close>

definition mean :: "real list \<Rightarrow> error + real" where
  "mean xs = (if length xs = 0 then Inl ZeroDivisionError
              else Inr (sum_list xs / real (length xs)))"

text \<open>
  Modelled from the spec: \<^verbatim>\<open>sklearn.metrics.mean_absolute_error\<close> is a library function,
  absent from the repository. The spec gives MAE as the mean of \<open>|y_pred - y_true|\<close>. The
  spec is silent on targets and predictions of different lengths; they are rejected here.
\<close>

definition mean_absolute_error :: "real list \<Rightarrow> real list \<Rightarrow> error + real" where
  "mean_absolute_error y_true y_pred =
     (if length y_true \<noteq> length y_pred then Inl ValueError
      else mean (map (\<lambda>(t, p). \<bar>p - t\<bar>) (zip y_true y_pred)))"

text \<open>
  Modelled from the spec: \<^verbatim>\<open>sklearn.metrics.mean_squared_error\<close> is a library function,
  absent from the repository. The spec gives the squared error under the root of RMSE as
  the mean of \<open>(y_pred - y_true)\<^sup>2\<close>. Different lengths are rejected as above.
\<close>

definition mean_squared_error :: "real list \<Rightarrow> real list \<Rightarrow> error + real" where
  "mean_squared_error y_true y_pred =
     (if length y_true \<noteq> length y_pred then Inl ValueError
      else mean (map (\<lambda>(t, p). (p - t)\<^sup>2) (zip y_true y_pred)))"

text \<open>
  The two lines that score a prediction, identical at all three places of the notebook:
  \<^verbatim>\<open>mae = mean_absolute_error(y_test, y_pred)\<close> and
  \<^verbatim>\<open>rmse = np.sqrt(mean_squared_error(y_test, y_pred))\<close>.
\<close>

definition evaluate :: "real list \<Rightarrow> real list \<Rightarrow> error + (real \<times> real)" where
  "evaluate y_test y_pred =
     (case mean_absolute_error y_test y_pred of
        Inl e \<Rightarrow> Inl e
      | Inr mae \<Rightarrow>
          (case mean_squared_error y_test y_pred of
             Inl e \<Rightarrow> Inl e
           | Inr mse \<Rightarrow> Inr (mae, sqrt mse)))"

section \<open>The library\<close>

text \<open>
  The learning library is not part of the repository. Its operations are parameters of the
  model. An operation that may draw random numbers or fail takes the state of the world
  outside the notebook (the process-wide random generator, the machine) and returns the
  new one beside its result. The notebook passes a seed to the split only
  (\<^verbatim>\<open>random_state=42\<close>); the three estimators, the search and the ensembles are
  constructed without one.
\<close>

datatype estimator =
  DecisionTreeRegressor | RandomForestRegressor | XGBRegressor | LinearRegression

record split =
  X_train :: "real list list"
  X_test :: "real list list"
  y_train :: "real list"
  y_test :: "real list"

record ('m, 'w) library =
  train_test_split ::
    "real list list \<Rightarrow> real list \<Rightarrow> real \<Rightarrow> nat \<Rightarrow> 'w \<Rightarrow> (error + split) \<times> 'w"
  GridSearchCV_fit ::
    "estimator \<Rightarrow> (string \<times> hp_value list) list \<Rightarrow> nat \<Rightarrow> string \<Rightarrow> int \<Rightarrow>
     real list list \<Rightarrow> real list \<Rightarrow> 'w \<Rightarrow> (error + 'm \<times> (string \<times> hp_value) list) \<times> 'w"
  clone :: "'m \<Rightarrow> 'm"
  fit :: "'m \<Rightarrow> real list list \<Rightarrow> real list \<Rightarrow> 'w \<Rightarrow> (error + 'm) \<times> 'w"
  predict :: "'m \<Rightarrow> real list list \<Rightarrow> error + real list"
  fit_final_estimator ::
    "estimator \<Rightarrow> nat \<Rightarrow> 'm list \<Rightarrow> real list list \<Rightarrow> real list \<Rightarrow> 'w \<Rightarrow> (error + 'm) \<times> 'w"

section \<open>The state of the notebook\<close>

text \<open>
  Estimator objects live in a heap and are named by their address: \<^verbatim>\<open>best_models\<close> and the
  ensembles' estimator lists hold references to the same objects. \<^verbatim>\<open>stdout\<close> is what the
  \<^verbatim>\<open>print\<close> calls have written so far.
\<close>

datatype out =
    Running string
  | Params_Line string pyval
  | Metrics_Line real real
  | Header string
  | Best_Line string real

record ('m, 'w) kernel =
  world :: 'w
  heap :: "'m list"
  best_models :: "(string \<times> nat) list"
  results :: "(string \<times> score) list"
  best_model_name :: "string option"
  stdout :: "out list"

text \<open>
  A cell either completes with a value or raises; the exception is not caught anywhere in
  the notebook, and the state at that moment (the variables, the text already printed) stays.
\<close>

datatype ('a, 's) outcome = Done 'a 's | Raised error 's

fun final :: "('a, 's) outcome \<Rightarrow> 's" where
  "final (Done v s) = s"
| "final (Raised e s) = s"

fun raised :: "('a, 's) outcome \<Rightarrow> error option" where
  "raised (Done v s) = None"
| "raised (Raised e s) = Some e"

section \<open>The cells\<close>

definition models :: "(string \<times> estimator) list" where
  "models =
     [(''Decision Tree'', DecisionTreeRegressor),
      (''Random Forest'', RandomForestRegressor),
      (''XGBRegressor'', XGBRegressor)]"

definition param_grids :: "(string \<times> (string \<times> hp_value list) list) list" where
  "param_grids =
     [(''Decision Tree'',
         [(''max_depth'', [IntV 5, IntV 10, IntV 20, NoneV]),
          (''min_samples_split'', [IntV 2, IntV 5, IntV 10])]),
      (''Random Forest'',
         [(''n_estimators'', [IntV 100, IntV 200, IntV 300]),
          (''max_depth'', [IntV 5, IntV 10, NoneV])]),
      (''XGBRegressor'',
         [(''n_estimators'', [IntV 100, IntV 300, IntV 500]),
          (''learning_rate'', [FloatV (1 / 100), FloatV (5 / 100), FloatV (1 / 10)]),
          (''max_depth'', [IntV 3, IntV 5, IntV 7])])]"

text \<open>\<^verbatim>\<open>best_models = {}\<close>, \<^verbatim>\<open>results = {}\<close>.\<close>

definition cell_5 :: "'w \<Rightarrow> ('m, 'w) kernel" where
  "cell_5 w =
     \<lparr>world = w, heap = [], best_models = [], results = [],
      best_model_name = None, stdout = []\<rparr>"

text \<open>The loop \<^verbatim>\<open>for name, model in models.items()\<close> of the sixth cell.\<close>

fun search_loop ::
  "('m, 'w) library \<Rightarrow> split \<Rightarrow> (string \<times> estimator) list \<Rightarrow> ('m, 'w) kernel \<Rightarrow>
   (unit, ('m, 'w) kernel) outcome" where
  "search_loop lib d [] st = Done () st"
| "search_loop lib d ((name, model) # rest) st =
     (let st1 = st\<lparr>stdout := stdout st @ [Running name]\<rparr> in
      case dict_get param_grids name of
        Inl e \<Rightarrow> Raised e st1
      | Inr grid \<Rightarrow>
      (case GridSearchCV_fit lib model grid 5 ''neg_mean_squared_error'' (- 1)
              (X_train d) (y_train d) (world st1) of
        (Inl e, w) \<Rightarrow> Raised e (st1\<lparr>world := w\<rparr>)
      | (Inr (best_estimator, best_params), w) \<Rightarrow>
      (let a = length (heap st1);
           st2 = st1\<lparr>world := w, heap := heap st1 @ [best_estimator]\<rparr>;
           st3 = st2\<lparr>best_models := dict_set (best_models st2) name a\<rparr> in
       case predict lib (heap st3 ! a) (X_test d) of
         Inl e \<Rightarrow> Raised e st3
       | Inr y_pred \<Rightarrow>
       (case evaluate (y_test d) y_pred of
         Inl e \<Rightarrow> Raised e st3
       | Inr (mae, rmse) \<Rightarrow>
           search_loop lib d rest
             (st3\<lparr>results := dict_set (results st3) name
                     \<lparr>Best_Params = Dict best_params, MAE = mae, RMSE = rmse\<rparr>\<rparr>)))))"

text \<open>The loop \<^verbatim>\<open>for model, score in results.items()\<close> with its two \<^verbatim>\<open>print\<close> calls.\<close>

definition report :: "(string \<times> score) list \<Rightarrow> out list" where
  "report tbl =
     concat (map (\<lambda>(model, score).
       [Params_Line model (Best_Params score), Metrics_Line (MAE score) (RMSE score)]) tbl)"

text \<open>
  \<^verbatim>\<open>best_model_name = min(results, key=lambda x: results[x]['RMSE'])\<close> and the
  \<^verbatim>\<open>print\<close> after it.
\<close>

definition pick_best :: "('m, 'w) kernel \<Rightarrow> (unit, ('m, 'w) kernel) outcome" where
  "pick_best st =
     (case select_best (results st) of
        Inl e \<Rightarrow> Raised e st
      | Inr name \<Rightarrow>
          (let st1 = st\<lparr>best_model_name := Some name\<rparr> in
           case dict_get (results st1) name of
             Inl e \<Rightarrow> Raised e st1
           | Inr sc \<Rightarrow> Done () (st1\<lparr>stdout := stdout st1 @ [Best_Line name (RMSE sc)]\<rparr>)))"

definition cell_6 ::
  "('m, 'w) library \<Rightarrow> split \<Rightarrow> ('m, 'w) kernel \<Rightarrow> (unit, ('m, 'w) kernel) outcome" where
  "cell_6 lib d st =
     (case search_loop lib d models st of
        Raised e s \<Rightarrow> Raised e s
      | Done u s \<Rightarrow> pick_best (s\<lparr>stdout := stdout s @ report (results s)\<rparr>))"

subsection \<open>The ensembles\<close>

record voting =
  estimators :: "(string \<times> nat) list"
  fitted_estimators :: "nat list"

record stacking =
  base_estimators :: "(string \<times> nat) list"
  final_estimator :: estimator
  cv :: nat
  fitted_base_estimators :: "nat list"
  fitted_final_estimator :: "nat option"

text \<open>
  The seventh cell reads the three tuned estimators out of \<^verbatim>\<open>best_models\<close> and hands the
  very same objects to the voting regressor, with no weights.
\<close>

definition cell_7 ::
  "('m, 'w) kernel \<Rightarrow> ((nat \<times> nat \<times> nat) \<times> voting, ('m, 'w) kernel) outcome" where
  "cell_7 st =
     (case dict_get (best_models st) ''Decision Tree'' of
        Inl e \<Rightarrow> Raised e st
      | Inr best_decision_tree \<Rightarrow>
     (case dict_get (best_models st) ''Random Forest'' of
        Inl e \<Rightarrow> Raised e st
      | Inr best_random_forest \<Rightarrow>
     (case dict_get (best_models st) ''XGBRegressor'' of
        Inl e \<Rightarrow> Raised e st
      | Inr best_xgb \<Rightarrow>
          Done ((best_decision_tree, best_random_forest, best_xgb),
                \<lparr>estimators = [(''dt'', best_decision_tree), (''rf'', best_random_forest),
                                (''xgb'', best_xgb)],
                 fitted_estimators = []\<rparr>) st)))"

text \<open>
  Modelled from the spec: the fitting of an ensemble's members is library code, absent
  from the repository. The spec says that each ensemble holds its own clones/refits of
  the base estimators: every base estimator is cloned into a new object, and the clone,
  not the original, is fitted in place on the training split.
\<close>

fun fit_clones ::
  "('m, 'w) library \<Rightarrow> nat list \<Rightarrow> real list list \<Rightarrow> real list \<Rightarrow> ('m, 'w) kernel \<Rightarrow>
   (nat list, ('m, 'w) kernel) outcome" where
  "fit_clones lib [] X y st = Done [] st"
| "fit_clones lib (a # as) X y st =
     (let c = length (heap st);
          st1 = st\<lparr>heap := heap st @ [clone lib (heap st ! a)]\<rparr> in
      case fit lib (heap st1 ! c) X y (world st1) of
        (Inl e, w) \<Rightarrow> Raised e (st1\<lparr>world := w\<rparr>)
      | (Inr m, w) \<Rightarrow>
          (case fit_clones lib as X y (st1\<lparr>world := w, heap := (heap st1)[c := m]\<rparr>) of
             Raised e s \<Rightarrow> Raised e s
           | Done cs s \<Rightarrow> Done (c # cs) s))"

text \<open>
  Modelled from the spec: an ensemble asks each of its fitted members for a prediction;
  the first member that raises stops the prediction.
\<close>

fun predict_all ::
  "('m, 'w) library \<Rightarrow> 'm list \<Rightarrow> real list list \<Rightarrow> error + real list list" where
  "predict_all lib [] X = Inr []"
| "predict_all lib (m # ms) X =
     (case predict lib m X of
        Inl e \<Rightarrow> Inl e
      | Inr p \<Rightarrow> (case predict_all lib ms X of Inl e \<Rightarrow> Inl e | Inr ps \<Rightarrow> Inr (p # ps)))"

text \<open>
  Modelled from the spec: \<^verbatim>\<open>VotingRegressor.fit\<close> is library code, absent from the
  repository. The spec says that the ensemble is fit once on the full training split and
  holds its own clones/refits of the base estimators.
\<close>

definition VotingRegressor_fit ::
  "('m, 'w) library \<Rightarrow> voting \<Rightarrow> real list list \<Rightarrow> real list \<Rightarrow> ('m, 'w) kernel \<Rightarrow>
   (voting, ('m, 'w) kernel) outcome" where
  "VotingRegressor_fit lib vr X y st =
     (case fit_clones lib (map snd (estimators vr)) X y st of
        Raised e s \<Rightarrow> Raised e s
      | Done cs s \<Rightarrow> Done (vr\<lparr>fitted_estimators := cs\<rparr>) s)"

text \<open>
  Modelled from the spec: the unweighted average, row by row, of the members'
  predictions.
\<close>

definition average :: "nat \<Rightarrow> real list list \<Rightarrow> real list" where
  "average n ps = map (\<lambda>i. sum_list (map (\<lambda>p. p ! i) ps) / real (length ps)) [0..<n]"

text \<open>
  Modelled from the spec: \<^verbatim>\<open>VotingRegressor.predict\<close> is library code, absent from the
  repository. The spec says: prediction = unweighted average of base models' predictions.
  An ensemble with no fitted member, or a member whose prediction has not one value per
  row, is rejected.
\<close>

definition VotingRegressor_predict ::
  "('m, 'w) library \<Rightarrow> voting \<Rightarrow> real list list \<Rightarrow> 'm list \<Rightarrow> error + real list" where
  "VotingRegressor_predict lib vr X h =
     (case predict_all lib (map (\<lambda>a. h ! a) (fitted_estimators vr)) X of
        Inl e \<Rightarrow> Inl e
      | Inr ps \<Rightarrow>
          if ps = [] \<or> \<not> list_all (\<lambda>p. length p = length X) ps then Inl ValueError
          else Inr (average (length X) ps))"

text \<open>The eighth cell: fit the voting regressor, predict the test split, score, print.\<close>

definition cell_8 ::
  "('m, 'w) library \<Rightarrow> split \<Rightarrow> voting \<Rightarrow> ('m, 'w) kernel \<Rightarrow>
   (voting \<times> real list \<times> real \<times> real, ('m, 'w) kernel) outcome" where
  "cell_8 lib d voting_regressor st =
     (case VotingRegressor_fit lib voting_regressor (X_train d) (y_train d) st of
        Raised e s \<Rightarrow> Raised e s
      | Done vr s \<Rightarrow>
     (case VotingRegressor_predict lib vr (X_test d) (heap s) of
        Inl e \<Rightarrow> Raised e s
      | Inr y_pred_voting \<Rightarrow>
     (case evaluate (y_test d) y_pred_voting of
        Inl e \<Rightarrow> Raised e s
      | Inr (mae_voting, rmse_voting) \<Rightarrow>
          Done (vr, y_pred_voting, mae_voting, rmse_voting)
            (s\<lparr>stdout := stdout s @
                 [Header ''Voting Regressor'', Metrics_Line mae_voting rmse_voting]\<rparr>))))"

text \<open>
  Modelled from the spec: \<^verbatim>\<open>StackingRegressor.fit\<close> is library code, absent from the
  repository. The spec says: the same three base estimators, held as the ensemble's own
  clones/refits, whose cross-validated out-of-fold predictions become the input features
  to a linear-regression meta-model. The cross-validated fitting of the meta-model is the
  library's \<open>fit_final_estimator\<close>; the fitted meta-model is a new object.
\<close>

definition StackingRegressor_fit ::
  "('m, 'w) library \<Rightarrow> stacking \<Rightarrow> real list list \<Rightarrow> real list \<Rightarrow> ('m, 'w) kernel \<Rightarrow>
   (stacking, ('m, 'w) kernel) outcome" where
  "StackingRegressor_fit lib sr X y st =
     (case fit_clones lib (map snd (base_estimators sr)) X y st of
        Raised e s \<Rightarrow> Raised e s
      | Done cs s \<Rightarrow>
          (case fit_final_estimator lib (final_estimator sr) (cv sr)
                  (map (\<lambda>a. heap s ! a) cs) X y (world s) of
             (Inl e, w) \<Rightarrow> Raised e (s\<lparr>world := w\<rparr>)
           | (Inr m, w) \<Rightarrow>
               Done (sr\<lparr>fitted_base_estimators := cs,
                        fitted_final_estimator := Some (length (heap s))\<rparr>)
                 (s\<lparr>world := w, heap := heap s @ [m]\<rparr>)))"

text \<open>
  Modelled from the spec: the base models' outputs as input features, one row of
  features per row of the input.
\<close>

definition columns :: "nat \<Rightarrow> real list list \<Rightarrow> real list list" where
  "columns n ps = map (\<lambda>i. map (\<lambda>p. p ! i) ps) [0..<n]"

text \<open>
  Modelled from the spec: \<^verbatim>\<open>StackingRegressor.predict\<close> is library code, absent from the
  repository. The spec says: the final predictor is the meta-model applied to base-model
  outputs at inference time. An ensemble that was not fitted, or a member whose
  prediction has not one value per row, is rejected.
\<close>

definition StackingRegressor_predict ::
  "('m, 'w) library \<Rightarrow> stacking \<Rightarrow> real list list \<Rightarrow> 'm list \<Rightarrow> error + real list" where
  "StackingRegressor_predict lib sr X h =
     (case fitted_final_estimator sr of
        None \<Rightarrow> Inl ValueError
      | Some f \<Rightarrow>
          (case predict_all lib (map (\<lambda>a. h ! a) (fitted_base_estimators sr)) X of
             Inl e \<Rightarrow> Inl e
           | Inr ps \<Rightarrow>
               if \<not> list_all (\<lambda>p. length p = length X) ps then Inl ValueError
               else predict lib (h ! f) (columns (length X) ps)))"

text \<open>The ninth cell: build the stacking regressor on the same three objects, fit, predict, score, print.\<close>

definition cell_9 ::
  "('m, 'w) library \<Rightarrow> split \<Rightarrow> nat \<times> nat \<times> nat \<Rightarrow> ('m, 'w) kernel \<Rightarrow>
   (stacking \<times> real list \<times> real \<times> real, ('m, 'w) kernel) outcome" where
  "cell_9 lib d best st =
     (case best of (best_decision_tree, best_random_forest, best_xgb) \<Rightarrow>
      let base_models = [(''dt'', best_decision_tree), (''rf'', best_random_forest),
                         (''xgb'', best_xgb)];
          meta_model = LinearRegression;
          stacking_regressor =
            \<lparr>base_estimators = base_models, final_estimator = meta_model, cv = 5,
             fitted_base_estimators = [], fitted_final_estimator = None\<rparr> in
      case StackingRegressor_fit lib stacking_regressor (X_train d) (y_train d) st of
        Raised e s \<Rightarrow> Raised e s
      | Done sr s \<Rightarrow>
      (case StackingRegressor_predict lib sr (X_test d) (heap s) of
        Inl e \<Rightarrow> Raised e s
      | Inr y_pred_stacking \<Rightarrow>
      (case evaluate (y_test d) y_pred_stacking of
        Inl e \<Rightarrow> Raised e s
      | Inr (mae_stacking, rmse_stacking) \<Rightarrow>
          Done (sr, y_pred_stacking, mae_stacking, rmse_stacking)
            (s\<lparr>stdout := stdout s @
                 [Header ''Stacking Regressor'', Metrics_Line mae_stacking rmse_stacking]\<rparr>))))"

text \<open>The tenth cell: record the two ensembles, print the table, select.\<close>

definition cell_10 ::
  "real \<Rightarrow> real \<Rightarrow> real \<Rightarrow> real \<Rightarrow> ('m, 'w) kernel \<Rightarrow> (unit, ('m, 'w) kernel) outcome" where
  "cell_10 mae_voting rmse_voting mae_stacking rmse_stacking st =
     (let st1 = st\<lparr>results := dict_set (results st) ''Voting Regressor''
                    \<lparr>Best_Params = Str ''N/A'', MAE = mae_voting, RMSE = rmse_voting\<rparr>\<rparr>;
          st2 = st1\<lparr>results := dict_set (results st1) ''Stacking Regressor''
                    \<lparr>Best_Params = Str ''N/A'', MAE = mae_stacking, RMSE = rmse_stacking\<rparr>\<rparr>
      in pick_best (st2\<lparr>stdout := stdout st2 @ report (results st2)\<rparr>))"

text \<open>Cells seven to nine: the ensemble stages, from the state the search left.\<close>

definition ensembles ::
  "('m, 'w) library \<Rightarrow> split \<Rightarrow> ('m, 'w) kernel \<Rightarrow>
   ((voting \<times> real list \<times> real \<times> real) \<times> (stacking \<times> real list \<times> real \<times> real),
    ('m, 'w) kernel) outcome" where
  "ensembles lib d st =
     (case cell_7 st of
        Raised e s \<Rightarrow> Raised e s
      | Done (best, voting_regressor) s7 \<Rightarrow>
     (case cell_8 lib d voting_regressor s7 of
        Raised e s \<Rightarrow> Raised e s
      | Done v s8 \<Rightarrow>
     (case cell_9 lib d best s8 of
        Raised e s \<Rightarrow> Raised e s
      | Done s s9 \<Rightarrow> Done (v, s) s9)))"

text \<open>
  The whole run, cell after cell, on the cleaned table \<open>X\<close>, \<open>y\<close>:
  \<^verbatim>\<open>train_test_split(X, y, test_size=0.2, random_state=42)\<close>, then the cells above.
\<close>

definition after_search ::
  "('m, 'w) library \<Rightarrow> 'w \<Rightarrow> real list list \<Rightarrow> real list \<Rightarrow>
   (split, ('m, 'w) kernel) outcome" where
  "after_search lib w0 X y =
     (case train_test_split lib X y (1 / 5) 42 w0 of
        (Inl e, w) \<Rightarrow> Raised e (cell_5 w)
      | (Inr d, w) \<Rightarrow>
          (case cell_6 lib d (cell_5 w) of
             Raised e s \<Rightarrow> Raised e s
           | Done u s \<Rightarrow> Done d s))"

definition notebook ::
  "('m, 'w) library \<Rightarrow> 'w \<Rightarrow> real list list \<Rightarrow> real list \<Rightarrow> (unit, ('m, 'w) kernel) outcome" where
  "notebook lib w0 X y =
     (case after_search lib w0 X y of
        Raised e s \<Rightarrow> Raised e s
      | Done d s6 \<Rightarrow>
     (case ensembles lib d s6 of
        Raised e s \<Rightarrow> Raised e s
      | Done ((vr, y_pred_voting, mae_voting, rmse_voting),
              (sr, y_pred_stacking, mae_stacking, rmse_stacking)) s9 \<Rightarrow>
          cell_10 mae_voting rmse_voting mae_stacking rmse_stacking s9))"

section \<open>A small library and a small table, for concrete runs\<close>

text \<open>
  A stand-in for the library on which the notebook can be run by hand. A fitted model is
  the constant it predicts; the world is a counter of the calls made so far. The search
  returns, for each estimator, a fixed constant plus \<open>k\<close> times the counter: with \<open>k = 0\<close>
  the library behaves as if every estimator were seeded, with \<open>k = 1\<close> the result of the
  unseeded search depends on the world it starts from. With \<open>broken\<close> set, the fitting
  of the stacking meta-model raises.
\<close>

definition toy_split :: "real list list \<Rightarrow> real list \<Rightarrow> split" where
  "toy_split X y =
     \<lparr>X_train = drop 2 X, X_test = take 2 X, y_train = drop 2 y, y_test = take 2 y\<rparr>"

fun toy_search :: "estimator \<Rightarrow> real \<times> (string \<times> hp_value) list" where
  "toy_search DecisionTreeRegressor =
     (3, [(''max_depth'', IntV 20), (''min_samples_split'', IntV 5)])"
| "toy_search RandomForestRegressor =
     (5, [(''max_depth'', NoneV), (''n_estimators'', IntV 200)])"
| "toy_search XGBRegressor =
     (1, [(''learning_rate'', FloatV (5 / 100)), (''max_depth'', IntV 7),
          (''n_estimators'', IntV 500)])"
| "toy_search LinearRegression = (0, [])"

definition toy_library :: "nat \<Rightarrow> bool \<Rightarrow> (real, nat) library" where
  "toy_library k broken =
     \<lparr>train_test_split = (\<lambda>X y test_size random_state w. (Inr (toy_split X y), w)),
      GridSearchCV_fit = (\<lambda>est grid folds scoring n_jobs X y w.
         (Inr (fst (toy_search est) + real (k * w), snd (toy_search est)), Suc w)),
      clone = (\<lambda>m. m),
      fit = (\<lambda>m X y w. (Inr m, Suc w)),
      predict = (\<lambda>m X. Inr (map (\<lambda>row. m) X)),
      fit_final_estimator = (\<lambda>est folds ms X y w.
         if broken then (Inl LibraryError, Suc w) else (Inr 2, Suc w))\<rparr>"

definition toy_X :: "real list list" where
  "toy_X = [ [0], [1], [2], [3] ]"

definition toy_y :: "real list" where
  "toy_y = [1, 3, 2, 2]"

text \<open>A table in which the second and the third entry share the least RMSE.\<close>

definition tie_table :: "(string \<times> score) list" where
  "tie_table =
     [(''A'', \<lparr>Best_Params = Str ''N/A'', MAE = 1, RMSE = 2\<rparr>),
      (''B'', \<lparr>Best_Params = Str ''N/A'', MAE = 1, RMSE = 1\<rparr>),
      (''C'', \<lparr>Best_Params = Str ''N/A'', MAE = 0, RMSE = 1\<rparr>)]"

text \<open>
  \<open>grows st s\<close>: from \<open>st\<close> to \<open>s\<close> the two dictionaries and the selected name are
  unchanged and the heap has only been extended by new objects.
\<close>

definition grows :: "('m, 'w) kernel \<Rightarrow> ('m, 'w) kernel \<Rightarrow> bool" where
  "grows st s =
     (results s = results st \<and> best_models s = best_models st \<and>
      best_model_name s = best_model_name st \<and> (\<exists>ext. heap s = heap st @ ext))"

text \<open>
  The states the small library takes the notebook through on the small table: the split,
  the table after the search, the state after the search, after the voting cell, after
  the stacking cell, and at the end.
\<close>

definition toy_d :: split where
  "toy_d =
     \<lparr>X_train = [ [2], [3] ], X_test = [ [0], [1] ], y_train = [2, 2], y_test = [1, 3]\<rparr>"

definition toy_table :: "(string \<times> score) list" where
  "toy_table =
     [(''Decision Tree'',
         \<lparr>Best_Params = Dict [(''max_depth'', IntV 20), (''min_samples_split'', IntV 5)],
          MAE = 1, RMSE = sqrt 2\<rparr>),
      (''Random Forest'',
         \<lparr>Best_Params = Dict [(''max_depth'', NoneV), (''n_estimators'', IntV 200)],
          MAE = 3, RMSE = sqrt 10\<rparr>),
      (''XGBRegressor'',
         \<lparr>Best_Params = Dict [(''learning_rate'', FloatV (5 / 100)), (''max_depth'', IntV 7),
                               (''n_estimators'', IntV 500)],
          MAE = 1, RMSE = sqrt 2\<rparr>)]"

definition toy_searched :: "(real, nat) kernel" where
  "toy_searched =
     \<lparr>world = 3, heap = [3, 5, 1],
      best_models = [(''Decision Tree'', 0), (''Random Forest'', 1), (''XGBRegressor'', 2)],
      results = toy_table,
      best_model_name = Some ''Decision Tree'',
      stdout = [Running ''Decision Tree'', Running ''Random Forest'', Running ''XGBRegressor'']
        @ report toy_table @ [Best_Line ''Decision Tree'' (sqrt 2)]\<rparr>"

definition toy_voting :: voting where
  "toy_voting =
     \<lparr>estimators = [(''dt'', 0), (''rf'', 1), (''xgb'', 2)], fitted_estimators = [3, 4, 5]\<rparr>"

definition toy_stacking :: stacking where
  "toy_stacking =
     \<lparr>base_estimators = [(''dt'', 0), (''rf'', 1), (''xgb'', 2)],
      final_estimator = LinearRegression, cv = 5,
      fitted_base_estimators = [6, 7, 8], fitted_final_estimator = Some 9\<rparr>"

definition toy_voted :: "(real, nat) kernel" where
  "toy_voted =
     toy_searched\<lparr>world := 6, heap := [3, 5, 1, 3, 5, 1],
       stdout := stdout toy_searched @
         [Header ''Voting Regressor'', Metrics_Line 1 (sqrt 2)]\<rparr>"

definition toy_ensembled :: "(real, nat) kernel" where
  "toy_ensembled =
     toy_voted\<lparr>world := 10, heap := [3, 5, 1, 3, 5, 1, 3, 5, 1, 2],
       stdout := stdout toy_voted @
         [Header ''Stacking Regressor'', Metrics_Line 1 1]\<rparr>"

definition toy_final_table :: "(string \<times> score) list" where
  "toy_final_table =
     toy_table @
     [(''Voting Regressor'', \<lparr>Best_Params = Str ''N/A'', MAE = 1, RMSE = sqrt 2\<rparr>),
      (''Stacking Regressor'', \<lparr>Best_Params = Str ''N/A'', MAE = 1, RMSE = 1\<rparr>)]"

definition toy_finished :: "(real, nat) kernel" where
  "toy_finished =
     toy_ensembled\<lparr>results := toy_final_table,
       best_model_name := Some ''Stacking Regressor'',
       stdout := stdout toy_ensembled @ report toy_final_table @
         [Best_Line ''Stacking Regressor'' 1]\<rparr>"

text \<open>The state in which the run stops when the fitting of the stacking meta-model raises.\<close>

definition toy_aborted :: "(real, nat) kernel" where
  "toy_aborted = toy_voted\<lparr>world := 10, heap := [3, 5, 1, 3, 5, 1, 3, 5, 1]\<rparr>"




text \<open>The small library with a split that raises, and with a search that raises.\<close>

definition no_split_library :: "(real, nat) library" where
  "no_split_library =
     (toy_library 0 False)\<lparr>train_test_split :=
        (\<lambda>X y test_size random_state w. (Inl LibraryError, w))\<rparr>"

definition no_search_library :: "(real, nat) library" where
  "no_search_library =
     (toy_library 0 False)\<lparr>GridSearchCV_fit :=
        (\<lambda>est grid folds scoring n_jobs X y w. (Inl LibraryError, Suc w))\<rparr>"


fun picked_only_at_end :: "out list \<Rightarrow> bool" where
  "picked_only_at_end [] = True"
| "picked_only_at_end (Best_Line n r # rest) = (rest = [])"
| "picked_only_at_end (Running n # rest) = picked_only_at_end rest"
| "picked_only_at_end (Params_Line n p # rest) = picked_only_at_end rest"
| "picked_only_at_end (Metrics_Line m r # rest) = picked_only_at_end rest"
| "picked_only_at_end (Header n # rest) = picked_only_at_end rest"

fun is_progress :: "out \<Rightarrow> bool" where
  "is_progress (Running n) = True"
| "is_progress (Params_Line n p) = False"
| "is_progress (Metrics_Line m r) = False"
| "is_progress (Header n) = False"
| "is_progress (Best_Line n r) = False"

text \<open>
  A library is reproducible when the result of each of its calls does not depend on the
  state of the world the call starts from.
\<close>

definition reproducible :: "('m, 'w) library \<Rightarrow> bool" where
  "reproducible lib =
     ((\<forall>X y t r w w'. fst (train_test_split lib X y t r w) = fst (train_test_split lib X y t r w')) \<and>
      (\<forall>est g c sc n X y w w'.
         fst (GridSearchCV_fit lib est g c sc n X y w) = fst (GridSearchCV_fit lib est g c sc n X y w')) \<and>
      (\<forall>m X y w w'. fst (fit lib m X y w) = fst (fit lib m X y w')) \<and>
      (\<forall>est c ms X y w w'.
         fst (fit_final_estimator lib est c ms X y w) = fst (fit_final_estimator lib est c ms X y w')))"

text \<open>What can be seen of a state of the notebook, and of the way a run ends, apart from the world.\<close>

definition seen ::
  "('m, 'w) kernel \<Rightarrow>
   'm list \<times> (string \<times> nat) list \<times> (string \<times> score) list \<times> string option \<times> out list" where
  "seen st = (heap st, best_models st, results st, best_model_name st, stdout st)"

fun observed ::
  "('a, ('m, 'w) kernel) outcome \<Rightarrow>
   (error + 'a) \<times> 'm list \<times> (string \<times> nat) list \<times> (string \<times> score) list \<times>
   string option \<times> out list" where
  "observed (Done v s) = (Inr v, seen s)"
| "observed (Raised e s) = (Inl e, seen s)"

section \<open>Selection returns the first entry of least RMSE\<close>

lemma dict_get_distinct:
  "distinct (map fst d) \<Longrightarrow> (k, v) \<in> set d \<Longrightarrow> dict_get d k = Inr v"
  by (simp add: dict_get_def)

lemma min_loop_first_min:
  assumes "\<And>x. x \<in> set xs \<Longrightarrow> key x = Inr (f x)"
  shows "\<exists>y. min_loop key item val xs = Inr y \<and>
    ((y = item \<and> (\<forall>x \<in> set xs. val \<le> f x)) \<or>
     (\<exists>i < length xs. y = xs ! i \<and> f (xs ! i) < val \<and>
        (\<forall>x \<in> set xs. f (xs ! i) \<le> f x) \<and> (\<forall>j < i. f (xs ! i) < f (xs ! j))))"
  using assms
proof (induction xs arbitrary: item val)
  case Nil
  then show ?case by simp
next
  case (Cons x xs)
  have kx: "key x = Inr (f x)" using Cons.prems by simp
  have rest: "\<And>z. z \<in> set xs \<Longrightarrow> key z = Inr (f z)" using Cons.prems by simp
  show ?case
  proof (cases "f x < val")
    case True
    from Cons.IH [OF rest, of x "f x"] obtain y where
      y: "min_loop key x (f x) xs = Inr y" and
      alt: "(y = x \<and> (\<forall>z \<in> set xs. f x \<le> f z)) \<or>
        (\<exists>i < length xs. y = xs ! i \<and> f (xs ! i) < f x \<and>
           (\<forall>z \<in> set xs. f (xs ! i) \<le> f z) \<and> (\<forall>j < i. f (xs ! i) < f (xs ! j)))"
      by blast
    have res: "min_loop key item val (x # xs) = Inr y"
      using kx True y by simp
    from alt show ?thesis
    proof
      assume a: "y = x \<and> (\<forall>z \<in> set xs. f x \<le> f z)"
      have "0 < length (x # xs) \<and> y = (x # xs) ! 0 \<and> f ((x # xs) ! 0) < val \<and>
            (\<forall>z \<in> set (x # xs). f ((x # xs) ! 0) \<le> f z) \<and>
            (\<forall>j < 0. f ((x # xs) ! 0) < f ((x # xs) ! j))"
        using a True by simp
      then show ?thesis using res by blast
    next
      assume "\<exists>i < length xs. y = xs ! i \<and> f (xs ! i) < f x \<and>
           (\<forall>z \<in> set xs. f (xs ! i) \<le> f z) \<and> (\<forall>j < i. f (xs ! i) < f (xs ! j))"
      then obtain i where i: "i < length xs" "y = xs ! i" "f (xs ! i) < f x"
        "\<forall>z \<in> set xs. f (xs ! i) \<le> f z" "\<forall>j < i. f (xs ! i) < f (xs ! j)"
        by blast
      have "\<forall>j < Suc i. f ((x # xs) ! Suc i) < f ((x # xs) ! j)"
      proof (intro allI impI)
        fix j assume "j < Suc i"
        then show "f ((x # xs) ! Suc i) < f ((x # xs) ! j)"
          using i(3,5) by (cases j) simp_all
      qed
      then have "Suc i < length (x # xs) \<and> y = (x # xs) ! Suc i \<and>
            f ((x # xs) ! Suc i) < val \<and>
            (\<forall>z \<in> set (x # xs). f ((x # xs) ! Suc i) \<le> f z) \<and>
            (\<forall>j < Suc i. f ((x # xs) ! Suc i) < f ((x # xs) ! j))"
        using i True by auto
      then show ?thesis using res by blast
    qed
  next
    case False
    from Cons.IH [OF rest, of item val] obtain y where
      y: "min_loop key item val xs = Inr y" and
      alt: "(y = item \<and> (\<forall>z \<in> set xs. val \<le> f z)) \<or>
        (\<exists>i < length xs. y = xs ! i \<and> f (xs ! i) < val \<and>
           (\<forall>z \<in> set xs. f (xs ! i) \<le> f z) \<and> (\<forall>j < i. f (xs ! i) < f (xs ! j)))"
      by blast
    have res: "min_loop key item val (x # xs) = Inr y"
      using kx False y by simp
    from alt show ?thesis
    proof
      assume "y = item \<and> (\<forall>z \<in> set xs. val \<le> f z)"
      then show ?thesis using res False by auto
    next
      assume "\<exists>i < length xs. y = xs ! i \<and> f (xs ! i) < val \<and>
           (\<forall>z \<in> set xs. f (xs ! i) \<le> f z) \<and> (\<forall>j < i. f (xs ! i) < f (xs ! j))"
      then obtain i where i: "i < length xs" "y = xs ! i" "f (xs ! i) < val"
        "\<forall>z \<in> set xs. f (xs ! i) \<le> f z" "\<forall>j < i. f (xs ! i) < f (xs ! j)"
        by blast
      have "\<forall>j < Suc i. f ((x # xs) ! Suc i) < f ((x # xs) ! j)"
      proof (intro allI impI)
        fix j assume "j < Suc i"
        then show "f ((x # xs) ! Suc i) < f ((x # xs) ! j)"
          using i(3,5) False by (cases j) simp_all
      qed
      then have "Suc i < length (x # xs) \<and> y = (x # xs) ! Suc i \<and>
            f ((x # xs) ! Suc i) < val \<and>
            (\<forall>z \<in> set (x # xs). f ((x # xs) ! Suc i) \<le> f z) \<and>
            (\<forall>j < Suc i. f ((x # xs) ! Suc i) < f ((x # xs) ! j))"
        using i False by auto
      then show ?thesis using res by blast
    qed
  qed
qed

lemma py_min_first_min:
  assumes "xs \<noteq> []" and "\<And>x. x \<in> set xs \<Longrightarrow> key x = Inr (f x)"
  shows "\<exists>i < length xs. py_min xs key = Inr (xs ! i) \<and>
     (\<forall>x \<in> set xs. f (xs ! i) \<le> f x) \<and> (\<forall>j < i. f (xs ! i) < f (xs ! j))"
proof -
  from assms(1) obtain x rest where xs: "xs = x # rest" by (cases xs) auto
  have kx: "key x = Inr (f x)" using assms(2) xs by simp
  have rest: "\<And>z. z \<in> set rest \<Longrightarrow> key z = Inr (f z)" using assms(2) xs by simp
  have pm: "py_min xs key = min_loop key x (f x) rest"
    by (simp add: py_min_def xs kx)
  from min_loop_first_min [of rest key f x "f x", OF rest] obtain y where
    y: "min_loop key x (f x) rest = Inr y" and
    alt: "(y = x \<and> (\<forall>z \<in> set rest. f x \<le> f z)) \<or>
      (\<exists>i < length rest. y = rest ! i \<and> f (rest ! i) < f x \<and>
         (\<forall>z \<in> set rest. f (rest ! i) \<le> f z) \<and> (\<forall>j < i. f (rest ! i) < f (rest ! j)))"
    by blast
  from alt show ?thesis
  proof
    assume a: "y = x \<and> (\<forall>z \<in> set rest. f x \<le> f z)"
    have "0 < length xs \<and> py_min xs key = Inr (xs ! 0) \<and>
       (\<forall>z \<in> set xs. f (xs ! 0) \<le> f z) \<and> (\<forall>j < 0. f (xs ! 0) < f (xs ! j))"
      using a pm y xs by simp
    then show ?thesis by blast
  next
    assume "\<exists>i < length rest. y = rest ! i \<and> f (rest ! i) < f x \<and>
         (\<forall>z \<in> set rest. f (rest ! i) \<le> f z) \<and> (\<forall>j < i. f (rest ! i) < f (rest ! j))"
    then obtain i where i: "i < length rest" "y = rest ! i" "f (rest ! i) < f x"
      "\<forall>z \<in> set rest. f (rest ! i) \<le> f z" "\<forall>j < i. f (rest ! i) < f (rest ! j)"
      by blast
    have "\<forall>j < Suc i. f (xs ! Suc i) < f (xs ! j)"
    proof (intro allI impI)
      fix j assume "j < Suc i"
      then show "f (xs ! Suc i) < f (xs ! j)"
        using i(3,5) xs by (cases j) simp_all
    qed
    then have "Suc i < length xs \<and> py_min xs key = Inr (xs ! Suc i) \<and>
       (\<forall>z \<in> set xs. f (xs ! Suc i) \<le> f z) \<and> (\<forall>j < Suc i. f (xs ! Suc i) < f (xs ! j))"
      using i pm y xs by auto
    then show ?thesis by blast
  qed
qed

lemma rmse_key_distinct:
  assumes "distinct (map fst tbl)" and "x \<in> set (map fst tbl)"
  shows "rmse_key tbl x = Inr (RMSE (the (map_of tbl x)))"
proof -
  from assms(2) obtain s where s: "(x, s) \<in> set tbl" by auto
  then have "map_of tbl x = Some s" using assms(1) by simp
  then show ?thesis by (simp add: rmse_key_def dict_get_def)
qed

text \<open>
  C1. On a non-empty results table (a dictionary, so its keys are distinct), the selection
  returns the name of an entry whose RMSE is the minimum of all recorded RMSE values, and
  among entries that share this minimum it returns the first in insertion order: every
  entry before it has a strictly larger RMSE.
\<close>

theorem select_best_first_minimum:
  assumes "tbl \<noteq> []" and "distinct (map fst tbl)"
  shows "\<exists>i < length tbl.
     select_best tbl = Inr (fst (tbl ! i)) \<and>
     RMSE (snd (tbl ! i)) = Min ((\<lambda>e. RMSE (snd e)) ` set tbl) \<and>
     (\<forall>j < i. RMSE (snd (tbl ! i)) < RMSE (snd (tbl ! j)))"
proof -
  let ?ks = "map fst tbl"
  let ?f = "\<lambda>x. RMSE (the (map_of tbl x))"
  have ne: "?ks \<noteq> []" using assms(1) by simp
  have key: "\<And>x. x \<in> set ?ks \<Longrightarrow> rmse_key tbl x = Inr (?f x)"
    using rmse_key_distinct [OF assms(2)] by blast
  from py_min_first_min [of ?ks "rmse_key tbl" ?f, OF ne key]
  obtain i where i: "i < length ?ks" "py_min ?ks (rmse_key tbl) = Inr (?ks ! i)"
    "\<forall>x \<in> set ?ks. ?f (?ks ! i) \<le> ?f x" "\<forall>j < i. ?f (?ks ! i) < ?f (?ks ! j)"
    by blast
  have val: "\<And>j. j < length tbl \<Longrightarrow> ?f (?ks ! j) = RMSE (snd (tbl ! j))"
  proof -
    fix j assume j: "j < length tbl"
    then have "(fst (tbl ! j), snd (tbl ! j)) \<in> set tbl" by simp
    then have "map_of tbl (fst (tbl ! j)) = Some (snd (tbl ! j))"
      using assms(2) by simp
    then show "?f (?ks ! j) = RMSE (snd (tbl ! j))" using j by simp
  qed
  have il: "i < length tbl" using i(1) by simp
  have least: "\<forall>e \<in> set tbl. RMSE (snd (tbl ! i)) \<le> RMSE (snd e)"
  proof
    fix e assume e: "e \<in> set tbl"
    then obtain j where j: "j < length tbl" "tbl ! j = e"
      by (auto simp: in_set_conv_nth)
    have "?ks ! j \<in> set ?ks" using j(1) by simp
    then have "?f (?ks ! i) \<le> ?f (?ks ! j)" using i(3) by blast
    then show "RMSE (snd (tbl ! i)) \<le> RMSE (snd e)"
      using val [OF il] val [OF j(1)] j(2) by simp
  qed
  have "Min ((\<lambda>e. RMSE (snd e)) ` set tbl) = RMSE (snd (tbl ! i))"
  proof (rule Min_eqI)
    show "finite ((\<lambda>e. RMSE (snd e)) ` set tbl)" by simp
    show "\<And>y. y \<in> (\<lambda>e. RMSE (snd e)) ` set tbl \<Longrightarrow> RMSE (snd (tbl ! i)) \<le> y"
      using least by auto
    show "RMSE (snd (tbl ! i)) \<in> (\<lambda>e. RMSE (snd e)) ` set tbl"
      using il by simp
  qed
  moreover have "\<forall>j < i. RMSE (snd (tbl ! i)) < RMSE (snd (tbl ! j))"
  proof (intro allI impI)
    fix j assume j: "j < i"
    then have jl: "j < length tbl" using il by simp
    from i(4) j have "?f (?ks ! i) < ?f (?ks ! j)" by blast
    then show "RMSE (snd (tbl ! i)) < RMSE (snd (tbl ! j))"
      using val [OF il] val [OF jl] by simp
  qed
  moreover have "select_best tbl = Inr (fst (tbl ! i))"
    using i(2) il by (simp add: select_best_def)
  ultimately show ?thesis using il by auto
qed

theorem select_best_first_minimum_witness:
  "tie_table \<noteq> [] \<and> distinct (map fst tie_table) \<and>
   (\<exists>i < length tie_table.
      select_best tie_table = Inr (fst (tie_table ! i)) \<and>
      RMSE (snd (tie_table ! i)) = Min ((\<lambda>e. RMSE (snd e)) ` set tie_table) \<and>
      (\<forall>j < i. RMSE (snd (tie_table ! i)) < RMSE (snd (tie_table ! j))))"
proof -
  have ne: "tie_table \<noteq> []" by (simp add: tie_table_def)
  have di: "distinct (map fst tie_table)" by (simp add: tie_table_def)
  from select_best_first_minimum [OF ne di] ne di show ?thesis by blast
qed

lemma select_best_tie_table: "select_best tie_table = Inr ''B''"
  by (simp add: select_best_def py_min_def rmse_key_def dict_get_def tie_table_def)

section \<open>The evaluation computes MAE and RMSE\<close>

lemma sum_list_zip_nth:
  assumes "length ys = length xs"
  shows "sum_list (map f (zip xs ys)) = (\<Sum>i<length xs. f (xs ! i, ys ! i))"
proof -
  have "sum_list (map f (zip xs ys)) = (\<Sum>i = 0..<length (map f (zip xs ys)). map f (zip xs ys) ! i)"
    by (rule sum_list_sum_nth)
  also have "\<dots> = (\<Sum>i = 0..<length xs. f (xs ! i, ys ! i))"
    using assms by (intro sum.cong) simp_all
  finally show ?thesis by (simp add: atLeast0LessThan)
qed

lemma evaluate_defined:
  assumes "y_true \<noteq> []" and "length y_pred = length y_true"
  shows "evaluate y_true y_pred =
     Inr ((\<Sum>i<length y_true. \<bar>y_pred ! i - y_true ! i\<bar>) / real (length y_true),
          sqrt ((\<Sum>i<length y_true. (y_pred ! i - y_true ! i)\<^sup>2) / real (length y_true)))"
proof -
  have a: "sum_list (map (\<lambda>(t, p). \<bar>p - t\<bar>) (zip y_true y_pred)) =
           (\<Sum>i<length y_true. \<bar>y_pred ! i - y_true ! i\<bar>)"
    using sum_list_zip_nth [OF assms(2), of "\<lambda>(t, p). \<bar>p - t\<bar>"] by simp
  have b: "sum_list (map (\<lambda>(t, p). (p - t)\<^sup>2) (zip y_true y_pred)) =
           (\<Sum>i<length y_true. (y_pred ! i - y_true ! i)\<^sup>2)"
    using sum_list_zip_nth [OF assms(2), of "\<lambda>(t, p). (p - t)\<^sup>2"] by simp
  show ?thesis
    using assms a b
    by (simp add: evaluate_def mean_absolute_error_def mean_squared_error_def mean_def)
qed

text \<open>
  C2. On a non-empty pair of targets and predictions of equal length, the evaluation
  returns MAE = mean(|y_pred - y_true|) and RMSE = sqrt(mean((y_pred - y_true)^2)); on
  the empty test set it raises the division-by-zero error and returns no value.
\<close>

theorem evaluate_mae_rmse:
  "(y_true \<noteq> [] \<and> length y_pred = length y_true \<longrightarrow>
      evaluate y_true y_pred =
        Inr ((\<Sum>i<length y_true. \<bar>y_pred ! i - y_true ! i\<bar>) / real (length y_true),
             sqrt ((\<Sum>i<length y_true. (y_pred ! i - y_true ! i)\<^sup>2) / real (length y_true))))
   \<and> evaluate [] [] = Inl ZeroDivisionError"
proof
  show "y_true \<noteq> [] \<and> length y_pred = length y_true \<longrightarrow>
      evaluate y_true y_pred =
        Inr ((\<Sum>i<length y_true. \<bar>y_pred ! i - y_true ! i\<bar>) / real (length y_true),
             sqrt ((\<Sum>i<length y_true. (y_pred ! i - y_true ! i)\<^sup>2) / real (length y_true)))"
    using evaluate_defined by blast
  show "evaluate [] [] = Inl ZeroDivisionError"
    by (simp add: evaluate_def mean_absolute_error_def mean_def)
qed

theorem evaluate_mae_rmse_witness:
  "[1, 3] \<noteq> ([] :: real list) \<and> length [3, 3 :: real] = length [1, 3 :: real] \<and>
   evaluate [1, 3] [3, 3] = Inr (1, sqrt 2) \<and> evaluate [] [] = Inl ZeroDivisionError"
proof -
  have "(\<Sum>i<2. \<bar>[3, 3 :: real] ! i - [1, 3] ! i\<bar>) = 2"
    by (simp add: lessThan_Suc numeral_2_eq_2)
  moreover have "(\<Sum>i<2. ([3, 3 :: real] ! i - [1, 3] ! i)\<^sup>2) = 4"
    by (simp add: lessThan_Suc numeral_2_eq_2)
  ultimately show ?thesis
    using evaluate_mae_rmse [of "[1, 3]" "[3, 3]"] by simp
qed

section \<open>MAE and RMSE over the real numbers\<close>

lemma sum_list_centred_squares:
  fixes xs :: "real list"
  shows "sum_list (map (\<lambda>x. (x - m)\<^sup>2) xs) =
         sum_list (map (\<lambda>x. x\<^sup>2) xs) - 2 * m * sum_list xs + real (length xs) * m\<^sup>2"
  by (induction xs) (simp_all add: power2_diff algebra_simps)

lemma square_of_mean_le_mean_of_squares:
  fixes xs :: "real list"
  assumes "xs \<noteq> []"
  shows "(sum_list xs / real (length xs))\<^sup>2 \<le> sum_list (map (\<lambda>x. x\<^sup>2) xs) / real (length xs)"
proof -
  let ?n = "real (length xs)"
  let ?S = "sum_list xs"
  let ?Q = "sum_list (map (\<lambda>x. x\<^sup>2) xs)"
  have n: "0 < ?n" using assms by simp
  have "0 \<le> sum_list (map (\<lambda>x. (x - ?S / ?n)\<^sup>2) xs)"
    by (rule sum_list_nonneg) auto
  also have "\<dots> = ?Q - 2 * (?S / ?n) * ?S + ?n * (?S / ?n)\<^sup>2"
    by (rule sum_list_centred_squares)
  also have "\<dots> = ?Q - ?S\<^sup>2 / ?n"
    using n by (simp add: power2_eq_square field_simps)
  finally have "?S\<^sup>2 / ?n \<le> ?Q" by simp
  then have "?S\<^sup>2 / ?n / ?n \<le> ?Q / ?n"
    by (rule divide_right_mono) simp
  moreover have "(?S / ?n)\<^sup>2 = ?S\<^sup>2 / ?n / ?n"
    by (simp add: power2_eq_square)
  ultimately show ?thesis by simp
qed

lemma evaluate_Inr:
  assumes "evaluate y_true y_pred = Inr (mae, rmse)"
  shows "length y_true = length y_pred \<and> y_true \<noteq> [] \<and>
     mae = sum_list (map (\<lambda>(t, p). \<bar>p - t\<bar>) (zip y_true y_pred)) / real (length y_true) \<and>
     rmse = sqrt (sum_list (map (\<lambda>(t, p). (p - t)\<^sup>2) (zip y_true y_pred)) / real (length y_true))"
  using assms
  by (auto simp: evaluate_def mean_absolute_error_def mean_squared_error_def mean_def
      split: if_splits sum.splits)

text \<open>
  Over the real numbers the root of the mean square is at least the mean of the absolute
  values. This is a fact about the two formulas in exact arithmetic only. The notebook
  computes both in 64-bit floating point, where rounding and underflow can reverse the
  order of the two results; floating-point arithmetic is outside this development, and
  nothing is asserted here about the order of the two recorded floating-point values.
\<close>

lemma evaluate_mae_le_rmse:
  assumes "evaluate y_true y_pred = Inr (mae, rmse)"
  shows "mae \<le> rmse"
proof -
  let ?es = "map (\<lambda>(t, p). \<bar>p - t\<bar>) (zip y_true y_pred)"
  from evaluate_Inr [OF assms] have len: "length y_true = length y_pred" and ne: "y_true \<noteq> []"
    and mae: "mae = sum_list ?es / real (length y_true)"
    and rmse: "rmse = sqrt (sum_list (map (\<lambda>(t, p). (p - t)\<^sup>2) (zip y_true y_pred)) / real (length y_true))"
    by simp_all
  have l: "length ?es = length y_true" using len by simp
  have nes: "?es \<noteq> []" using ne len by (cases y_true; cases y_pred) auto
  have sq: "map (\<lambda>x. x\<^sup>2) ?es = map (\<lambda>(t, p). (p - t)\<^sup>2) (zip y_true y_pred)"
    by (simp add: case_prod_unfold)
  have "(sum_list ?es / real (length ?es))\<^sup>2 \<le> sum_list (map (\<lambda>x. x\<^sup>2) ?es) / real (length ?es)"
    by (rule square_of_mean_le_mean_of_squares [OF nes])
  then have "(sum_list ?es / real (length y_true))\<^sup>2 \<le>
      sum_list (map (\<lambda>x. x\<^sup>2) ?es) / real (length y_true)"
    by (simp only: l)
  then have "mae\<^sup>2 \<le> sum_list (map (\<lambda>(t, p). (p - t)\<^sup>2) (zip y_true y_pred)) / real (length y_true)"
    by (simp only: mae sq)
  then show ?thesis unfolding rmse by (rule real_le_rsqrt)
qed

lemma evaluate_nonneg:
  assumes "evaluate y_true y_pred = Inr (mae, rmse)"
  shows "0 \<le> mae \<and> 0 \<le> rmse"
proof -
  from evaluate_Inr [OF assms]
  have mae: "mae = sum_list (map (\<lambda>(t, p). \<bar>p - t\<bar>) (zip y_true y_pred)) / real (length y_true)"
    and rmse: "rmse = sqrt (sum_list (map (\<lambda>(t, p). (p - t)\<^sup>2) (zip y_true y_pred)) / real (length y_true))"
    by simp_all
  have "0 \<le> sum_list (map (\<lambda>(t, p). \<bar>p - t\<bar>) (zip y_true y_pred))"
    by (rule sum_list_nonneg) auto
  then have a: "0 \<le> mae" unfolding mae by simp
  have "0 \<le> sum_list (map (\<lambda>(t, p). (p - t)\<^sup>2) (zip y_true y_pred))"
    by (rule sum_list_nonneg) auto
  then have "0 \<le> rmse" unfolding rmse by simp
  with a show ?thesis by simp
qed

section \<open>Dictionaries\<close>

lemma dict_set_fresh: "k \<notin> fst ` set d \<Longrightarrow> dict_set d k v = d @ [(k, v)]"
  by (induction d) auto

lemma set_dict_set: "set (dict_set d k v) \<subseteq> insert (k, v) (set d)"
  by (induction d) (auto split: if_splits)

lemma dict_get_Inr_mem: "dict_get d k = Inr v \<Longrightarrow> (k, v) \<in> set d"
  by (auto simp: dict_get_def split: option.splits dest: map_of_SomeD)

section \<open>What the search loop changes\<close>

text \<open>One turn of the loop either raises before it records anything, or records one
  estimator and one score and goes on.\<close>

declare search_loop.simps(2) [simp del]

lemma search_loop_step:
  fixes lib :: "('m, 'w) library" and st :: "('m, 'w) kernel"
  obtains (stop) e s where
      "search_loop lib d ((name, model) # ms) st = Raised e s"
      "results s = results st" "best_model_name s = best_model_name st"
      "stdout s = stdout st @ [Running name]"
      "(heap s = heap st \<and> best_models s = best_models st) \<or>
       (\<exists>m. heap s = heap st @ [m] \<and>
            best_models s = dict_set (best_models st) name (length (heap st)))"
  | (continue) grid m bp w y_pred mae rmse where
      "dict_get param_grids name = Inr grid"
      "GridSearchCV_fit lib model grid 5 ''neg_mean_squared_error'' (- 1)
         (X_train d) (y_train d) (world st) = (Inr (m, bp), w)"
      "predict lib m (X_test d) = Inr y_pred"
      "evaluate (y_test d) y_pred = Inr (mae, rmse)"
      "search_loop lib d ((name, model) # ms) st =
       search_loop lib d ms
         \<lparr>world = w, heap = heap st @ [m],
          best_models = dict_set (best_models st) name (length (heap st)),
          results = dict_set (results st) name \<lparr>Best_Params = Dict bp, MAE = mae, RMSE = rmse\<rparr>,
          best_model_name = best_model_name st,
          stdout = stdout st @ [Running name]\<rparr>"
proof (cases "dict_get param_grids name")
  case (Inl e)
  then show ?thesis by (intro stop [of e "st\<lparr>stdout := stdout st @ [Running name]\<rparr>"])
      (simp_all add: search_loop.simps(2))
next
  case grid: (Inr grid)
  obtain r w where gs: "GridSearchCV_fit lib model grid 5 ''neg_mean_squared_error'' (- 1)
         (X_train d) (y_train d) (world st) = (r, w)"
    by (cases "GridSearchCV_fit lib model grid 5 ''neg_mean_squared_error'' (- 1)
         (X_train d) (y_train d) (world st)")
  show ?thesis
  proof (cases r)
    case (Inl e)
    then show ?thesis
      using grid gs
      by (intro stop [of e "st\<lparr>stdout := stdout st @ [Running name], world := w\<rparr>"])
        (simp_all add: search_loop.simps(2))
  next
    case (Inr mb)
    obtain m bp where mb: "mb = (m, bp)" by (cases mb)
    let ?st3 = "st\<lparr>stdout := stdout st @ [Running name], world := w, heap := heap st @ [m],
         best_models := dict_set (best_models st) name (length (heap st))\<rparr>"
    show ?thesis
    proof (cases "predict lib m (X_test d)")
      case (Inl e)
      then show ?thesis
        using grid gs Inr mb by (intro stop [of e ?st3]) (simp_all add: search_loop.simps(2))
    next
      case pr: (Inr y_pred)
      show ?thesis
      proof (cases "evaluate (y_test d) y_pred")
        case (Inl e)
        then show ?thesis
          using grid gs Inr mb pr by (intro stop [of e ?st3]) (simp_all add: search_loop.simps(2))
      next
        case ev: (Inr sc)
        obtain mae rmse where sc: "sc = (mae, rmse)" by (cases sc)
        show ?thesis
        proof (rule continue [of grid m bp w y_pred mae rmse])
          show "dict_get param_grids name = Inr grid" by (rule grid)
          show "GridSearchCV_fit lib model grid 5 ''neg_mean_squared_error'' (- 1)
             (X_train d) (y_train d) (world st) = (Inr (m, bp), w)"
            using gs Inr mb by simp
          show "predict lib m (X_test d) = Inr y_pred" by (rule pr)
          show "evaluate (y_test d) y_pred = Inr (mae, rmse)" using ev sc by simp
          show "search_loop lib d ((name, model) # ms) st =
            search_loop lib d ms
              \<lparr>world = w, heap = heap st @ [m],
               best_models = dict_set (best_models st) name (length (heap st)),
               results = dict_set (results st) name \<lparr>Best_Params = Dict bp, MAE = mae, RMSE = rmse\<rparr>,
               best_model_name = best_model_name st,
               stdout = stdout st @ [Running name]\<rparr>"
            using grid gs Inr mb pr ev sc by (cases st) (simp add: search_loop.simps(2))
        qed
      qed
    qed
  qed
qed

lemma search_loop_best_model_name:
  fixes lib :: "('m, 'w) library" and st :: "('m, 'w) kernel"
  shows "best_model_name (final (search_loop lib d ms st)) = best_model_name st"
proof (induction ms arbitrary: st)
  case Nil
  then show ?case by simp
next
  case (Cons nm ms)
  obtain name model where nm: "nm = (name, model)" by (cases nm)
  show ?case
  proof (cases rule: search_loop_step [where lib = lib and d = d and name = name and model = model and ms = ms and st = st])
    case (stop e s)
    then show ?thesis by (simp add: nm)
  next
    case (continue grid m bp w y_pred mae rmse)
    then show ?thesis by (simp add: nm Cons.IH)
  qed
qed

lemma search_loop_stdout:
  fixes lib :: "('m, 'w) library" and st :: "('m, 'w) kernel"
  shows "\<exists>k \<le> length ms. stdout (final (search_loop lib d ms st)) =
      stdout st @ map Running (take k (map fst ms))"
proof (induction ms arbitrary: st)
  case Nil
  then show ?case by simp
next
  case (Cons nm ms)
  obtain name model where nm: "nm = (name, model)" by (cases nm)
  show ?case
  proof (cases rule: search_loop_step [where lib = lib and d = d and name = name and model = model and ms = ms and st = st])
    case (stop e s)
    then have "Suc 0 \<le> length ((name, model) # ms) \<and>
        stdout (final (search_loop lib d ((name, model) # ms) st)) =
        stdout st @ map Running (take (Suc 0) (map fst ((name, model) # ms)))"
      by simp
    then show ?thesis unfolding nm by blast
  next
    case (continue grid m bp w y_pred mae rmse)
    let ?s = "\<lparr>world = w, heap = heap st @ [m],
          best_models = dict_set (best_models st) name (length (heap st)),
          results = dict_set (results st) name \<lparr>Best_Params = Dict bp, MAE = mae, RMSE = rmse\<rparr>,
          best_model_name = best_model_name st,
          stdout = stdout st @ [Running name]\<rparr>"
    from Cons.IH [of ?s] obtain k where k: "k \<le> length ms"
      "stdout (final (search_loop lib d ms ?s)) = stdout ?s @ map Running (take k (map fst ms))"
      by blast
    then have "Suc k \<le> length ((name, model) # ms) \<and>
        stdout (final (search_loop lib d ((name, model) # ms) st)) =
        stdout st @ map Running (take (Suc k) (map fst ((name, model) # ms)))"
      using continue(5) by simp
    then show ?thesis unfolding nm by blast
  qed
qed

lemma search_loop_results_inv:
  fixes lib :: "('m, 'w) library" and st :: "('m, 'w) kernel"
  assumes "\<And>yt yp mae rmse bp. evaluate yt yp = Inr (mae, rmse) \<Longrightarrow>
             P \<lparr>Best_Params = bp, MAE = mae, RMSE = rmse\<rparr>"
    and "\<forall>e \<in> set (results st). P (snd e)"
  shows "\<forall>e \<in> set (results (final (search_loop lib d ms st))). P (snd e)"
  using assms(2)
proof (induction ms arbitrary: st)
  case Nil
  then show ?case by simp
next
  case (Cons nm ms)
  obtain name model where nm: "nm = (name, model)" by (cases nm)
  show ?case
  proof (cases rule: search_loop_step [where lib = lib and d = d and name = name and model = model and ms = ms and st = st])
    case (stop e s)
    then show ?thesis using Cons.prems by (simp add: nm)
  next
    case (continue grid m bp w y_pred mae rmse)
    let ?sc = "\<lparr>Best_Params = Dict bp, MAE = mae, RMSE = rmse\<rparr>"
    have "\<forall>e \<in> set (dict_set (results st) name ?sc). P (snd e)"
      using set_dict_set [of "results st" name ?sc] Cons.prems assms(1) [OF continue(4), of "Dict bp"]
      by auto
    then show ?thesis unfolding nm continue(5) by (intro Cons.IH) simp
  qed
qed

lemma search_loop_heap:
  fixes lib :: "('m, 'w) library" and st :: "('m, 'w) kernel"
  shows "\<exists>ext. heap (final (search_loop lib d ms st)) = heap st @ ext"
proof (induction ms arbitrary: st)
  case Nil
  then show ?case by simp
next
  case (Cons nm ms)
  obtain name model where nm: "nm = (name, model)" by (cases nm)
  show ?case
  proof (cases rule: search_loop_step [where lib = lib and d = d and name = name and model = model and ms = ms and st = st])
    case (stop e s)
    then show ?thesis unfolding nm by auto
  next
    case (continue grid m bp w y_pred mae rmse)
    let ?s = "\<lparr>world = w, heap = heap st @ [m],
          best_models = dict_set (best_models st) name (length (heap st)),
          results = dict_set (results st) name \<lparr>Best_Params = Dict bp, MAE = mae, RMSE = rmse\<rparr>,
          best_model_name = best_model_name st,
          stdout = stdout st @ [Running name]\<rparr>"
    from Cons.IH [of ?s] obtain ext where "heap (final (search_loop lib d ms ?s)) = heap ?s @ ext"
      by blast
    then have "heap (final (search_loop lib d ((name, model) # ms) st)) = heap st @ ([m] @ ext)"
      using continue(5) by simp
    then show ?thesis unfolding nm by blast
  qed
qed

lemma search_loop_valid:
  fixes lib :: "('m, 'w) library" and st :: "('m, 'w) kernel"
  assumes "\<forall>e \<in> set (best_models st). snd e < length (heap st)"
  shows "\<forall>e \<in> set (best_models (final (search_loop lib d ms st))).
           snd e < length (heap (final (search_loop lib d ms st)))"
  using assms
proof (induction ms arbitrary: st)
  case Nil
  then show ?case by simp
next
  case (Cons nm ms)
  obtain name model where nm: "nm = (name, model)" by (cases nm)
  have bm: "\<And>m. \<forall>e \<in> set (dict_set (best_models st) name (length (heap st))).
      snd e < length (heap st @ [m])"
    using set_dict_set [of "best_models st" name "length (heap st)"] Cons.prems
    by (auto simp: less_Suc_eq)
  show ?case
  proof (cases rule: search_loop_step [where lib = lib and d = d and name = name and model = model and ms = ms and st = st])
    case (stop e s)
    from stop(5) show ?thesis
    proof
      assume "heap s = heap st \<and> best_models s = best_models st"
      then show ?thesis using stop(1) Cons.prems by (simp add: nm)
    next
      assume "\<exists>m. heap s = heap st @ [m] \<and>
            best_models s = dict_set (best_models st) name (length (heap st))"
      then obtain m where "heap s = heap st @ [m]"
        "best_models s = dict_set (best_models st) name (length (heap st))" by blast
      then show ?thesis using stop(1) bm [of m] by (simp add: nm)
    qed
  next
    case (continue grid m bp w y_pred mae rmse)
    show ?thesis unfolding nm continue(5) using bm [of m] by (intro Cons.IH) simp
  qed
qed

text \<open>A loop that completes has appended one entry per candidate, in order.\<close>

lemma search_loop_Done:
  fixes lib :: "('m, 'w) library" and st :: "('m, 'w) kernel"
  assumes "search_loop lib d ms st = Done u s"
    and "distinct (map fst ms)"
    and "fst ` set ms \<inter> fst ` set (results st) = {}"
    and "fst ` set ms \<inter> fst ` set (best_models st) = {}"
  shows "\<exists>scores addrs.
     results s = results st @ scores \<and> map fst scores = map fst ms \<and>
     list_all (\<lambda>e. \<exists>bp. Best_Params (snd e) = Dict bp) scores \<and>
     best_models s = best_models st @ addrs \<and> map fst addrs = map fst ms \<and>
     stdout s = stdout st @ map Running (map fst ms)"
  using assms
proof (induction ms arbitrary: st)
  case Nil
  then show ?case by simp
next
  case (Cons nm ms)
  obtain name model where nm: "nm = (name, model)" by (cases nm)
  have fresh_r: "name \<notin> fst ` set (results st)" and fresh_b: "name \<notin> fst ` set (best_models st)"
    using Cons.prems(3,4) nm by auto
  show ?case
  proof (cases rule: search_loop_step [where lib = lib and d = d and name = name and model = model and ms = ms and st = st])
    case (stop e s')
    then show ?thesis using Cons.prems(1) nm by simp
  next
    case (continue grid m bp w y_pred mae rmse)
    let ?sc = "\<lparr>Best_Params = Dict bp, MAE = mae, RMSE = rmse\<rparr>"
    let ?s = "\<lparr>world = w, heap = heap st @ [m],
          best_models = dict_set (best_models st) name (length (heap st)),
          results = dict_set (results st) name ?sc,
          best_model_name = best_model_name st,
          stdout = stdout st @ [Running name]\<rparr>"
    have r: "results ?s = results st @ [(name, ?sc)]"
      using dict_set_fresh [OF fresh_r] by simp
    have b: "best_models ?s = best_models st @ [(name, length (heap st))]"
      using dict_set_fresh [OF fresh_b] by simp
    have run: "search_loop lib d ms ?s = Done u s"
      using Cons.prems(1) continue(5) nm by simp
    have d: "distinct (map fst ms)" using Cons.prems(2) by simp
    have nin: "name \<notin> fst ` set ms" using Cons.prems(2) nm by (auto simp: image_iff)
    have i1: "fst ` set ms \<inter> fst ` set (results ?s) = {}"
      using Cons.prems(3) nin unfolding r by auto
    have i2: "fst ` set ms \<inter> fst ` set (best_models ?s) = {}"
      using Cons.prems(4) nin unfolding b by auto
    from Cons.IH [OF run d i1 i2] obtain scores addrs where
      IH: "results s = results ?s @ scores" "map fst scores = map fst ms"
        "list_all (\<lambda>e. \<exists>bp. Best_Params (snd e) = Dict bp) scores"
        "best_models s = best_models ?s @ addrs" "map fst addrs = map fst ms"
        "stdout s = stdout ?s @ map Running (map fst ms)"
      by blast
    have "results s = results st @ ((name, ?sc) # scores) \<and>
          map fst ((name, ?sc) # scores) = map fst (nm # ms) \<and>
          list_all (\<lambda>e. \<exists>bp. Best_Params (snd e) = Dict bp) ((name, ?sc) # scores) \<and>
          best_models s = best_models st @ ((name, length (heap st)) # addrs) \<and>
          map fst ((name, length (heap st)) # addrs) = map fst (nm # ms) \<and>
          stdout s = stdout st @ map Running (map fst (nm # ms))"
      using IH r b nm by simp
    then show ?thesis by blast
  qed
qed

section \<open>States that only grow\<close>

lemma grows_refl: "grows st st"
  by (simp add: grows_def)

lemma grows_trans: "grows a b \<Longrightarrow> grows b c \<Longrightarrow> grows a c"
  by (auto simp: grows_def)

lemma grows_nth: "grows st s \<Longrightarrow> a < length (heap st) \<Longrightarrow> heap s ! a = heap st ! a"
  by (auto simp: grows_def nth_append)

lemma grows_length: "grows st s \<Longrightarrow> length (heap st) \<le> length (heap s)"
  by (auto simp: grows_def)

section \<open>Selection inside the notebook\<close>

lemma map_fst_dict_set_old: "k \<in> fst ` set d \<Longrightarrow> map fst (dict_set d k v) = map fst d"
  by (induction d) force+

lemma map_fst_dict_set:
  "map fst (dict_set d k v) = (if k \<in> fst ` set d then map fst d else map fst d @ [k])"
  using map_fst_dict_set_old [of k d v] dict_set_fresh [of k d v] by simp

lemma distinct_dict_set: "distinct (map fst d) \<Longrightarrow> distinct (map fst (dict_set d k v))"
  by (simp add: map_fst_dict_set)

lemma dict_set_nonempty: "dict_set d k v \<noteq> []"
  by (cases d) (auto split: if_splits)

lemma select_best_defined:
  assumes "tbl \<noteq> []" and "distinct (map fst tbl)"
  shows "\<exists>n sc. select_best tbl = Inr n \<and> dict_get tbl n = Inr sc"
proof -
  have ne: "map fst tbl \<noteq> []" using assms(1) by simp
  have key: "\<And>x. x \<in> set (map fst tbl) \<Longrightarrow>
      rmse_key tbl x = Inr (RMSE (the (map_of tbl x)))"
    using rmse_key_distinct [OF assms(2)] by blast
  from py_min_first_min [of "map fst tbl" "rmse_key tbl" "\<lambda>x. RMSE (the (map_of tbl x))", OF ne key]
  obtain i where i: "i < length (map fst tbl)"
    "py_min (map fst tbl) (rmse_key tbl) = Inr (map fst tbl ! i)"
    by blast
  then have il: "i < length tbl" by simp
  then have "(fst (tbl ! i), snd (tbl ! i)) \<in> set tbl" by simp
  then have "dict_get tbl (fst (tbl ! i)) = Inr (snd (tbl ! i))"
    using assms(2) by (rule dict_get_distinct [rotated])
  moreover have "select_best tbl = Inr (fst (tbl ! i))"
    using i(2) il by (simp add: select_best_def)
  ultimately show ?thesis by blast
qed

lemma pick_best_total:
  fixes st :: "('m, 'w) kernel"
  assumes "results st \<noteq> []" and "distinct (map fst (results st))"
  shows "\<exists>n sc. select_best (results st) = Inr n \<and> dict_get (results st) n = Inr sc \<and>
     pick_best st = Done () (st\<lparr>best_model_name := Some n,
                               stdout := stdout st @ [Best_Line n (RMSE sc)]\<rparr>)"
proof -
  from select_best_defined [OF assms] obtain n sc where
    "select_best (results st) = Inr n" "dict_get (results st) n = Inr sc" by blast
  then have "select_best (results st) = Inr n \<and> dict_get (results st) n = Inr sc \<and>
     pick_best st = Done () (st\<lparr>best_model_name := Some n,
                               stdout := stdout st @ [Best_Line n (RMSE sc)]\<rparr>)"
    by (simp add: pick_best_def)
  then show ?thesis by blast
qed

section \<open>Cloning and fitting the members of an ensemble\<close>

declare fit_clones.simps(2) [simp del]

lemma fit_clones_step:
  fixes lib :: "('m, 'w) library" and st :: "('m, 'w) kernel"
  obtains (stop) e w where
      "fit lib (clone lib (heap st ! a)) X y (world st) = (Inl e, w)"
      "fit_clones lib (a # as) X y st =
         Raised e (st\<lparr>world := w, heap := heap st @ [clone lib (heap st ! a)]\<rparr>)"
  | (continue) m w where
      "fit lib (clone lib (heap st ! a)) X y (world st) = (Inr m, w)"
      "fit_clones lib (a # as) X y st =
         (case fit_clones lib as X y (st\<lparr>world := w, heap := heap st @ [m]\<rparr>) of
            Raised e s \<Rightarrow> Raised e s
          | Done cs s \<Rightarrow> Done (length (heap st) # cs) s)"
proof -
  obtain r w where f: "fit lib (clone lib (heap st ! a)) X y (world st) = (r, w)"
    by (cases "fit lib (clone lib (heap st ! a)) X y (world st)")
  show ?thesis
  proof (cases r)
    case (Inl e)
    show ?thesis
      by (rule stop [of e w]) (simp_all add: f Inl fit_clones.simps(2) Let_def)
  next
    case (Inr m)
    show ?thesis
      by (rule continue [of m w]) (simp_all add: f Inr fit_clones.simps(2) Let_def)
  qed
qed

lemma fit_clones_grows:
  fixes lib :: "('m, 'w) library" and st :: "('m, 'w) kernel"
  shows "grows st (final (fit_clones lib as X y st)) \<and>
         stdout (final (fit_clones lib as X y st)) = stdout st"
proof (induction as arbitrary: st)
  case Nil
  then show ?case by (simp add: grows_def)
next
  case (Cons a as)
  show ?case
  proof (cases rule: fit_clones_step [where lib = lib and a = a and as = as and X = X and y = y and st = st])
    case (stop e w)
    then show ?thesis by (simp add: grows_def)
  next
    case (continue m w)
    let ?s = "st\<lparr>world := w, heap := heap st @ [m]\<rparr>"
    have g: "grows st ?s" by (simp add: grows_def)
    have "final (fit_clones lib (a # as) X y st) = final (fit_clones lib as X y ?s)"
      unfolding continue(2) by (cases "fit_clones lib as X y ?s") simp_all
    then show ?thesis using Cons.IH [of ?s] grows_trans [OF g] by simp
  qed
qed

lemma fit_clones_Done:
  fixes lib :: "('m, 'w) library" and st :: "('m, 'w) kernel"
  assumes "fit_clones lib as X y st = Done cs s" and "\<forall>a \<in> set as. a < length (heap st)"
  shows "list_all2 (\<lambda>a c. length (heap st) \<le> c \<and> c < length (heap s) \<and>
            (\<exists>w w'. fit lib (clone lib (heap st ! a)) X y w = (Inr (heap s ! c), w'))) as cs"
  using assms
proof (induction as arbitrary: st cs)
  case Nil
  then show ?case by simp
next
  case (Cons a as)
  show ?case
  proof (cases rule: fit_clones_step [where lib = lib and a = a and as = as and X = X and y = y and st = st])
    case (stop e w)
    then show ?thesis using Cons.prems(1) by simp
  next
    case (continue m w)
    let ?s = "st\<lparr>world := w, heap := heap st @ [m]\<rparr>"
    from Cons.prems(1) continue(2) obtain cs' where
      run: "fit_clones lib as X y ?s = Done cs' s" and cs: "cs = length (heap st) # cs'"
      by (cases "fit_clones lib as X y ?s") auto
    have v: "\<forall>a \<in> set as. a < length (heap ?s)" using Cons.prems(2) by auto
    have IH: "list_all2 (\<lambda>a c. length (heap ?s) \<le> c \<and> c < length (heap s) \<and>
            (\<exists>w w'. fit lib (clone lib (heap ?s ! a)) X y w = (Inr (heap s ! c), w'))) as cs'"
      by (rule Cons.IH [OF run v])
    have rest: "list_all2 (\<lambda>a c. length (heap st) \<le> c \<and> c < length (heap s) \<and>
            (\<exists>w w'. fit lib (clone lib (heap st ! a)) X y w = (Inr (heap s ! c), w'))) as cs'"
      using IH Cons.prems(2)
      by (auto simp: list_all2_conv_all_nth nth_append)
    have g: "grows ?s s" using fit_clones_grows [of ?s lib as X y] run by simp
    have "heap s ! length (heap st) = m"
      using grows_nth [OF g, of "length (heap st)"] by simp
    moreover have "length (heap st) < length (heap s)"
      using grows_length [OF g] by simp
    ultimately have "length (heap st) \<le> length (heap st) \<and> length (heap st) < length (heap s) \<and>
        (\<exists>w w'. fit lib (clone lib (heap st ! a)) X y w = (Inr (heap s ! length (heap st)), w'))"
      using continue(1) by auto
    then show ?thesis using rest cs by simp
  qed
qed

section \<open>The cells, one by one\<close>

lemma pick_best_keeps:
  fixes st :: "('m, 'w) kernel"
  shows "results (final (pick_best st)) = results st \<and>
         heap (final (pick_best st)) = heap st \<and>
         best_models (final (pick_best st)) = best_models st \<and>
         world (final (pick_best st)) = world st"
  by (simp add: pick_best_def Let_def split: sum.splits)

lemma cell_6_results_inv:
  fixes lib :: "('m, 'w) library" and st :: "('m, 'w) kernel"
  assumes "\<And>yt yp mae rmse bp. evaluate yt yp = Inr (mae, rmse) \<Longrightarrow>
             P \<lparr>Best_Params = bp, MAE = mae, RMSE = rmse\<rparr>"
    and "\<forall>e \<in> set (results st). P (snd e)"
  shows "\<forall>e \<in> set (results (final (cell_6 lib d st))). P (snd e)"
proof (cases "search_loop lib d models st")
  case (Raised e s)
  then show ?thesis
    using search_loop_results_inv [of P st lib d models, OF assms] by (simp add: cell_6_def)
next
  case (Done u s)
  then have "\<forall>e \<in> set (results s). P (snd e)"
    using search_loop_results_inv [of P st lib d models, OF assms] by simp
  then show ?thesis
    using Done pick_best_keeps [of "s\<lparr>stdout := stdout s @ report (results s)\<rparr>"]
    by (simp add: cell_6_def)
qed

text \<open>The sixth cell from empty dictionaries: it raises inside the loop, or it leaves the
  three candidates recorded in order and the best of them selected and printed.\<close>

lemma cell_6_cases:
  fixes lib :: "('m, 'w) library" and st :: "('m, 'w) kernel"
  assumes "results st = []" and "best_models st = []"
  obtains (fails) e s where
      "cell_6 lib d st = Raised e s" "search_loop lib d models st = Raised e s"
  | (completes) s s1 s2 s3 a1 a2 a3 n sc where
      "cell_6 lib d st = Done () s"
      "results s = [(''Decision Tree'', s1), (''Random Forest'', s2), (''XGBRegressor'', s3)]"
      "\<exists>bp. Best_Params s1 = Dict bp" "\<exists>bp. Best_Params s2 = Dict bp"
      "\<exists>bp. Best_Params s3 = Dict bp"
      "best_models s = [(''Decision Tree'', a1), (''Random Forest'', a2), (''XGBRegressor'', a3)]"
      "select_best (results s) = Inr n" "dict_get (results s) n = Inr sc"
      "best_model_name s = Some n"
      "stdout s = stdout st @ map Running (map fst models) @ report (results s) @
                  [Best_Line n (RMSE sc)]"
proof (cases "search_loop lib d models st")
  case (Raised e s)
  then show ?thesis by (intro fails [of e s]) (simp_all add: cell_6_def)
next
  case (Done u s0)
  have "distinct (map fst models)" by (simp add: models_def)
  moreover have "fst ` set models \<inter> fst ` set (results st) = {}" using assms(1) by simp
  moreover have "fst ` set models \<inter> fst ` set (best_models st) = {}" using assms(2) by simp
  ultimately obtain scores addrs where
    sh: "results s0 = results st @ scores" "map fst scores = map fst models"
      "list_all (\<lambda>e. \<exists>bp. Best_Params (snd e) = Dict bp) scores"
      "best_models s0 = best_models st @ addrs" "map fst addrs = map fst models"
      "stdout s0 = stdout st @ map Running (map fst models)"
    using search_loop_Done [OF Done] by blast
  from sh(2) obtain s1 s2 s3 where scores:
    "scores = [(''Decision Tree'', s1), (''Random Forest'', s2), (''XGBRegressor'', s3)]"
    by (auto simp: models_def map_eq_Cons_conv)
  from sh(5) obtain a1 a2 a3 where addrs:
    "addrs = [(''Decision Tree'', a1), (''Random Forest'', a2), (''XGBRegressor'', a3)]"
    by (auto simp: models_def map_eq_Cons_conv)
  let ?s = "s0\<lparr>stdout := stdout s0 @ report (results s0)\<rparr>"
  have r: "results ?s = [(''Decision Tree'', s1), (''Random Forest'', s2), (''XGBRegressor'', s3)]"
    using sh(1) scores assms(1) by simp
  have "results ?s \<noteq> []" "distinct (map fst (results ?s))" unfolding r by simp_all
  from pick_best_total [OF this] obtain n sc where
    pb: "select_best (results ?s) = Inr n" "dict_get (results ?s) n = Inr sc"
      "pick_best ?s = Done () (?s\<lparr>best_model_name := Some n,
                               stdout := stdout ?s @ [Best_Line n (RMSE sc)]\<rparr>)"
    by blast
  show ?thesis
  proof (rule completes [of "?s\<lparr>best_model_name := Some n,
        stdout := stdout ?s @ [Best_Line n (RMSE sc)]\<rparr>" s1 s2 s3 a1 a2 a3 n sc])
    show "cell_6 lib d st = Done () (?s\<lparr>best_model_name := Some n,
        stdout := stdout ?s @ [Best_Line n (RMSE sc)]\<rparr>)"
      using Done pb(3) by (simp add: cell_6_def)
    show "results (?s\<lparr>best_model_name := Some n, stdout := stdout ?s @ [Best_Line n (RMSE sc)]\<rparr>) =
        [(''Decision Tree'', s1), (''Random Forest'', s2), (''XGBRegressor'', s3)]"
      using r by simp
    show "\<exists>bp. Best_Params s1 = Dict bp" "\<exists>bp. Best_Params s2 = Dict bp"
      "\<exists>bp. Best_Params s3 = Dict bp"
      using sh(3) scores by simp_all
    show "best_models (?s\<lparr>best_model_name := Some n, stdout := stdout ?s @ [Best_Line n (RMSE sc)]\<rparr>) =
        [(''Decision Tree'', a1), (''Random Forest'', a2), (''XGBRegressor'', a3)]"
      using sh(4) addrs assms(2) by simp
    show "select_best (results (?s\<lparr>best_model_name := Some n,
        stdout := stdout ?s @ [Best_Line n (RMSE sc)]\<rparr>)) = Inr n"
      using pb(1) by simp
    show "dict_get (results (?s\<lparr>best_model_name := Some n,
        stdout := stdout ?s @ [Best_Line n (RMSE sc)]\<rparr>)) n = Inr sc"
      using pb(2) by simp
    show "best_model_name (?s\<lparr>best_model_name := Some n,
        stdout := stdout ?s @ [Best_Line n (RMSE sc)]\<rparr>) = Some n"
      by simp
    show "stdout (?s\<lparr>best_model_name := Some n, stdout := stdout ?s @ [Best_Line n (RMSE sc)]\<rparr>) =
        stdout st @ map Running (map fst models) @
        report (results (?s\<lparr>best_model_name := Some n,
          stdout := stdout ?s @ [Best_Line n (RMSE sc)]\<rparr>)) @ [Best_Line n (RMSE sc)]"
      using sh(6) by simp
  qed
qed

lemma cell_6_valid:
  fixes lib :: "('m, 'w) library" and st :: "('m, 'w) kernel"
  assumes "\<forall>e \<in> set (best_models st). snd e < length (heap st)"
  shows "\<forall>e \<in> set (best_models (final (cell_6 lib d st))).
           snd e < length (heap (final (cell_6 lib d st)))"
proof (cases "search_loop lib d models st")
  case (Raised e s)
  then show ?thesis
    using search_loop_valid [OF assms, of lib d models] by (simp add: cell_6_def)
next
  case (Done u s)
  then have "\<forall>e \<in> set (best_models s). snd e < length (heap s)"
    using search_loop_valid [OF assms, of lib d models] by simp
  then show ?thesis
    using Done pick_best_keeps [of "s\<lparr>stdout := stdout s @ report (results s)\<rparr>"]
    by (simp add: cell_6_def)
qed

lemma cell_7_Done:
  fixes st :: "('m, 'w) kernel"
  assumes "best_models st = [(''Decision Tree'', a1), (''Random Forest'', a2), (''XGBRegressor'', a3)]"
  shows "cell_7 st = Done ((a1, a2, a3),
      \<lparr>estimators = [(''dt'', a1), (''rf'', a2), (''xgb'', a3)], fitted_estimators = []\<rparr>) st"
  using assms by (simp add: cell_7_def dict_get_def)

lemma cell_8_Done:
  fixes lib :: "('m, 'w) library" and st :: "('m, 'w) kernel"
  assumes "cell_8 lib d vr0 st = Done (vr, y_pred, mae, rmse) s"
  shows "\<exists>cs s1. fit_clones lib (map snd (estimators vr0)) (X_train d) (y_train d) st = Done cs s1 \<and>
     vr = vr0\<lparr>fitted_estimators := cs\<rparr> \<and>
     VotingRegressor_predict lib vr (X_test d) (heap s1) = Inr y_pred \<and>
     evaluate (y_test d) y_pred = Inr (mae, rmse) \<and>
     s = s1\<lparr>stdout := stdout s1 @ [Header ''Voting Regressor'', Metrics_Line mae rmse]\<rparr>"
  using assms
  by (auto simp: cell_8_def VotingRegressor_fit_def split: outcome.splits sum.splits prod.splits)

lemma cell_8_grows:
  fixes lib :: "('m, 'w) library" and st :: "('m, 'w) kernel"
  shows "grows st (final (cell_8 lib d vr0 st)) \<and>
     (\<exists>extra. stdout (final (cell_8 lib d vr0 st)) = stdout st @ extra)"
  using fit_clones_grows [of st lib "map snd (estimators vr0)" "X_train d" "y_train d"]
  by (auto simp: cell_8_def VotingRegressor_fit_def grows_def
      split: outcome.splits sum.splits prod.splits)

lemma StackingRegressor_fit_grows:
  fixes lib :: "('m, 'w) library" and st :: "('m, 'w) kernel"
  shows "grows st (final (StackingRegressor_fit lib sr X y st)) \<and>
     stdout (final (StackingRegressor_fit lib sr X y st)) = stdout st"
  using fit_clones_grows [of st lib "map snd (base_estimators sr)" X y]
  by (auto simp: StackingRegressor_fit_def grows_def
      split: outcome.splits sum.splits prod.splits)

lemma cell_9_Done:
  fixes lib :: "('m, 'w) library" and st :: "('m, 'w) kernel"
  assumes "cell_9 lib d best st = Done (sr, y_pred, mae, rmse) s"
  shows "\<exists>s1. StackingRegressor_predict lib sr (X_test d) (heap s1) = Inr y_pred \<and>
     evaluate (y_test d) y_pred = Inr (mae, rmse) \<and>
     s = s1\<lparr>stdout := stdout s1 @ [Header ''Stacking Regressor'', Metrics_Line mae rmse]\<rparr>"
  using assms
  by (auto simp: cell_9_def Let_def split: outcome.splits sum.splits prod.splits)

lemma cell_9_grows:
  fixes lib :: "('m, 'w) library" and st :: "('m, 'w) kernel"
  shows "grows st (final (cell_9 lib d best st)) \<and>
     (\<exists>extra. stdout (final (cell_9 lib d best st)) = stdout st @ extra)"
proof -
  obtain b1 b2 b3 where best: "best = (b1, b2, b3)" by (cases best)
  let ?sr = "\<lparr>base_estimators = [(''dt'', b1), (''rf'', b2), (''xgb'', b3)],
     final_estimator = LinearRegression, cv = 5,
     fitted_base_estimators = [], fitted_final_estimator = None\<rparr>"
  show ?thesis
    using StackingRegressor_fit_grows [of st lib ?sr "X_train d" "y_train d"]
    by (auto simp: cell_9_def best Let_def grows_def split: outcome.splits sum.splits prod.splits)
qed

section \<open>The ensemble cells and the last cell\<close>

lemma cell_7_final:
  fixes st :: "('m, 'w) kernel"
  shows "final (cell_7 st) = st"
  by (simp add: cell_7_def split: sum.splits)

lemma ensembles_grows:
  fixes lib :: "('m, 'w) library" and st :: "('m, 'w) kernel"
  shows "grows st (final (ensembles lib d st)) \<and>
     (\<exists>extra. stdout (final (ensembles lib d st)) = stdout st @ extra)"
proof (cases "cell_7 st")
  case (Raised e s)
  then show ?thesis using cell_7_final [of st] by (simp add: ensembles_def grows_refl)
next
  case (Done bv s7)
  obtain best vr0 where bv: "bv = (best, vr0)" by (cases bv)
  have s7: "s7 = st" using Done cell_7_final [of st] by simp
  show ?thesis
  proof (cases "cell_8 lib d vr0 st")
    case (Raised e s)
    then show ?thesis
      using Done bv s7 cell_8_grows [of st lib d vr0] by (simp add: ensembles_def)
  next
    case c8: (Done v s8)
    have g8: "grows st s8" and o8: "\<exists>extra. stdout s8 = stdout st @ extra"
      using c8 cell_8_grows [of st lib d vr0] by simp_all
    have g9: "grows s8 (final (cell_9 lib d best s8))"
      and o9: "\<exists>extra. stdout (final (cell_9 lib d best s8)) = stdout s8 @ extra"
      using cell_9_grows [of s8 lib d best] by simp_all
    have fin: "final (ensembles lib d st) = final (cell_9 lib d best s8)"
      using Done bv s7 c8 by (cases "cell_9 lib d best s8") (simp_all add: ensembles_def)
    from o8 o9 have "\<exists>extra. stdout (final (cell_9 lib d best s8)) = stdout st @ extra"
      by auto
    then show ?thesis using fin grows_trans [OF g8 g9] by simp
  qed
qed

lemma ensembles_Done:
  fixes lib :: "('m, 'w) library" and st :: "('m, 'w) kernel"
  assumes "ensembles lib d st =
     Done ((vr, y_pred_voting, mae_voting, rmse_voting),
           (sr, y_pred_stacking, mae_stacking, rmse_stacking)) s9"
  shows "\<exists>best vr0 s8.
     cell_7 st = Done (best, vr0) st \<and>
     cell_8 lib d vr0 st = Done (vr, y_pred_voting, mae_voting, rmse_voting) s8 \<and>
     cell_9 lib d best s8 = Done (sr, y_pred_stacking, mae_stacking, rmse_stacking) s9"
proof (cases "cell_7 st")
  case (Raised e s)
  then show ?thesis using assms by (simp add: ensembles_def)
next
  case (Done bv s7)
  obtain best vr0 where bv: "bv = (best, vr0)" by (cases bv)
  have s7: "s7 = st" using Done cell_7_final [of st] by simp
  show ?thesis
  proof (cases "cell_8 lib d vr0 st")
    case (Raised e s)
    then show ?thesis using assms Done bv s7 by (simp add: ensembles_def)
  next
    case c8: (Done v s8)
    show ?thesis
    proof (cases "cell_9 lib d best s8")
      case (Raised e s)
      then show ?thesis using assms Done bv s7 c8 by (simp add: ensembles_def)
    next
      case c9: (Done v9 s)
      then show ?thesis using assms Done bv s7 c8 by (simp add: ensembles_def)
    qed
  qed
qed

lemma ensembles_Done_scores:
  fixes lib :: "('m, 'w) library" and st :: "('m, 'w) kernel"
  assumes "ensembles lib d st =
     Done ((vr, y_pred_voting, mae_voting, rmse_voting),
           (sr, y_pred_stacking, mae_stacking, rmse_stacking)) s9"
  shows "evaluate (y_test d) y_pred_voting = Inr (mae_voting, rmse_voting) \<and>
         evaluate (y_test d) y_pred_stacking = Inr (mae_stacking, rmse_stacking)"
proof -
  from ensembles_Done [OF assms] obtain best vr0 s8 where
    c8: "cell_8 lib d vr0 st = Done (vr, y_pred_voting, mae_voting, rmse_voting) s8" and
    c9: "cell_9 lib d best s8 = Done (sr, y_pred_stacking, mae_stacking, rmse_stacking) s9"
    by blast
  from cell_8_Done [OF c8] cell_9_Done [OF c9] show ?thesis by blast
qed

lemma cell_10_keeps:
  fixes st :: "('m, 'w) kernel"
  shows "results (final (cell_10 mv rv ms rs st)) =
     dict_set (dict_set (results st) ''Voting Regressor''
                 \<lparr>Best_Params = Str ''N/A'', MAE = mv, RMSE = rv\<rparr>)
       ''Stacking Regressor'' \<lparr>Best_Params = Str ''N/A'', MAE = ms, RMSE = rs\<rparr> \<and>
     heap (final (cell_10 mv rv ms rs st)) = heap st \<and>
     best_models (final (cell_10 mv rv ms rs st)) = best_models st"
  unfolding cell_10_def Let_def
  using pick_best_keeps [of "st\<lparr>results :=
      dict_set (dict_set (results st) ''Voting Regressor''
                 \<lparr>Best_Params = Str ''N/A'', MAE = mv, RMSE = rv\<rparr>)
       ''Stacking Regressor'' \<lparr>Best_Params = Str ''N/A'', MAE = ms, RMSE = rs\<rparr>,
      stdout := stdout st @ report (dict_set (dict_set (results st) ''Voting Regressor''
                 \<lparr>Best_Params = Str ''N/A'', MAE = mv, RMSE = rv\<rparr>)
       ''Stacking Regressor'' \<lparr>Best_Params = Str ''N/A'', MAE = ms, RMSE = rs\<rparr>)\<rparr>"]
  by simp

lemma cell_10_total:
  fixes st :: "('m, 'w) kernel"
  assumes "distinct (map fst (results st))"
  shows "\<exists>n sc tbl. tbl = dict_set (dict_set (results st) ''Voting Regressor''
                 \<lparr>Best_Params = Str ''N/A'', MAE = mv, RMSE = rv\<rparr>)
       ''Stacking Regressor'' \<lparr>Best_Params = Str ''N/A'', MAE = ms, RMSE = rs\<rparr> \<and>
     select_best tbl = Inr n \<and> dict_get tbl n = Inr sc \<and>
     cell_10 mv rv ms rs st =
       Done () (st\<lparr>results := tbl, best_model_name := Some n,
                   stdout := stdout st @ report tbl @ [Best_Line n (RMSE sc)]\<rparr>)"
proof -
  let ?tbl = "dict_set (dict_set (results st) ''Voting Regressor''
                 \<lparr>Best_Params = Str ''N/A'', MAE = mv, RMSE = rv\<rparr>)
       ''Stacking Regressor'' \<lparr>Best_Params = Str ''N/A'', MAE = ms, RMSE = rs\<rparr>"
  let ?s = "st\<lparr>results := ?tbl, stdout := stdout st @ report ?tbl\<rparr>"
  have "results ?s \<noteq> []" by (simp add: dict_set_nonempty)
  moreover have "distinct (map fst (results ?s))"
    using assms by (simp add: distinct_dict_set)
  ultimately obtain n sc where
    pb: "select_best (results ?s) = Inr n" "dict_get (results ?s) n = Inr sc"
      "pick_best ?s = Done () (?s\<lparr>best_model_name := Some n,
                               stdout := stdout ?s @ [Best_Line n (RMSE sc)]\<rparr>)"
    using pick_best_total [of ?s] by blast
  have "select_best ?tbl = Inr n \<and> dict_get ?tbl n = Inr sc \<and>
     cell_10 mv rv ms rs st =
       Done () (st\<lparr>results := ?tbl, best_model_name := Some n,
                   stdout := stdout st @ report ?tbl @ [Best_Line n (RMSE sc)]\<rparr>)"
    using pb by (simp add: cell_10_def Let_def)
  then show ?thesis by blast
qed

section \<open>The run up to the end of the search\<close>

lemma after_search_results_inv:
  fixes lib :: "('m, 'w) library"
  assumes "\<And>yt yp mae rmse bp. evaluate yt yp = Inr (mae, rmse) \<Longrightarrow>
             P \<lparr>Best_Params = bp, MAE = mae, RMSE = rmse\<rparr>"
  shows "\<forall>e \<in> set (results (final (after_search lib w0 X y))). P (snd e)"
proof -
  obtain r w where sp: "train_test_split lib X y (1 / 5) 42 w0 = (r, w)"
    by (cases "train_test_split lib X y (1 / 5) 42 w0")
  show ?thesis
  proof (cases r)
    case (Inl e)
    then show ?thesis using sp by (simp add: after_search_def cell_5_def)
  next
    case (Inr d)
    have "\<forall>e \<in> set (results (cell_5 w :: ('m, 'w) kernel)). P (snd e)" by (simp add: cell_5_def)
    from cell_6_results_inv [of P "cell_5 w" lib d, OF assms this]
    have "\<forall>e \<in> set (results (final (cell_6 lib d (cell_5 w)))). P (snd e)" .
    moreover have "final (after_search lib w0 X y) = final (cell_6 lib d (cell_5 w))"
      using sp Inr by (cases "cell_6 lib d (cell_5 w)") (simp_all add: after_search_def)
    ultimately show ?thesis by simp
  qed
qed

lemma notebook_results_inv:
  fixes lib :: "('m, 'w) library"
  assumes "\<And>yt yp mae rmse bp. evaluate yt yp = Inr (mae, rmse) \<Longrightarrow>
             P \<lparr>Best_Params = bp, MAE = mae, RMSE = rmse\<rparr>"
  shows "\<forall>e \<in> set (results (final (notebook lib w0 X y))). P (snd e)"
proof (cases "after_search lib w0 X y")
  case (Raised e s)
  then show ?thesis
    using after_search_results_inv [of P lib w0 X y, OF assms] by (simp add: notebook_def)
next
  case (Done d s6)
  have P6: "\<forall>e \<in> set (results s6). P (snd e)"
    using Done after_search_results_inv [of P lib w0 X y, OF assms] by simp
  show ?thesis
  proof (cases "ensembles lib d s6")
    case (Raised e s)
    have "grows s6 s" using Raised ensembles_grows [of s6 lib d] by simp
    then have "results s = results s6" by (simp add: grows_def)
    then show ?thesis using Done Raised P6 by (simp add: notebook_def)
  next
    case ens: (Done vs s9)
    obtain vr ypv mv rv sr yps ms rs where
      vs: "vs = ((vr, ypv, mv, rv), (sr, yps, ms, rs))"
      by (cases vs) auto
    have "grows s6 s9" using ens ensembles_grows [of s6 lib d] by simp
    then have r9: "results s9 = results s6" by (simp add: grows_def)
    from ensembles_Done_scores [OF ens [unfolded vs]]
    have ev: "evaluate (y_test d) ypv = Inr (mv, rv)" "evaluate (y_test d) yps = Inr (ms, rs)"
      by simp_all
    let ?v = "\<lparr>Best_Params = Str ''N/A'', MAE = mv, RMSE = rv\<rparr>"
    let ?s = "\<lparr>Best_Params = Str ''N/A'', MAE = ms, RMSE = rs\<rparr>"
    have fin: "final (notebook lib w0 X y) = final (cell_10 mv rv ms rs s9)"
      using Done ens vs by (simp add: notebook_def)
    have "set (dict_set (dict_set (results s9) ''Voting Regressor'' ?v) ''Stacking Regressor'' ?s)
        \<subseteq> insert (''Stacking Regressor'', ?s) (insert (''Voting Regressor'', ?v) (set (results s9)))"
      using set_dict_set [of "dict_set (results s9) ''Voting Regressor'' ?v" "''Stacking Regressor''" ?s]
        set_dict_set [of "results s9" "''Voting Regressor''" ?v]
      by blast
    moreover have "P ?v" "P ?s" using assms [OF ev(1)] assms [OF ev(2)] by simp_all
    ultimately have "\<forall>e \<in> set (dict_set (dict_set (results s9) ''Voting Regressor'' ?v)
        ''Stacking Regressor'' ?s). P (snd e)"
      using P6 r9 by auto
    then show ?thesis using fin cell_10_keeps [of mv rv ms rs s9] by simp
  qed
qed

section \<open>The notebook run by hand on the small table\<close>

lemma toy_fields:
  "train_test_split (toy_library k b) = (\<lambda>X y test_size random_state w. (Inr (toy_split X y), w))"
  "GridSearchCV_fit (toy_library k b) = (\<lambda>est grid folds scoring n_jobs X y w.
         (Inr (fst (toy_search est) + real (k * w), snd (toy_search est)), Suc w))"
  "clone (toy_library k b) = (\<lambda>m. m)"
  "fit (toy_library k b) = (\<lambda>m X y w. (Inr m, Suc w))"
  "predict (toy_library k b) = (\<lambda>m X. Inr (map (\<lambda>row. m) X))"
  "fit_final_estimator (toy_library k b) = (\<lambda>est folds ms X y w.
         if b then (Inl LibraryError, Suc w) else (Inr 2, Suc w))"
  by (simp_all add: toy_library_def)

lemma toy_d_fields:
  "X_train toy_d = [ [2], [3] ]" "X_test toy_d = [ [0], [1] ]"
  "y_train toy_d = [2, 2]" "y_test toy_d = [1, 3]"
  by (simp_all add: toy_d_def)

lemma toy_split_eq: "toy_split toy_X toy_y = toy_d"
  by (simp add: toy_split_def toy_X_def toy_y_def toy_d_def)

lemma evaluate_pair:
  "evaluate [t1, t2] [p1, p2] =
     Inr ((\<bar>p1 - t1\<bar> + \<bar>p2 - t2\<bar>) / 2, sqrt (((p1 - t1)\<^sup>2 + (p2 - t2)\<^sup>2) / 2))"
  by (simp add: evaluate_def mean_absolute_error_def mean_squared_error_def mean_def)

lemma toy_search_loop:
  "search_loop (toy_library 0 b) toy_d models (cell_5 0) =
     Done () \<lparr>world = 3, heap = [3, 5, 1],
      best_models = [(''Decision Tree'', 0), (''Random Forest'', 1), (''XGBRegressor'', 2)],
      results = toy_table, best_model_name = None,
      stdout = [Running ''Decision Tree'', Running ''Random Forest'', Running ''XGBRegressor'']\<rparr>"
  by (simp add: models_def search_loop.simps cell_5_def param_grids_def dict_get_def Let_def
      toy_fields toy_d_fields evaluate_pair toy_table_def numeral_3_eq_3 numeral_2_eq_2)

lemma toy_select_interim: "select_best toy_table = Inr ''Decision Tree''"
  by (simp add: select_best_def py_min_def rmse_key_def dict_get_def toy_table_def)

lemma toy_after_search:
  "after_search (toy_library 0 b) 0 toy_X toy_y = Done toy_d toy_searched"
  by (simp add: after_search_def toy_fields toy_split_eq cell_6_def toy_search_loop pick_best_def
      toy_select_interim Let_def toy_searched_def)
    (simp add: dict_get_def toy_table_def)


lemma toy_cell_7:
  "cell_7 toy_searched = Done ((0, 1, 2), toy_voting\<lparr>fitted_estimators := []\<rparr>) toy_searched"
  by (simp add: cell_7_def dict_get_def toy_searched_def toy_voting_def)

lemma toy_fit_clones_voting:
  "fit_clones (toy_library k b) [0, Suc 0, 2] X y toy_searched =
     Done [3, 4, 5] (toy_searched\<lparr>world := 6, heap := [3, 5, 1, 3, 5, 1]\<rparr>)"
  by (simp add: fit_clones.simps Let_def toy_fields toy_searched_def)

lemma toy_cell_8:
  "cell_8 (toy_library k b) toy_d (toy_voting\<lparr>fitted_estimators := []\<rparr>) toy_searched =
     Done (toy_voting, [3, 3], 1, sqrt 2) toy_voted"
  by (simp add: cell_8_def VotingRegressor_fit_def VotingRegressor_predict_def toy_voting_def
      toy_fit_clones_voting toy_fields toy_d_fields average_def evaluate_pair toy_voted_def)

lemma toy_fit_clones_stacking:
  "fit_clones (toy_library k b) [0, Suc 0, 2] X y toy_voted =
     Done [6, 7, 8] (toy_voted\<lparr>world := 9, heap := [3, 5, 1, 3, 5, 1, 3, 5, 1]\<rparr>)"
  by (simp add: fit_clones.simps Let_def toy_fields toy_voted_def toy_searched_def)

lemma toy_cell_9:
  "cell_9 (toy_library k False) toy_d (0, Suc 0, 2) toy_voted =
     Done (toy_stacking, [2, 2], 1, 1) toy_ensembled"
  by (simp add: cell_9_def StackingRegressor_fit_def StackingRegressor_predict_def Let_def
      toy_fit_clones_stacking toy_fields toy_d_fields columns_def evaluate_pair
      toy_stacking_def toy_ensembled_def)

lemma toy_cell_9_broken:
  "cell_9 (toy_library k True) toy_d (0, Suc 0, 2) toy_voted =
     Raised LibraryError (toy_voted\<lparr>world := 10, heap := [3, 5, 1, 3, 5, 1, 3, 5, 1]\<rparr>)"
  by (simp add: cell_9_def StackingRegressor_fit_def Let_def toy_fit_clones_stacking toy_fields)

lemma toy_ensembles:
  "ensembles (toy_library k False) toy_d toy_searched =
     Done ((toy_voting, [3, 3], 1, sqrt 2), (toy_stacking, [2, 2], 1, 1)) toy_ensembled"
  by (simp add: ensembles_def toy_cell_7 toy_cell_8 toy_cell_9)

lemma toy_ensembles_broken:
  "ensembles (toy_library k True) toy_d toy_searched =
     Raised LibraryError (toy_voted\<lparr>world := 10, heap := [3, 5, 1, 3, 5, 1, 3, 5, 1]\<rparr>)"
  by (simp add: ensembles_def toy_cell_7 toy_cell_8 toy_cell_9_broken)

lemma toy_select_final: "select_best toy_final_table = Inr ''Stacking Regressor''"
  by (simp add: select_best_def py_min_def rmse_key_def dict_get_def toy_final_table_def
      toy_table_def)

lemma toy_cell_10: "cell_10 1 (sqrt 2) 1 1 toy_ensembled = Done () toy_finished"
proof -
  have t: "dict_set (dict_set (results toy_ensembled) ''Voting Regressor''
              \<lparr>Best_Params = Str ''N/A'', MAE = 1, RMSE = sqrt 2\<rparr>)
            ''Stacking Regressor'' \<lparr>Best_Params = Str ''N/A'', MAE = 1, RMSE = 1\<rparr> =
           toy_final_table"
    by (simp add: toy_ensembled_def toy_voted_def toy_searched_def toy_final_table_def
        toy_table_def)
  have g: "dict_get toy_final_table ''Stacking Regressor'' =
      Inr \<lparr>Best_Params = Str ''N/A'', MAE = 1, RMSE = 1\<rparr>"
    by (simp add: dict_get_def toy_final_table_def toy_table_def)
  show ?thesis
    by (simp add: cell_10_def Let_def t pick_best_def toy_select_final g toy_finished_def)
qed

lemma toy_notebook: "notebook (toy_library 0 False) 0 toy_X toy_y = Done () toy_finished"
  by (simp add: notebook_def toy_after_search toy_ensembles toy_cell_10)

lemma toy_notebook_broken:
  "notebook (toy_library 0 True) 0 toy_X toy_y =
     Raised LibraryError (toy_voted\<lparr>world := 10, heap := [3, 5, 1, 3, 5, 1, 3, 5, 1]\<rparr>)"
  by (simp add: notebook_def toy_after_search toy_ensembles_broken)

section \<open>Every recorded score\<close>

text \<open>
  C9. Every entry recorded in the results table has a non-negative RMSE and a
  non-negative MAE.
\<close>

theorem recorded_scores_nonneg:
  fixes lib :: "('m, 'w) library"
  assumes "(name, s) \<in> set (results (final (notebook lib w0 X y)))"
  shows "0 \<le> RMSE s \<and> 0 \<le> MAE s"
proof -
  have "\<forall>e \<in> set (results (final (notebook lib w0 X y))).
      0 \<le> RMSE (snd e) \<and> 0 \<le> MAE (snd e)"
    by (rule notebook_results_inv) (simp add: evaluate_nonneg)
  then show ?thesis using assms by auto
qed

theorem recorded_scores_nonneg_witness:
  "(''Stacking Regressor'', \<lparr>Best_Params = Str ''N/A'', MAE = 1, RMSE = 1\<rparr>)
     \<in> set (results (final (notebook (toy_library 0 False) 0 toy_X toy_y))) \<and>
   (0 :: real) \<le> 1 \<and> (0 :: real) \<le> 1"
proof -
  have m: "(''Stacking Regressor'', \<lparr>Best_Params = Str ''N/A'', MAE = 1, RMSE = 1\<rparr>)
     \<in> set (results (final (notebook (toy_library 0 False) 0 toy_X toy_y)))"
    by (simp add: toy_notebook toy_finished_def toy_final_table_def toy_table_def)
  from recorded_scores_nonneg [OF m] m show ?thesis by simp
qed

section \<open>The shape of the table\<close>

lemma after_search_cases:
  fixes lib :: "('m, 'w) library"
  obtains (fails) e s k where
      "after_search lib w0 X y = Raised e s" "best_model_name s = None"
      "stdout s = map Running (take k (map fst models))"
  | (completes) d w s s1 s2 s3 a1 a2 a3 n sc where
      "train_test_split lib X y (1 / 5) 42 w0 = (Inr d, w)"
      "after_search lib w0 X y = Done d s"
      "cell_6 lib d (cell_5 w) = Done () s"
      "results s = [(''Decision Tree'', s1), (''Random Forest'', s2), (''XGBRegressor'', s3)]"
      "\<exists>bp. Best_Params s1 = Dict bp" "\<exists>bp. Best_Params s2 = Dict bp"
      "\<exists>bp. Best_Params s3 = Dict bp"
      "best_models s = [(''Decision Tree'', a1), (''Random Forest'', a2), (''XGBRegressor'', a3)]"
      "select_best (results s) = Inr n" "dict_get (results s) n = Inr sc"
      "best_model_name s = Some n"
      "stdout s = map Running (map fst models) @ report (results s) @ [Best_Line n (RMSE sc)]"
proof -
  note stops = fails and goes_on = completes
  obtain r w where sp: "train_test_split lib X y (1 / 5) 42 w0 = (r, w)"
    by (cases "train_test_split lib X y (1 / 5) 42 w0")
  show ?thesis
  proof (cases r)
    case (Inl e)
    show ?thesis
      by (rule stops [of e "cell_5 w" 0]) (simp_all add: after_search_def sp Inl cell_5_def)
  next
    case (Inr d)
    have e1: "results (cell_5 w :: ('m, 'w) kernel) = []"
      and e2: "best_models (cell_5 w :: ('m, 'w) kernel) = []"
      by (simp_all add: cell_5_def)
    from e1 e2 show ?thesis
    proof (cases rule: cell_6_cases [where lib = lib and d = d and st = "cell_5 w"])
      case (fails e s)
      from search_loop_stdout [where ms = models and st = "cell_5 w" and lib = lib and d = d] fails(2)
      obtain k where "stdout s = stdout (cell_5 w :: ('m, 'w) kernel) @ map Running (take k (map fst models))"
        by auto
      then have o: "stdout s = map Running (take k (map fst models))" by (simp add: cell_5_def)
      have b: "best_model_name s = None"
        using search_loop_best_model_name [where ms = models and st = "cell_5 w" and lib = lib and d = d] fails(2)
        by (simp add: cell_5_def)
      show ?thesis
        by (rule stops [of e s k])
          (simp_all add: after_search_def sp Inr fails(1) o b)
    next
      case (completes s s1 s2 s3 a1 a2 a3 n sc)
      show ?thesis
      proof (rule goes_on [of d w s s1 s2 s3 a1 a2 a3 n sc])
        show "train_test_split lib X y (1 / 5) 42 w0 = (Inr d, w)" using sp Inr by simp
        show "after_search lib w0 X y = Done d s"
          using sp Inr completes(1) by (simp add: after_search_def)
        show "stdout s = map Running (map fst models) @ report (results s) @ [Best_Line n (RMSE sc)]"
          using completes(10) by (simp add: cell_5_def)
      qed (use completes in simp_all)
    qed
  qed
qed

section \<open>What a completed search has done\<close>

text \<open>
  A search that completes has made, in this order and each from the world the previous
  call left, one search per candidate on the training split with that candidate's grid;
  it has stored the three best estimators at the first three addresses of the heap and
  recorded for each the parameters the search returned and the scores of its prediction
  on the test split.
\<close>

lemma search_loop_Cons_Done:
  fixes lib :: "('m, 'w) library" and st :: "('m, 'w) kernel"
  assumes "search_loop lib d ((name, model) # ms) st = Done u s"
  obtains grid m bp w y_pred mae rmse where
      "dict_get param_grids name = Inr grid"
      "GridSearchCV_fit lib model grid 5 ''neg_mean_squared_error'' (- 1)
         (X_train d) (y_train d) (world st) = (Inr (m, bp), w)"
      "predict lib m (X_test d) = Inr y_pred"
      "evaluate (y_test d) y_pred = Inr (mae, rmse)"
      "search_loop lib d ms
         \<lparr>world = w, heap = heap st @ [m],
          best_models = dict_set (best_models st) name (length (heap st)),
          results = dict_set (results st) name \<lparr>Best_Params = Dict bp, MAE = mae, RMSE = rmse\<rparr>,
          best_model_name = best_model_name st,
          stdout = stdout st @ [Running name]\<rparr> = Done u s"
proof (cases rule: search_loop_step [where lib = lib and d = d and name = name and model = model
      and ms = ms and st = st])
  case (stop e s')
  then show ?thesis using assms by simp
next
  case (continue grid m bp w y_pred mae rmse)
  show ?thesis
    by (rule that [of grid m bp w y_pred mae rmse]) (use continue assms in simp_all)
qed

lemma after_search_Done:
  fixes lib :: "('m, 'w) library"
  assumes "after_search lib w0 X y = Done d s6"
  obtains w g1 g2 g3 m1 bp1 w1 p1 mae1 rmse1 m2 bp2 w2 p2 mae2 rmse2 m3 bp3 w3 p3 mae3 rmse3 where
    "train_test_split lib X y (1 / 5) 42 w0 = (Inr d, w)"
    "dict_get param_grids ''Decision Tree'' = Inr g1"
    "dict_get param_grids ''Random Forest'' = Inr g2"
    "dict_get param_grids ''XGBRegressor'' = Inr g3"
    "GridSearchCV_fit lib DecisionTreeRegressor g1 5 ''neg_mean_squared_error'' (- 1)
       (X_train d) (y_train d) w = (Inr (m1, bp1), w1)"
    "predict lib m1 (X_test d) = Inr p1" "evaluate (y_test d) p1 = Inr (mae1, rmse1)"
    "GridSearchCV_fit lib RandomForestRegressor g2 5 ''neg_mean_squared_error'' (- 1)
       (X_train d) (y_train d) w1 = (Inr (m2, bp2), w2)"
    "predict lib m2 (X_test d) = Inr p2" "evaluate (y_test d) p2 = Inr (mae2, rmse2)"
    "GridSearchCV_fit lib XGBRegressor g3 5 ''neg_mean_squared_error'' (- 1)
       (X_train d) (y_train d) w2 = (Inr (m3, bp3), w3)"
    "predict lib m3 (X_test d) = Inr p3" "evaluate (y_test d) p3 = Inr (mae3, rmse3)"
    "world s6 = w3" "heap s6 = [m1, m2, m3]"
    "best_models s6 = [(''Decision Tree'', 0), (''Random Forest'', 1), (''XGBRegressor'', 2)]"
    "results s6 =
       [(''Decision Tree'', \<lparr>Best_Params = Dict bp1, MAE = mae1, RMSE = rmse1\<rparr>),
        (''Random Forest'', \<lparr>Best_Params = Dict bp2, MAE = mae2, RMSE = rmse2\<rparr>),
        (''XGBRegressor'', \<lparr>Best_Params = Dict bp3, MAE = mae3, RMSE = rmse3\<rparr>)]"
proof -
  obtain r w where sp: "train_test_split lib X y (1 / 5) 42 w0 = (r, w)"
    by (cases "train_test_split lib X y (1 / 5) 42 w0")
  from assms sp have r: "r = Inr d"
    by (cases r; cases "cell_6 lib d (cell_5 w)")
      (auto simp: after_search_def split: outcome.splits)
  from assms sp r have c6: "cell_6 lib d (cell_5 w) = Done () s6"
    by (cases "cell_6 lib d (cell_5 w)") (simp_all add: after_search_def)
  then obtain s0 where sl: "search_loop lib d models (cell_5 w) = Done () s0"
    and pb: "pick_best (s0\<lparr>stdout := stdout s0 @ report (results s0)\<rparr>) = Done () s6"
    by (cases "search_loop lib d models (cell_5 w)") (simp_all add: cell_6_def)
  have keep: "results s6 = results s0" "heap s6 = heap s0" "best_models s6 = best_models s0"
    "world s6 = world s0"
    using pick_best_keeps [of "s0\<lparr>stdout := stdout s0 @ report (results s0)\<rparr>"] pb by simp_all
  from sl [unfolded models_def] obtain g1 m1 bp1 w1 p1 mae1 rmse1 where
    a: "dict_get param_grids ''Decision Tree'' = Inr g1"
      "GridSearchCV_fit lib DecisionTreeRegressor g1 5 ''neg_mean_squared_error'' (- 1)
         (X_train d) (y_train d) (world (cell_5 w :: ('m, 'w) kernel)) = (Inr (m1, bp1), w1)"
      "predict lib m1 (X_test d) = Inr p1" "evaluate (y_test d) p1 = Inr (mae1, rmse1)"
      and sl1: "search_loop lib d
         [(''Random Forest'', RandomForestRegressor), (''XGBRegressor'', XGBRegressor)]
         \<lparr>world = w1, heap = heap (cell_5 w :: ('m, 'w) kernel) @ [m1],
          best_models = dict_set (best_models (cell_5 w :: ('m, 'w) kernel)) ''Decision Tree''
             (length (heap (cell_5 w :: ('m, 'w) kernel))),
          results = dict_set (results (cell_5 w :: ('m, 'w) kernel)) ''Decision Tree''
             \<lparr>Best_Params = Dict bp1, MAE = mae1, RMSE = rmse1\<rparr>,
          best_model_name = best_model_name (cell_5 w :: ('m, 'w) kernel),
          stdout = stdout (cell_5 w :: ('m, 'w) kernel) @ [Running ''Decision Tree'']\<rparr> = Done () s0"
    by (rule search_loop_Cons_Done)
  from sl1 obtain g2 m2 bp2 w2 p2 mae2 rmse2 where
    b: "dict_get param_grids ''Random Forest'' = Inr g2"
      "GridSearchCV_fit lib RandomForestRegressor g2 5 ''neg_mean_squared_error'' (- 1)
         (X_train d) (y_train d) w1 = (Inr (m2, bp2), w2)"
      "predict lib m2 (X_test d) = Inr p2" "evaluate (y_test d) p2 = Inr (mae2, rmse2)"
      and sl2: "search_loop lib d [(''XGBRegressor'', XGBRegressor)]
         \<lparr>world = w2, heap = [m1, m2],
          best_models = [(''Decision Tree'', 0), (''Random Forest'', 1)],
          results = [(''Decision Tree'', \<lparr>Best_Params = Dict bp1, MAE = mae1, RMSE = rmse1\<rparr>),
                     (''Random Forest'', \<lparr>Best_Params = Dict bp2, MAE = mae2, RMSE = rmse2\<rparr>)],
          best_model_name = None,
          stdout = [Running ''Decision Tree'', Running ''Random Forest'']\<rparr> = Done () s0"
    by (rule search_loop_Cons_Done) (simp add: cell_5_def)
  from sl2 obtain g3 m3 bp3 w3 p3 mae3 rmse3 where
    c: "dict_get param_grids ''XGBRegressor'' = Inr g3"
      "GridSearchCV_fit lib XGBRegressor g3 5 ''neg_mean_squared_error'' (- 1)
         (X_train d) (y_train d) w2 = (Inr (m3, bp3), w3)"
      "predict lib m3 (X_test d) = Inr p3" "evaluate (y_test d) p3 = Inr (mae3, rmse3)"
      and sl3: "search_loop lib d []
         \<lparr>world = w3, heap = [m1, m2, m3],
          best_models = [(''Decision Tree'', 0), (''Random Forest'', 1), (''XGBRegressor'', 2)],
          results = [(''Decision Tree'', \<lparr>Best_Params = Dict bp1, MAE = mae1, RMSE = rmse1\<rparr>),
                     (''Random Forest'', \<lparr>Best_Params = Dict bp2, MAE = mae2, RMSE = rmse2\<rparr>),
                     (''XGBRegressor'', \<lparr>Best_Params = Dict bp3, MAE = mae3, RMSE = rmse3\<rparr>)],
          best_model_name = None,
          stdout = [Running ''Decision Tree'', Running ''Random Forest'',
                    Running ''XGBRegressor'']\<rparr> = Done () s0"
    by (rule search_loop_Cons_Done) (simp add: numeral_2_eq_2)
  from sl3 have s0: "s0 = \<lparr>world = w3, heap = [m1, m2, m3],
          best_models = [(''Decision Tree'', 0), (''Random Forest'', 1), (''XGBRegressor'', 2)],
          results = [(''Decision Tree'', \<lparr>Best_Params = Dict bp1, MAE = mae1, RMSE = rmse1\<rparr>),
                     (''Random Forest'', \<lparr>Best_Params = Dict bp2, MAE = mae2, RMSE = rmse2\<rparr>),
                     (''XGBRegressor'', \<lparr>Best_Params = Dict bp3, MAE = mae3, RMSE = rmse3\<rparr>)],
          best_model_name = None,
          stdout = [Running ''Decision Tree'', Running ''Random Forest'',
                    Running ''XGBRegressor'']\<rparr>"
    by simp
  show ?thesis
  proof (rule that [of w g1 g2 g3 m1 bp1 w1 p1 mae1 rmse1 m2 bp2 w2 p2 mae2 rmse2 m3 bp3 w3 p3 mae3 rmse3])
    show "train_test_split lib X y (1 / 5) 42 w0 = (Inr d, w)" using sp r by simp
    show "GridSearchCV_fit lib DecisionTreeRegressor g1 5 ''neg_mean_squared_error'' (- 1)
       (X_train d) (y_train d) w = (Inr (m1, bp1), w1)"
      using a(2) by (simp add: cell_5_def)
  qed (use a b c keep s0 in simp_all)
qed

lemma after_search_cell_7:
  fixes lib :: "('m, 'w) library"
  assumes "after_search lib w0 X y = Done d s6"
  shows "cell_7 s6 = Done ((0, 1, 2),
      \<lparr>estimators = [(''dt'', 0), (''rf'', 1), (''xgb'', 2)], fitted_estimators = []\<rparr>) s6"
proof (cases rule: after_search_Done [OF assms])
  case (1 w g1 g2 g3 m1 bp1 w1 p1 mae1 rmse1 m2 bp2 w2 p2 mae2 rmse2 m3 bp3 w3 p3 mae3 rmse3)
  show ?thesis by (rule cell_7_Done [OF 1(16)])
qed

section \<open>What a completed voting cell has done\<close>


section \<open>A run that completes\<close>

lemma notebook_Done:
  fixes lib :: "('m, 'w) library"
  assumes "notebook lib w0 X y = Done u s"
  obtains d s6 s9 vr ypv mv rv sr yps ms rs s1 s2 s3 a1 a2 a3 n6 n sc where
    "after_search lib w0 X y = Done d s6"
    "results s6 = [(''Decision Tree'', s1), (''Random Forest'', s2), (''XGBRegressor'', s3)]"
    "\<exists>bp. Best_Params s1 = Dict bp" "\<exists>bp. Best_Params s2 = Dict bp"
    "\<exists>bp. Best_Params s3 = Dict bp"
    "best_models s6 = [(''Decision Tree'', a1), (''Random Forest'', a2), (''XGBRegressor'', a3)]"
    "select_best (results s6) = Inr n6" "best_model_name s6 = Some n6"
    "ensembles lib d s6 = Done ((vr, ypv, mv, rv), (sr, yps, ms, rs)) s9"
    "results s = results s6 @
       [(''Voting Regressor'', \<lparr>Best_Params = Str ''N/A'', MAE = mv, RMSE = rv\<rparr>),
        (''Stacking Regressor'', \<lparr>Best_Params = Str ''N/A'', MAE = ms, RMSE = rs\<rparr>)]"
    "select_best (results s) = Inr n" "dict_get (results s) n = Inr sc"
    "best_model_name s = Some n"
    "stdout s = stdout s9 @ report (results s) @ [Best_Line n (RMSE sc)]"
proof (cases rule: after_search_cases [where lib = lib and ?w0.0 = w0 and X = X and y = y])
  case (fails e s' k)
  then show ?thesis using assms by (simp add: notebook_def)
next
  case (completes d w s6 s1 s2 s3 a1 a2 a3 n6 sc6)
  show ?thesis
  proof (cases "ensembles lib d s6")
    case (Raised e s')
    then show ?thesis using assms completes(2) by (simp add: notebook_def)
  next
    case (Done vs s9)
    obtain vr ypv mv rv sr yps ms rs where
      vs: "vs = ((vr, ypv, mv, rv), (sr, yps, ms, rs))"
      by (cases vs) auto
    have "grows s6 s9" using Done ensembles_grows [of s6 lib d] by simp
    then have r9: "results s9 = results s6" by (simp add: grows_def)
    let ?v = "\<lparr>Best_Params = Str ''N/A'', MAE = mv, RMSE = rv\<rparr>"
    let ?s = "\<lparr>Best_Params = Str ''N/A'', MAE = ms, RMSE = rs\<rparr>"
    let ?tbl = "dict_set (dict_set (results s9) ''Voting Regressor'' ?v) ''Stacking Regressor'' ?s"
    have tbl: "?tbl = results s6 @ [(''Voting Regressor'', ?v), (''Stacking Regressor'', ?s)]"
      unfolding r9 completes(4) by simp
    have "distinct (map fst (results s9))" unfolding r9 completes(4) by simp
    from cell_10_total [OF this, of mv rv ms rs] obtain n sc where
      c10: "select_best ?tbl = Inr n" "dict_get ?tbl n = Inr sc"
        "cell_10 mv rv ms rs s9 =
           Done () (s9\<lparr>results := ?tbl, best_model_name := Some n,
                       stdout := stdout s9 @ report ?tbl @ [Best_Line n (RMSE sc)]\<rparr>)"
      by blast
    have s: "s = s9\<lparr>results := ?tbl, best_model_name := Some n,
                       stdout := stdout s9 @ report ?tbl @ [Best_Line n (RMSE sc)]\<rparr>"
      using assms completes(2) Done vs c10(3) by (simp add: notebook_def)
    show ?thesis
    proof (rule that [of d s6 s1 s2 s3 a1 a2 a3 n6 vr ypv mv rv sr yps ms rs s9 n sc])
      show "after_search lib w0 X y = Done d s6" by (rule completes(2))
      show "results s6 = [(''Decision Tree'', s1), (''Random Forest'', s2), (''XGBRegressor'', s3)]"
        by (rule completes(4))
      show "\<exists>bp. Best_Params s1 = Dict bp" "\<exists>bp. Best_Params s2 = Dict bp"
        "\<exists>bp. Best_Params s3 = Dict bp"
        by (rule completes)+
      show "best_models s6 = [(''Decision Tree'', a1), (''Random Forest'', a2), (''XGBRegressor'', a3)]"
        by (rule completes(8))
      show "select_best (results s6) = Inr n6" by (rule completes(9))
      show "best_model_name s6 = Some n6" by (rule completes(11))
      show "ensembles lib d s6 = Done ((vr, ypv, mv, rv), (sr, yps, ms, rs)) s9"
        using Done vs by simp
      show "results s = results s6 @ [(''Voting Regressor'', ?v), (''Stacking Regressor'', ?s)]"
        unfolding s using tbl by simp
      show "select_best (results s) = Inr n" unfolding s using c10(1) by simp
      show "dict_get (results s) n = Inr sc" unfolding s using c10(2) by simp
      show "best_model_name s = Some n" unfolding s by simp
      show "stdout s = stdout s9 @ report (results s) @ [Best_Line n (RMSE sc)]"
        unfolding s by simp
    qed
  qed
qed

section \<open>What an entry of the table holds\<close>




section \<open>How the table grows and when it is read\<close>

lemma notebook_table_prefix:
  fixes lib :: "('m, 'w) library"
  assumes "after_search lib w0 X y = Done d s6"
  shows "take 3 (results (final (notebook lib w0 X y))) = results s6"
proof (cases rule: after_search_cases [where lib = lib and ?w0.0 = w0 and X = X and y = y])
  case (fails e s k)
  then show ?thesis using assms by simp
next
  case (completes d' w s s1 s2 s3 a1 a2 a3 n sc)
  then have d: "d' = d" and s: "s = s6" using assms by simp_all
  have r6: "results s6 = [(''Decision Tree'', s1), (''Random Forest'', s2), (''XGBRegressor'', s3)]"
    using completes(4) s by simp
  show ?thesis
  proof (cases "ensembles lib d s6")
    case (Raised e s')
    have "grows s6 s'" using Raised ensembles_grows [of s6 lib d] by simp
    then have "results s' = results s6" by (simp add: grows_def)
    then show ?thesis using assms Raised r6 by (simp add: notebook_def)
  next
    case (Done vs s9)
    obtain vr ypv mv rv sr yps ms rs where
      vs: "vs = ((vr, ypv, mv, rv), (sr, yps, ms, rs))"
      by (cases vs) auto
    have "grows s6 s9" using Done ensembles_grows [of s6 lib d] by simp
    then have r9: "results s9 = results s6" by (simp add: grows_def)
    have "final (notebook lib w0 X y) = final (cell_10 mv rv ms rs s9)"
      using assms Done vs by (simp add: notebook_def)
    then show ?thesis using cell_10_keeps [of mv rv ms rs s9] r9 r6 by simp
  qed
qed

lemma search_loop_appends:
  fixes lib :: "('m, 'w) library" and st :: "('m, 'w) kernel"
  assumes "distinct (map fst ms)"
    and "fst ` set ms \<inter> fst ` set (results st) = {}"
  shows "\<exists>new k. results (final (search_loop lib d ms st)) = results st @ new \<and>
     k \<le> length ms \<and> map fst new = take k (map fst ms)"
  using assms
proof (induction ms arbitrary: st)
  case Nil
  then show ?case by simp
next
  case (Cons nm ms)
  obtain name model where nm: "nm = (name, model)" by (cases nm)
  have fresh: "name \<notin> fst ` set (results st)" using Cons.prems(2) nm by auto
  show ?case
  proof (cases rule: search_loop_step [where lib = lib and d = d and name = name and model = model and ms = ms and st = st])
    case (stop e s)
    then have "results (final (search_loop lib d (nm # ms) st)) = results st @ [] \<and>
        0 \<le> length (nm # ms) \<and> map fst ([] :: (string \<times> score) list) = take 0 (map fst (nm # ms))"
      by (simp add: nm)
    then show ?thesis by blast
  next
    case (continue grid m bp w y_pred mae rmse)
    let ?sc = "\<lparr>Best_Params = Dict bp, MAE = mae, RMSE = rmse\<rparr>"
    let ?s = "\<lparr>world = w, heap = heap st @ [m],
          best_models = dict_set (best_models st) name (length (heap st)),
          results = dict_set (results st) name ?sc,
          best_model_name = best_model_name st,
          stdout = stdout st @ [Running name]\<rparr>"
    have r: "results ?s = results st @ [(name, ?sc)]"
      using dict_set_fresh [OF fresh] by simp
    have d': "distinct (map fst ms)" using Cons.prems(1) by simp
    have nin: "name \<notin> fst ` set ms" using Cons.prems(1) nm by (auto simp: image_iff)
    have i1: "fst ` set ms \<inter> fst ` set (results ?s) = {}"
      using Cons.prems(2) nin unfolding r by auto
    from Cons.IH [OF d' i1] obtain new k where
      IH: "results (final (search_loop lib d ms ?s)) = results ?s @ new"
        "k \<le> length ms" "map fst new = take k (map fst ms)"
      by blast
    have "results (final (search_loop lib d (nm # ms) st)) = results st @ ((name, ?sc) # new) \<and>
        Suc k \<le> length (nm # ms) \<and>
        map fst ((name, ?sc) # new) = take (Suc k) (map fst (nm # ms))"
      using IH r continue(5) by (simp add: nm)
    then show ?thesis by blast
  qed
qed

lemma after_search_keys:
  fixes lib :: "('m, 'w) library"
  shows "\<exists>k \<le> 3. map fst (results (final (after_search lib w0 X y))) =
     take k [''Decision Tree'', ''Random Forest'', ''XGBRegressor'']"
proof -
  obtain r w where sp: "train_test_split lib X y (1 / 5) 42 w0 = (r, w)"
    by (cases "train_test_split lib X y (1 / 5) 42 w0")
  show ?thesis
  proof (cases r)
    case (Inl e)
    then have "(0 :: nat) \<le> 3 \<and> map fst (results (final (after_search lib w0 X y))) =
        take 0 [''Decision Tree'', ''Random Forest'', ''XGBRegressor'']"
      using sp by (simp add: after_search_def cell_5_def)
    then show ?thesis by blast
  next
    case (Inr d)
    have "distinct (map fst models)" by (simp add: models_def)
    moreover have "fst ` set models \<inter> fst ` set (results (cell_5 w :: ('m, 'w) kernel)) = {}"
      by (simp add: cell_5_def)
    ultimately obtain new k where
      sl: "results (final (search_loop lib d models (cell_5 w))) =
             results (cell_5 w :: ('m, 'w) kernel) @ new"
        "k \<le> length models" "map fst new = take k (map fst models)"
      using search_loop_appends [where lib = lib and d = d and ms = models and st = "cell_5 w"]
      by blast
    have c6: "results (final (cell_6 lib d (cell_5 w))) =
        results (final (search_loop lib d models (cell_5 w)))"
    proof (cases "search_loop lib d models (cell_5 w)")
      case (Raised e s)
      then show ?thesis by (simp add: cell_6_def)
    next
      case (Done u s)
      then show ?thesis
        using pick_best_keeps [of "s\<lparr>stdout := stdout s @ report (results s)\<rparr>"]
        by (simp add: cell_6_def)
    qed
    have "final (after_search lib w0 X y) = final (cell_6 lib d (cell_5 w))"
      using sp Inr by (cases "cell_6 lib d (cell_5 w)") (simp_all add: after_search_def)
    then have "k \<le> 3 \<and> map fst (results (final (after_search lib w0 X y))) =
        take k [''Decision Tree'', ''Random Forest'', ''XGBRegressor'']"
      using c6 sl by (simp add: cell_5_def models_def)
    then show ?thesis by blast
  qed
qed

lemma notebook_keys:
  fixes lib :: "('m, 'w) library"
  shows "\<exists>k. map fst (results (final (notebook lib w0 X y))) =
     take k [''Decision Tree'', ''Random Forest'', ''XGBRegressor'',
             ''Voting Regressor'', ''Stacking Regressor'']"
proof (cases "after_search lib w0 X y")
  case (Raised e s)
  from after_search_keys [of lib w0 X y] obtain k where k: "k \<le> 3"
    "map fst (results (final (after_search lib w0 X y))) =
       take k [''Decision Tree'', ''Random Forest'', ''XGBRegressor'']"
    by blast
  have "take k [''Decision Tree'', ''Random Forest'', ''XGBRegressor''] =
      take k ([''Decision Tree'', ''Random Forest'', ''XGBRegressor''] @
              [''Voting Regressor'', ''Stacking Regressor''])"
    using k(1) by (simp only: take_append) simp
  then have "map fst (results (final (notebook lib w0 X y))) =
     take k [''Decision Tree'', ''Random Forest'', ''XGBRegressor'',
             ''Voting Regressor'', ''Stacking Regressor'']"
    using Raised k(2) by (simp add: notebook_def)
  then show ?thesis by blast
next
  case (Done d s6)
  obtain s1 s2 s3 where
    r6: "results s6 = [(''Decision Tree'', s1), (''Random Forest'', s2), (''XGBRegressor'', s3)]"
  proof (cases rule: after_search_cases [where lib = lib and ?w0.0 = w0 and X = X and y = y])
    case (fails e s k)
    then show ?thesis using Done by simp
  next
    case (completes d' w s s1 s2 s3 a1 a2 a3 n sc)
    then show ?thesis using Done that [of s1 s2 s3] by simp
  qed
  show ?thesis
  proof (cases "ensembles lib d s6")
    case (Raised e s')
    have "grows s6 s'" using Raised ensembles_grows [of s6 lib d] by simp
    then have "results s' = results s6" by (simp add: grows_def)
    then have "map fst (results (final (notebook lib w0 X y))) =
       take 3 [''Decision Tree'', ''Random Forest'', ''XGBRegressor'',
             ''Voting Regressor'', ''Stacking Regressor'']"
      using Done Raised r6 by (simp add: notebook_def)
    then show ?thesis by blast
  next
    case ens: (Done vs s9)
    obtain vr ypv mv rv sr yps ms rs where
      vs: "vs = ((vr, ypv, mv, rv), (sr, yps, ms, rs))"
      by (cases vs) auto
    have "grows s6 s9" using ens ensembles_grows [of s6 lib d] by simp
    then have r9: "results s9 = results s6" by (simp add: grows_def)
    have "final (notebook lib w0 X y) = final (cell_10 mv rv ms rs s9)"
      using Done ens vs by (simp add: notebook_def)
    then have "map fst (results (final (notebook lib w0 X y))) =
       take 5 [''Decision Tree'', ''Random Forest'', ''XGBRegressor'',
             ''Voting Regressor'', ''Stacking Regressor'']"
      using cell_10_keeps [of mv rv ms rs s9] r9 r6 by simp
    then show ?thesis by blast
  qed
qed

text \<open>
  C6, as the notebook has it. The results table is created empty. In every run, completed
  or aborted, the keys of the table are the first few of the five names in the order in
  which the cells record them: one entry per candidate model, appended by the search
  cell, then one entry per ensemble, appended by the last cell; the entries the search
  left are still the first three at the end, so nothing is removed or overwritten. The
  table is read to pick the entry of least RMSE twice: once at the end of the search cell,
  when it holds the three candidates only, and once at the end of the run over all five
  entries.
\<close>

theorem results_append_only:
  fixes lib :: "('m, 'w) library"
  shows "results (cell_5 w :: ('m, 'w) kernel) = [] \<and>
     (\<exists>k. map fst (results (final (notebook lib w0 X y))) =
        take k [''Decision Tree'', ''Random Forest'', ''XGBRegressor'',
                ''Voting Regressor'', ''Stacking Regressor'']) \<and>
     (\<forall>d s6. after_search lib w0 X y = Done d s6 \<longrightarrow>
        (\<exists>e1 e2 e3 n6.
           results s6 = [(''Decision Tree'', e1), (''Random Forest'', e2), (''XGBRegressor'', e3)] \<and>
           select_best (results s6) = Inr n6 \<and> best_model_name s6 = Some n6 \<and>
           take 3 (results (final (notebook lib w0 X y))) = results s6)) \<and>
     (\<forall>u s. notebook lib w0 X y = Done u s \<longrightarrow>
        (\<exists>e4 e5 n.
           results s = take 3 (results s) @
             [(''Voting Regressor'', e4), (''Stacking Regressor'', e5)] \<and>
           select_best (results s) = Inr n \<and> best_model_name s = Some n))"
proof (intro conjI allI impI)
  show "results (cell_5 w :: ('m, 'w) kernel) = []" by (simp add: cell_5_def)
  show "\<exists>k. map fst (results (final (notebook lib w0 X y))) =
        take k [''Decision Tree'', ''Random Forest'', ''XGBRegressor'',
                ''Voting Regressor'', ''Stacking Regressor'']"
    by (rule notebook_keys)
next
  fix d s6 assume a: "after_search lib w0 X y = Done d s6"
  show "\<exists>e1 e2 e3 n6.
           results s6 = [(''Decision Tree'', e1), (''Random Forest'', e2), (''XGBRegressor'', e3)] \<and>
           select_best (results s6) = Inr n6 \<and> best_model_name s6 = Some n6 \<and>
           take 3 (results (final (notebook lib w0 X y))) = results s6"
  proof (cases rule: after_search_cases [where lib = lib and ?w0.0 = w0 and X = X and y = y])
    case (fails e s k)
    then show ?thesis using a by simp
  next
    case (completes d' w s s1 s2 s3 a1 a2 a3 n sc)
    then have "s = s6" using a by simp
    then show ?thesis using completes(4,9,11) notebook_table_prefix [OF a] by blast
  qed
next
  fix u s assume n: "notebook lib w0 X y = Done u s"
  show "\<exists>e4 e5 n.
           results s = take 3 (results s) @
             [(''Voting Regressor'', e4), (''Stacking Regressor'', e5)] \<and>
           select_best (results s) = Inr n \<and> best_model_name s = Some n"
  proof (cases rule: notebook_Done [OF n])
    case (1 d s6 s9 vr ypv mv rv sr yps ms rs s1 s2 s3 a1 a2 a3 n6 n sc)
    have "take 3 (results s) = results s6" using 1(2,10) by simp
    then show ?thesis using 1(10,11,13) by auto
  qed
qed

theorem results_append_only_witness:
  "after_search (toy_library 0 False) 0 toy_X toy_y = Done toy_d toy_searched \<and>
   notebook (toy_library 0 False) 0 toy_X toy_y = Done () toy_finished \<and>
   results (cell_5 0 :: (real, nat) kernel) = [] \<and>
   (\<exists>k. map fst (results toy_finished) =
        take k [''Decision Tree'', ''Random Forest'', ''XGBRegressor'',
                ''Voting Regressor'', ''Stacking Regressor'']) \<and>
   (\<exists>e1 e2 e3 n6.
      results toy_searched =
        [(''Decision Tree'', e1), (''Random Forest'', e2), (''XGBRegressor'', e3)] \<and>
      select_best (results toy_searched) = Inr n6 \<and> best_model_name toy_searched = Some n6 \<and>
      take 3 (results toy_finished) = results toy_searched) \<and>
   (\<exists>e4 e5 n.
      results toy_finished = take 3 (results toy_finished) @
        [(''Voting Regressor'', e4), (''Stacking Regressor'', e5)] \<and>
      select_best (results toy_finished) = Inr n \<and> best_model_name toy_finished = Some n)"
proof -
  note a = toy_after_search [of False]
  note n = toy_notebook
  have f: "final (notebook (toy_library 0 False) 0 toy_X toy_y) = toy_finished"
    by (simp add: n)
  from results_append_only [of 0 "toy_library 0 False" 0 toy_X toy_y]
  show ?thesis unfolding f using a n by blast
qed

theorem table_read_before_end:
  "after_search (toy_library 0 False) 0 toy_X toy_y = Done toy_d toy_searched \<and>
   length (results toy_searched) = 3 \<and>
   best_model_name toy_searched = Some ''Decision Tree'' \<and>
   notebook (toy_library 0 False) 0 toy_X toy_y = Done () toy_finished \<and>
   length (results toy_finished) = 5 \<and>
   best_model_name toy_finished = Some ''Stacking Regressor'' \<and>
   \<not> picked_only_at_end (stdout toy_finished)"
  by (simp add: toy_after_search toy_notebook toy_searched_def toy_finished_def
      toy_ensembled_def toy_voted_def toy_final_table_def toy_table_def report_def)

section \<open>The ensembles and the registry of best models\<close>

lemma after_search_valid:
  fixes lib :: "('m, 'w) library"
  assumes "after_search lib w0 X y = Done d s6"
  shows "\<forall>e \<in> set (best_models s6). snd e < length (heap s6)"
proof -
  obtain r w where sp: "train_test_split lib X y (1 / 5) 42 w0 = (r, w)"
    by (cases "train_test_split lib X y (1 / 5) 42 w0")
  show ?thesis
  proof (cases r)
    case (Inl e)
    then show ?thesis using assms sp by (simp add: after_search_def)
  next
    case (Inr d')
    have v0: "\<forall>e \<in> set (best_models (cell_5 w :: ('m, 'w) kernel)). snd e < length (heap (cell_5 w :: ('m, 'w) kernel))"
      by (simp add: cell_5_def)
    have "cell_6 lib d' (cell_5 w) = Done () s6"
      using assms sp Inr by (cases "cell_6 lib d' (cell_5 w)") (simp_all add: after_search_def)
    then show ?thesis using cell_6_valid [OF v0, of lib d'] by simp
  qed
qed

lemma cell_9_Done_members:
  fixes lib :: "('m, 'w) library" and st :: "('m, 'w) kernel"
  assumes "cell_9 lib d (b1, b2, b3) st = Done (sr, y_pred, mae, rmse) s"
  shows "\<exists>cs s1. fit_clones lib [b1, b2, b3] (X_train d) (y_train d) st = Done cs s1 \<and>
     fitted_base_estimators sr = cs \<and> fitted_final_estimator sr = Some (length (heap s1))"
  using assms
  by (auto simp: cell_9_def StackingRegressor_fit_def Let_def
      split: outcome.splits sum.splits prod.splits)

text \<open>
  C8. Once the search has completed, building and fitting the voting and the stacking
  ensemble, whether they complete or raise, leaves the registry of best models as it was
  and leaves every estimator it refers to in the state the search gave it: the members an
  ensemble fits are clones, new objects beyond the ones the search created.
\<close>

theorem ensembles_keep_best_models:
  fixes lib :: "('m, 'w) library"
  assumes "after_search lib w0 X y = Done d s6"
  shows "best_models (final (ensembles lib d s6)) = best_models s6 \<and>
     (\<forall>e \<in> set (best_models s6).
        snd e < length (heap s6) \<and>
        heap (final (ensembles lib d s6)) ! snd e = heap s6 ! snd e) \<and>
     (\<forall>vr ypv mv rv sr yps ms rs s9.
        ensembles lib d s6 = Done ((vr, ypv, mv, rv), (sr, yps, ms, rs)) s9 \<longrightarrow>
        (\<forall>c \<in> set (fitted_estimators vr) \<union> set (fitted_base_estimators sr).
           length (heap s6) \<le> c))"
proof (intro conjI)
  have g: "grows s6 (final (ensembles lib d s6))"
    using ensembles_grows [of s6 lib d] by simp
  then show "best_models (final (ensembles lib d s6)) = best_models s6"
    by (simp add: grows_def)
  show "\<forall>e \<in> set (best_models s6).
        snd e < length (heap s6) \<and>
        heap (final (ensembles lib d s6)) ! snd e = heap s6 ! snd e"
    using after_search_valid [OF assms] grows_nth [OF g] by blast
  show "\<forall>vr ypv mv rv sr yps ms rs s9.
        ensembles lib d s6 = Done ((vr, ypv, mv, rv), (sr, yps, ms, rs)) s9 \<longrightarrow>
        (\<forall>c \<in> set (fitted_estimators vr) \<union> set (fitted_base_estimators sr).
           length (heap s6) \<le> c)"
  proof (intro allI impI)
    fix vr ypv mv rv sr yps ms rs s9
    assume ens: "ensembles lib d s6 = Done ((vr, ypv, mv, rv), (sr, yps, ms, rs)) s9"
    from ensembles_Done [OF ens] obtain best vr0 s8 where
      c7: "cell_7 s6 = Done (best, vr0) s6" and
      c8: "cell_8 lib d vr0 s6 = Done (vr, ypv, mv, rv) s8" and
      c9: "cell_9 lib d best s8 = Done (sr, yps, ms, rs) s9"
      by blast
    obtain b1 b2 b3 where best: "best = (b1, b2, b3)" by (cases best)
    from cell_8_Done [OF c8] obtain cs s1 where
      fc: "fit_clones lib (map snd (estimators vr0)) (X_train d) (y_train d) s6 = Done cs s1"
      and vr: "vr = vr0\<lparr>fitted_estimators := cs\<rparr>"
      by blast
    have est: "set (map snd (estimators vr0)) \<subseteq> snd ` set (best_models s6)"
      using c7 by (auto simp: cell_7_def split: sum.splits dest!: dict_get_Inr_mem) force+
    have "\<forall>a \<in> set (map snd (estimators vr0)). a < length (heap s6)"
    proof
      fix a assume "a \<in> set (map snd (estimators vr0))"
      then have "a \<in> snd ` set (best_models s6)" using est by blast
      then obtain e where "e \<in> set (best_models s6)" "a = snd e" by blast
      then show "a < length (heap s6)" using after_search_valid [OF assms] by blast
    qed
    from fit_clones_Done [OF fc this]
    have v: "\<forall>c \<in> set cs. length (heap s6) \<le> c"
      by (auto simp: list_all2_conv_all_nth in_set_conv_nth)
    have g8: "grows s6 s8" using c8 cell_8_grows [of s6 lib d vr0] by simp
    have "set [b1, b2, b3] \<subseteq> snd ` set (best_models s6)"
      using c7 best by (auto simp: cell_7_def split: sum.splits dest!: dict_get_Inr_mem) force+
    then have "\<forall>a \<in> set [b1, b2, b3]. a < length (heap s6)"
      using after_search_valid [OF assms] by fastforce
    then have v8: "\<forall>a \<in> set [b1, b2, b3]. a < length (heap s8)"
      using grows_length [OF g8] by fastforce
    from cell_9_Done_members [OF c9 [unfolded best]] obtain cs' s1' where
      fc': "fit_clones lib [b1, b2, b3] (X_train d) (y_train d) s8 = Done cs' s1'"
      and sr: "fitted_base_estimators sr = cs'"
      by blast
    from fit_clones_Done [OF fc' v8]
    have "\<forall>c \<in> set cs'. length (heap s8) \<le> c"
      by (auto simp: list_all2_conv_all_nth in_set_conv_nth)
    then have "\<forall>c \<in> set cs'. length (heap s6) \<le> c"
      using grows_length [OF g8] by fastforce
    then show "\<forall>c \<in> set (fitted_estimators vr) \<union> set (fitted_base_estimators sr).
        length (heap s6) \<le> c"
      using v vr sr by auto
  qed
qed


theorem ensembles_keep_best_models_witness:
  "after_search (toy_library 0 False) 0 toy_X toy_y = Done toy_d toy_searched \<and>
   best_models (final (ensembles (toy_library 0 False) toy_d toy_searched)) =
     best_models toy_searched \<and>
   (''Random Forest'', 1) \<in> set (best_models toy_searched) \<and>
   heap (final (ensembles (toy_library 0 False) toy_d toy_searched)) ! 1 = heap toy_searched ! 1 \<and>
   ensembles (toy_library 0 False) toy_d toy_searched =
     Done ((toy_voting, [3, 3], 1, sqrt 2), (toy_stacking, [2, 2], 1, 1)) toy_ensembled \<and>
   4 \<in> set (fitted_estimators toy_voting) \<and> length (heap toy_searched) \<le> 4"
proof -
  have m: "(''Random Forest'', 1) \<in> set (best_models toy_searched)"
    by (simp add: toy_searched_def)
  have c: "4 \<in> set (fitted_estimators toy_voting) \<union> set (fitted_base_estimators toy_stacking)"
    by (simp add: toy_voting_def)
  have c': "4 \<in> set (fitted_estimators toy_voting)"
    by (simp add: toy_voting_def)
  from ensembles_keep_best_models [OF toy_after_search, of False]
  have 1: "best_models (final (ensembles (toy_library 0 False) toy_d toy_searched)) =
      best_models toy_searched"
    and 2: "\<forall>e \<in> set (best_models toy_searched). snd e < length (heap toy_searched) \<and>
        heap (final (ensembles (toy_library 0 False) toy_d toy_searched)) ! snd e =
        heap toy_searched ! snd e"
    and 3: "\<forall>vr ypv mv rv sr yps ms rs s9.
        ensembles (toy_library 0 False) toy_d toy_searched =
          Done ((vr, ypv, mv, rv), (sr, yps, ms, rs)) s9 \<longrightarrow>
        (\<forall>c \<in> set (fitted_estimators vr) \<union> set (fitted_base_estimators sr).
           length (heap toy_searched) \<le> c)"
    by blast+
  from 2 m have "heap (final (ensembles (toy_library 0 False) toy_d toy_searched)) ! 1 =
      heap toy_searched ! 1"
    by fastforce
  moreover from 3 toy_ensembles [of 0] c have "length (heap toy_searched) \<le> 4"
    by blast
  ultimately show ?thesis
    using 1 m c' toy_after_search [of False] toy_ensembles [of 0] by simp
qed

section \<open>The voting ensemble predicts the mean of its three members\<close>





section \<open>The notebook run with a library whose fit changes the model\<close>










section \<open>A run that aborts\<close>

lemma cell_8_Raised:
  fixes lib :: "('m, 'w) library" and st :: "('m, 'w) kernel"
  assumes "cell_8 lib d vr0 st = Raised e s"
  shows "grows st s \<and> stdout s = stdout st"
  using assms fit_clones_grows [of st lib "map snd (estimators vr0)" "X_train d" "y_train d"]
  by (auto simp: cell_8_def VotingRegressor_fit_def
      split: outcome.splits sum.splits prod.splits)

lemma cell_8_Done_stdout:
  fixes lib :: "('m, 'w) library" and st :: "('m, 'w) kernel"
  assumes "cell_8 lib d vr0 st = Done (vr, y_pred, mae, rmse) s"
  shows "stdout s = stdout st @ [Header ''Voting Regressor'', Metrics_Line mae rmse]"
  using assms fit_clones_grows [of st lib "map snd (estimators vr0)" "X_train d" "y_train d"]
  by (auto simp: cell_8_def VotingRegressor_fit_def
      split: outcome.splits sum.splits prod.splits)

lemma cell_9_Raised:
  fixes lib :: "('m, 'w) library" and st :: "('m, 'w) kernel"
  assumes "cell_9 lib d best st = Raised e s"
  shows "grows st s \<and> stdout s = stdout st"
proof -
  obtain b1 b2 b3 where best: "best = (b1, b2, b3)" by (cases best)
  let ?sr = "\<lparr>base_estimators = [(''dt'', b1), (''rf'', b2), (''xgb'', b3)],
     final_estimator = LinearRegression, cv = 5,
     fitted_base_estimators = [], fitted_final_estimator = None\<rparr>"
  show ?thesis
    using assms StackingRegressor_fit_grows [of st lib ?sr "X_train d" "y_train d"]
    by (auto simp: cell_9_def best Let_def split: outcome.splits sum.splits prod.splits)
qed

lemma split_error_aborts:
  fixes lib :: "('m, 'w) library"
  assumes "train_test_split lib X y (1 / 5) 42 w0 = (Inl e, w)"
  shows "notebook lib w0 X y = Raised e (cell_5 w)"
  using assms by (simp add: notebook_def after_search_def)

lemma search_error_aborts:
  fixes lib :: "('m, 'w) library"
  assumes "train_test_split lib X y (1 / 5) 42 w0 = (Inr d, w)"
    and "search_loop lib d models (cell_5 w) = Raised e s"
  shows "notebook lib w0 X y = Raised e s"
  using assms by (simp add: notebook_def after_search_def cell_6_def)

lemma search_loop_turn:
  fixes lib :: "('m, 'w) library" and st :: "('m, 'w) kernel"
  assumes "dict_get param_grids name = Inr grid"
  shows "(GridSearchCV_fit lib model grid 5 ''neg_mean_squared_error'' (- 1)
            (X_train d) (y_train d) (world st) = (Inl e, w) \<longrightarrow>
          search_loop lib d ((name, model) # ms) st =
            Raised e (st\<lparr>stdout := stdout st @ [Running name], world := w\<rparr>)) \<and>
         (GridSearchCV_fit lib model grid 5 ''neg_mean_squared_error'' (- 1)
            (X_train d) (y_train d) (world st) = (Inr (m, bp), w) \<and>
          predict lib m (X_test d) = Inl e \<longrightarrow>
          search_loop lib d ((name, model) # ms) st =
            Raised e (st\<lparr>stdout := stdout st @ [Running name], world := w,
                         heap := heap st @ [m],
                         best_models := dict_set (best_models st) name (length (heap st))\<rparr>)) \<and>
         (GridSearchCV_fit lib model grid 5 ''neg_mean_squared_error'' (- 1)
            (X_train d) (y_train d) (world st) = (Inr (m, bp), w) \<and>
          predict lib m (X_test d) = Inr y_pred \<and> evaluate (y_test d) y_pred = Inl e \<longrightarrow>
          search_loop lib d ((name, model) # ms) st =
            Raised e (st\<lparr>stdout := stdout st @ [Running name], world := w,
                         heap := heap st @ [m],
                         best_models := dict_set (best_models st) name (length (heap st))\<rparr>)) \<and>
         (GridSearchCV_fit lib model grid 5 ''neg_mean_squared_error'' (- 1)
            (X_train d) (y_train d) (world st) = (Inr (m, bp), w) \<and>
          predict lib m (X_test d) = Inr y_pred \<and>
          evaluate (y_test d) y_pred = Inr (mae, rmse) \<longrightarrow>
          search_loop lib d ((name, model) # ms) st =
            search_loop lib d ms
              (st\<lparr>stdout := stdout st @ [Running name], world := w,
                  heap := heap st @ [m],
                  best_models := dict_set (best_models st) name (length (heap st)),
                  results := dict_set (results st) name
                    \<lparr>Best_Params = Dict bp, MAE = mae, RMSE = rmse\<rparr>\<rparr>))"
  using assms by (simp add: search_loop.simps(2) Let_def)

lemma search_loop_no_grid:
  fixes lib :: "('m, 'w) library" and st :: "('m, 'w) kernel"
  assumes "dict_get param_grids name = Inl e"
  shows "search_loop lib d ((name, model) # ms) st =
     Raised e (st\<lparr>stdout := stdout st @ [Running name]\<rparr>)"
  using assms by (simp add: search_loop.simps(2) Let_def)

lemma cell_8_errors:
  fixes lib :: "('m, 'w) library" and st :: "('m, 'w) kernel"
  shows "(VotingRegressor_fit lib vr0 (X_train d) (y_train d) st = Raised e s \<longrightarrow>
          cell_8 lib d vr0 st = Raised e s) \<and>
         (VotingRegressor_fit lib vr0 (X_train d) (y_train d) st = Done vr s \<and>
          VotingRegressor_predict lib vr (X_test d) (heap s) = Inl e \<longrightarrow>
          cell_8 lib d vr0 st = Raised e s) \<and>
         (VotingRegressor_fit lib vr0 (X_train d) (y_train d) st = Done vr s \<and>
          VotingRegressor_predict lib vr (X_test d) (heap s) = Inr y_pred \<and>
          evaluate (y_test d) y_pred = Inl e \<longrightarrow>
          cell_8 lib d vr0 st = Raised e s)"
  by (simp add: cell_8_def)

lemma cell_9_errors:
  fixes lib :: "('m, 'w) library" and st :: "('m, 'w) kernel"
  assumes "sr0 = \<lparr>base_estimators = [(''dt'', b1), (''rf'', b2), (''xgb'', b3)],
                   final_estimator = LinearRegression, cv = 5,
                   fitted_base_estimators = [], fitted_final_estimator = None\<rparr>"
  shows "(StackingRegressor_fit lib sr0 (X_train d) (y_train d) st = Raised e s \<longrightarrow>
          cell_9 lib d (b1, b2, b3) st = Raised e s) \<and>
         (StackingRegressor_fit lib sr0 (X_train d) (y_train d) st = Done sr s \<and>
          StackingRegressor_predict lib sr (X_test d) (heap s) = Inl e \<longrightarrow>
          cell_9 lib d (b1, b2, b3) st = Raised e s) \<and>
         (StackingRegressor_fit lib sr0 (X_train d) (y_train d) st = Done sr s \<and>
          StackingRegressor_predict lib sr (X_test d) (heap s) = Inr y_pred \<and>
          evaluate (y_test d) y_pred = Inl e \<longrightarrow>
          cell_9 lib d (b1, b2, b3) st = Raised e s)"
  unfolding assms by (simp add: cell_9_def Let_def)

lemma ensemble_error_aborts:
  fixes lib :: "('m, 'w) library"
  assumes "after_search lib w0 X y = Done d s6"
    and "vr0 = \<lparr>estimators = [(''dt'', 0), (''rf'', 1), (''xgb'', 2)], fitted_estimators = []\<rparr>"
  shows "(cell_8 lib d vr0 s6 = Raised e s \<longrightarrow> notebook lib w0 X y = Raised e s) \<and>
         (cell_8 lib d vr0 s6 = Done v s8 \<and> cell_9 lib d (0, 1, 2) s8 = Raised e s \<longrightarrow>
          notebook lib w0 X y = Raised e s)"
  using after_search_cell_7 [OF assms(1)] assms
  by (simp add: notebook_def ensembles_def)

lemma abort_location:
  fixes lib :: "('m, 'w) library"
  assumes "notebook lib w0 X y = Raised e s"
    and "vr0 = \<lparr>estimators = [(''dt'', 0), (''rf'', 1), (''xgb'', 2)], fitted_estimators = []\<rparr>"
  shows "(\<exists>w. train_test_split lib X y (1 / 5) 42 w0 = (Inl e, w) \<and> s = cell_5 w) \<or>
     (\<exists>d w k j. train_test_split lib X y (1 / 5) 42 w0 = (Inr d, w) \<and>
        search_loop lib d models (cell_5 w) = Raised e s \<and>
        best_model_name s = None \<and> stdout s = map Running (take k (map fst models)) \<and>
        j \<le> 3 \<and>
        map fst (results s) = take j [''Decision Tree'', ''Random Forest'', ''XGBRegressor'']) \<or>
     (\<exists>d s6 n (sc :: score).
        after_search lib w0 X y = Done d s6 \<and>
        select_best (results s6) = Inr n \<and> dict_get (results s6) n = Inr sc \<and>
        best_model_name s6 = Some n \<and>
        stdout s6 = map Running (map fst models) @ report (results s6) @
                    [Best_Line n (RMSE sc)] \<and>
        results s = results s6 \<and>
        map fst (results s) = [''Decision Tree'', ''Random Forest'', ''XGBRegressor''] \<and>
        best_model_name s = Some n \<and>
        ((cell_8 lib d vr0 s6 = Raised e s \<and> stdout s = stdout s6) \<or>
         (\<exists>vr ypv mv rv s8.
            cell_8 lib d vr0 s6 = Done (vr, ypv, mv, rv) s8 \<and>
            cell_9 lib d (0, 1, 2) s8 = Raised e s \<and>
            stdout s = stdout s6 @ [Header ''Voting Regressor'', Metrics_Line mv rv])))"
    (is "?A \<or> ?B \<or> ?C")
proof (cases rule: after_search_cases [where lib = lib and ?w0.0 = w0 and X = X and y = y])
  case (fails e' s' k)
  then have es: "e' = e" "s' = s" using assms(1) by (simp_all add: notebook_def)
  obtain r w where sp: "train_test_split lib X y (1 / 5) 42 w0 = (r, w)"
    by (cases "train_test_split lib X y (1 / 5) 42 w0")
  show ?thesis
  proof (cases r)
    case (Inl e'')
    then have "?A" using sp fails(1) es by (simp add: after_search_def)
    then show ?thesis by (intro disjI1)
  next
    case (Inr d)
    have c6: "cell_6 lib d (cell_5 w) = Raised e s"
      using sp Inr fails(1) es
      by (cases "cell_6 lib d (cell_5 w)") (simp_all add: after_search_def)
    have e1: "results (cell_5 w :: ('m, 'w) kernel) = []"
      and e2: "best_models (cell_5 w :: ('m, 'w) kernel) = []"
      by (simp_all add: cell_5_def)
    from e1 e2 have sl: "search_loop lib d models (cell_5 w) = Raised e s"
    proof (cases rule: cell_6_cases [where lib = lib and d = d and st = "cell_5 w"])
      case (fails e2 s2)
      then show ?thesis using c6 by simp
    next
      case (completes s2 s1 s2' s3 a1 a2 a3 n sc)
      then show ?thesis using c6 by simp
    qed
    from after_search_keys [of lib w0 X y] obtain j where
      j: "j \<le> 3" "map fst (results (final (after_search lib w0 X y))) =
         take j [''Decision Tree'', ''Random Forest'', ''XGBRegressor'']"
      by blast
    have "train_test_split lib X y (1 / 5) 42 w0 = (Inr d, w) \<and>
        search_loop lib d models (cell_5 w) = Raised e s \<and>
        best_model_name s = None \<and> stdout s = map Running (take k (map fst models)) \<and>
        j \<le> 3 \<and>
        map fst (results s) = take j [''Decision Tree'', ''Random Forest'', ''XGBRegressor'']"
      using sp Inr sl fails es j by simp
    then have "?B" by (intro exI)
    then show ?thesis by (intro disjI1 disjI2)
  qed
next
  case (completes d w s6 s1 s2 s3 a1 a2 a3 n sc)
  have c7: "cell_7 s6 = Done ((0, 1, 2), vr0) s6"
    using after_search_cell_7 [OF completes(2)] assms(2) by simp
  have keys: "map fst (results s6) = [''Decision Tree'', ''Random Forest'', ''XGBRegressor'']"
    using completes(4) by simp
  have base: "after_search lib w0 X y = Done d s6 \<and>
        select_best (results s6) = Inr n \<and> dict_get (results s6) n = Inr sc \<and>
        best_model_name s6 = Some n \<and>
        stdout s6 = map Running (map fst models) @ report (results s6) @
                    [Best_Line n (RMSE sc)]"
    using completes(2,9,10,11,12) by simp
  show ?thesis
  proof (cases "cell_8 lib d vr0 s6")
    case (Raised e' s')
    then have "notebook lib w0 X y = Raised e' s'"
      using completes(2) c7 by (simp add: notebook_def ensembles_def)
    then have es: "e' = e" "s' = s" using assms(1) by simp_all
    from cell_8_Raised [OF Raised [unfolded es]]
    have g: "grows s6 s" and o: "stdout s = stdout s6" by simp_all
    have "results s = results s6 \<and>
        map fst (results s) = [''Decision Tree'', ''Random Forest'', ''XGBRegressor''] \<and>
        best_model_name s = Some n \<and> cell_8 lib d vr0 s6 = Raised e s \<and> stdout s = stdout s6"
      using g o keys completes(11) Raised es by (simp add: grows_def)
    with base have "?C"
      apply -
      apply (rule exI [of _ d], rule exI [of _ s6], rule exI [of _ n], rule exI [of _ sc])
      apply (simp add: keys)
      done
    then show ?thesis by (intro disjI2)
  next
    case (Done v s8)
    obtain vr ypv mv rv where v: "v = (vr, ypv, mv, rv)" by (cases v)
    have g8: "grows s6 s8" using Done cell_8_grows [of s6 lib d vr0] by simp
    have o8: "stdout s8 = stdout s6 @ [Header ''Voting Regressor'', Metrics_Line mv rv]"
      using cell_8_Done_stdout [OF Done [unfolded v]] .
    show ?thesis
    proof (cases "cell_9 lib d (0, 1, 2) s8")
      case (Raised e' s')
      then have "notebook lib w0 X y = Raised e' s'"
        using completes(2) c7 Done by (simp add: notebook_def ensembles_def)
      then have es: "e' = e" "s' = s" using assms(1) by simp_all
      from cell_9_Raised [OF Raised [unfolded es]]
      have g: "grows s8 s" and o: "stdout s = stdout s8" by simp_all
      have g6: "grows s6 s" by (rule grows_trans [OF g8 g])
      have "results s = results s6 \<and>
          map fst (results s) = [''Decision Tree'', ''Random Forest'', ''XGBRegressor''] \<and>
          best_model_name s = Some n \<and>
          cell_8 lib d vr0 s6 = Done (vr, ypv, mv, rv) s8 \<and>
          cell_9 lib d (0, 1, 2) s8 = Raised e s \<and>
          stdout s = stdout s6 @ [Header ''Voting Regressor'', Metrics_Line mv rv]"
        using g6 o o8 keys completes(11) Raised es Done v by (simp add: grows_def)
      with base have "?C"
        apply -
        apply (rule exI [of _ d], rule exI [of _ s6], rule exI [of _ n], rule exI [of _ sc])
        apply (simp add: keys)
        done
      then show ?thesis by (intro disjI2)
    next
      case c9: (Done v9 s9)
      obtain sr yps ms rs where v9: "v9 = (sr, yps, ms, rs)" by (cases v9)
      have "grows s8 s9" using c9 cell_9_grows [of s8 lib d "(0, 1, 2)"] by simp
      then have "grows s6 s9" using g8 grows_trans by blast
      then have "results s9 = results s6" by (simp add: grows_def)
      then have "distinct (map fst (results s9))" using keys by simp
      from cell_10_total [OF this, of mv rv ms rs] obtain s' where
        "cell_10 mv rv ms rs s9 = Done () s'" by blast
      then show ?thesis
        using assms(1) completes(2) c7 Done v c9 v9 by (simp add: notebook_def ensembles_def)
    qed
  qed
qed

lemma toy_stacking_fit_broken:
  "StackingRegressor_fit (toy_library k True)
     \<lparr>base_estimators = [(''dt'', 0), (''rf'', 1), (''xgb'', 2)],
      final_estimator = LinearRegression, cv = 5,
      fitted_base_estimators = [], fitted_final_estimator = None\<rparr>
     X y toy_voted = Raised LibraryError toy_aborted"
  by (simp add: StackingRegressor_fit_def toy_fit_clones_stacking toy_fields toy_aborted_def)

lemma toy_cell_8_literal:
  "cell_8 (toy_library k b) toy_d
     \<lparr>estimators = [(''dt'', 0), (''rf'', 1), (''xgb'', 2)], fitted_estimators = []\<rparr>
     toy_searched = Done (toy_voting, [3, 3], 1, sqrt 2) toy_voted"
  using toy_cell_8 [of k b] by (simp add: toy_voting_def)

lemma no_split_fields:
  "train_test_split no_split_library = (\<lambda>X y test_size random_state w. (Inl LibraryError, w))"
  by (simp add: no_split_library_def)

lemma no_search_fields:
  "train_test_split no_search_library =
     (\<lambda>X y test_size random_state w. (Inr (toy_split X y), w))"
  "GridSearchCV_fit no_search_library =
     (\<lambda>est grid folds scoring n_jobs X y w. (Inl LibraryError, Suc w))"
  by (simp_all add: no_search_library_def toy_library_def)

text \<open>
  C10, as the notebook has it. A stage that raises ends the run with that error, in the
  state that stage left: nothing catches the error, nothing after it runs, and the call
  that failed is not made again. This holds for the split; in any turn of the search
  loop, for the lookup of the grid, the search, the prediction and the scoring of the
  candidate, while a turn in which all four succeed hands over to the rest of the loop;
  and for the fit, the prediction and the scoring of the voting regressor and of the
  stacking regressor. Conversely a run that raises has raised in the split, in the
  search loop, in the voting cell or in the stacking cell.
  What the completed cells printed stays. If the split raises, nothing has been printed
  or recorded. If the search loop raises, only progress lines have been printed, no model
  has been selected and the table holds entries of candidates only. If an ensemble cell
  raises, the three candidates' scores and the best candidate have already been printed
  and recorded, followed by the voting regressor's scores when it is the stacking cell
  that raises; the ensembles' entries, the final table and the final selection are never
  produced.
\<close>

theorem stage_error_aborts_run:
  fixes lib :: "('m, 'w) library"
  shows
   "(\<forall>e w. train_test_split lib X y (1 / 5) 42 w0 = (Inl e, w) \<longrightarrow>
       notebook lib w0 X y = Raised e (cell_5 w)) \<and>
    (\<forall>d w e s. train_test_split lib X y (1 / 5) 42 w0 = (Inr d, w) \<and>
       search_loop lib d models (cell_5 w) = Raised e s \<longrightarrow>
       notebook lib w0 X y = Raised e s) \<and>
    (\<forall>d name model ms (st :: ('m, 'w) kernel) e.
       dict_get param_grids name = Inl e \<longrightarrow>
       search_loop lib d ((name, model) # ms) st =
         Raised e (st\<lparr>stdout := stdout st @ [Running name]\<rparr>)) \<and>
    (\<forall>d name model ms (st :: ('m, 'w) kernel) grid e w m bp y_pred mae rmse.
       dict_get param_grids name = Inr grid \<longrightarrow>
       (GridSearchCV_fit lib model grid 5 ''neg_mean_squared_error'' (- 1)
            (X_train d) (y_train d) (world st) = (Inl e, w) \<longrightarrow>
          search_loop lib d ((name, model) # ms) st =
            Raised e (st\<lparr>stdout := stdout st @ [Running name], world := w\<rparr>)) \<and>
       (GridSearchCV_fit lib model grid 5 ''neg_mean_squared_error'' (- 1)
            (X_train d) (y_train d) (world st) = (Inr (m, bp), w) \<and>
          predict lib m (X_test d) = Inl e \<longrightarrow>
          search_loop lib d ((name, model) # ms) st =
            Raised e (st\<lparr>stdout := stdout st @ [Running name], world := w,
                         heap := heap st @ [m],
                         best_models := dict_set (best_models st) name (length (heap st))\<rparr>)) \<and>
       (GridSearchCV_fit lib model grid 5 ''neg_mean_squared_error'' (- 1)
            (X_train d) (y_train d) (world st) = (Inr (m, bp), w) \<and>
          predict lib m (X_test d) = Inr y_pred \<and> evaluate (y_test d) y_pred = Inl e \<longrightarrow>
          search_loop lib d ((name, model) # ms) st =
            Raised e (st\<lparr>stdout := stdout st @ [Running name], world := w,
                         heap := heap st @ [m],
                         best_models := dict_set (best_models st) name (length (heap st))\<rparr>)) \<and>
       (GridSearchCV_fit lib model grid 5 ''neg_mean_squared_error'' (- 1)
            (X_train d) (y_train d) (world st) = (Inr (m, bp), w) \<and>
          predict lib m (X_test d) = Inr y_pred \<and>
          evaluate (y_test d) y_pred = Inr (mae, rmse) \<longrightarrow>
          search_loop lib d ((name, model) # ms) st =
            search_loop lib d ms
              (st\<lparr>stdout := stdout st @ [Running name], world := w,
                  heap := heap st @ [m],
                  best_models := dict_set (best_models st) name (length (heap st)),
                  results := dict_set (results st) name
                    \<lparr>Best_Params = Dict bp, MAE = mae, RMSE = rmse\<rparr>\<rparr>))) \<and>
    (\<forall>d vr0 (st :: ('m, 'w) kernel) e s vr y_pred.
       (VotingRegressor_fit lib vr0 (X_train d) (y_train d) st = Raised e s \<longrightarrow>
          cell_8 lib d vr0 st = Raised e s) \<and>
       (VotingRegressor_fit lib vr0 (X_train d) (y_train d) st = Done vr s \<and>
          VotingRegressor_predict lib vr (X_test d) (heap s) = Inl e \<longrightarrow>
          cell_8 lib d vr0 st = Raised e s) \<and>
       (VotingRegressor_fit lib vr0 (X_train d) (y_train d) st = Done vr s \<and>
          VotingRegressor_predict lib vr (X_test d) (heap s) = Inr y_pred \<and>
          evaluate (y_test d) y_pred = Inl e \<longrightarrow>
          cell_8 lib d vr0 st = Raised e s)) \<and>
    (\<forall>d b1 b2 b3 (st :: ('m, 'w) kernel) e s sr y_pred.
       (StackingRegressor_fit lib
            \<lparr>base_estimators = [(''dt'', b1), (''rf'', b2), (''xgb'', b3)],
             final_estimator = LinearRegression, cv = 5,
             fitted_base_estimators = [], fitted_final_estimator = None\<rparr>
            (X_train d) (y_train d) st = Raised e s \<longrightarrow>
          cell_9 lib d (b1, b2, b3) st = Raised e s) \<and>
       (StackingRegressor_fit lib
            \<lparr>base_estimators = [(''dt'', b1), (''rf'', b2), (''xgb'', b3)],
             final_estimator = LinearRegression, cv = 5,
             fitted_base_estimators = [], fitted_final_estimator = None\<rparr>
            (X_train d) (y_train d) st = Done sr s \<and>
          StackingRegressor_predict lib sr (X_test d) (heap s) = Inl e \<longrightarrow>
          cell_9 lib d (b1, b2, b3) st = Raised e s) \<and>
       (StackingRegressor_fit lib
            \<lparr>base_estimators = [(''dt'', b1), (''rf'', b2), (''xgb'', b3)],
             final_estimator = LinearRegression, cv = 5,
             fitted_base_estimators = [], fitted_final_estimator = None\<rparr>
            (X_train d) (y_train d) st = Done sr s \<and>
          StackingRegressor_predict lib sr (X_test d) (heap s) = Inr y_pred \<and>
          evaluate (y_test d) y_pred = Inl e \<longrightarrow>
          cell_9 lib d (b1, b2, b3) st = Raised e s)) \<and>
    (\<forall>d s6 e s v s8.
       after_search lib w0 X y = Done d s6 \<longrightarrow>
       (cell_8 lib d
            \<lparr>estimators = [(''dt'', 0), (''rf'', 1), (''xgb'', 2)], fitted_estimators = []\<rparr>
            s6 = Raised e s \<longrightarrow>
          notebook lib w0 X y = Raised e s) \<and>
       (cell_8 lib d
            \<lparr>estimators = [(''dt'', 0), (''rf'', 1), (''xgb'', 2)], fitted_estimators = []\<rparr>
            s6 = Done v s8 \<and>
          cell_9 lib d (0, 1, 2) s8 = Raised e s \<longrightarrow>
          notebook lib w0 X y = Raised e s)) \<and>
    (\<forall>e s. notebook lib w0 X y = Raised e s \<longrightarrow>
       (\<exists>w. train_test_split lib X y (1 / 5) 42 w0 = (Inl e, w) \<and> s = cell_5 w) \<or>
       (\<exists>d w k j. train_test_split lib X y (1 / 5) 42 w0 = (Inr d, w) \<and>
          search_loop lib d models (cell_5 w) = Raised e s \<and>
          best_model_name s = None \<and> stdout s = map Running (take k (map fst models)) \<and>
          j \<le> 3 \<and>
          map fst (results s) = take j [''Decision Tree'', ''Random Forest'', ''XGBRegressor'']) \<or>
       (\<exists>d s6 n (sc :: score).
          after_search lib w0 X y = Done d s6 \<and>
          select_best (results s6) = Inr n \<and> dict_get (results s6) n = Inr sc \<and>
          best_model_name s6 = Some n \<and>
          stdout s6 = map Running (map fst models) @ report (results s6) @
                      [Best_Line n (RMSE sc)] \<and>
          results s = results s6 \<and>
          map fst (results s) = [''Decision Tree'', ''Random Forest'', ''XGBRegressor''] \<and>
          best_model_name s = Some n \<and>
          ((cell_8 lib d
               \<lparr>estimators = [(''dt'', 0), (''rf'', 1), (''xgb'', 2)], fitted_estimators = []\<rparr>
               s6 = Raised e s \<and> stdout s = stdout s6) \<or>
           (\<exists>vr ypv mv rv s8.
              cell_8 lib d
                \<lparr>estimators = [(''dt'', 0), (''rf'', 1), (''xgb'', 2)], fitted_estimators = []\<rparr>
                s6 = Done (vr, ypv, mv, rv) s8 \<and>
              cell_9 lib d (0, 1, 2) s8 = Raised e s \<and>
              stdout s = stdout s6 @ [Header ''Voting Regressor'', Metrics_Line mv rv]))))"
proof (intro conjI)
  show "\<forall>e w. train_test_split lib X y (1 / 5) 42 w0 = (Inl e, w) \<longrightarrow>
       notebook lib w0 X y = Raised e (cell_5 w)"
    using split_error_aborts [of lib X y w0] by blast
  show "\<forall>d w e s. train_test_split lib X y (1 / 5) 42 w0 = (Inr d, w) \<and>
       search_loop lib d models (cell_5 w) = Raised e s \<longrightarrow>
       notebook lib w0 X y = Raised e s"
    using search_error_aborts [of lib X y w0] by blast
next
  show "\<forall>d name model ms (st :: ('m, 'w) kernel) e.
       dict_get param_grids name = Inl e \<longrightarrow>
       search_loop lib d ((name, model) # ms) st =
         Raised e (st\<lparr>stdout := stdout st @ [Running name]\<rparr>)"
    by (intro allI impI) (rule search_loop_no_grid)
next
  show "\<forall>d name model ms (st :: ('m, 'w) kernel) grid e w m bp y_pred mae rmse.
       dict_get param_grids name = Inr grid \<longrightarrow>
       (GridSearchCV_fit lib model grid 5 ''neg_mean_squared_error'' (- 1)
            (X_train d) (y_train d) (world st) = (Inl e, w) \<longrightarrow>
          search_loop lib d ((name, model) # ms) st =
            Raised e (st\<lparr>stdout := stdout st @ [Running name], world := w\<rparr>)) \<and>
       (GridSearchCV_fit lib model grid 5 ''neg_mean_squared_error'' (- 1)
            (X_train d) (y_train d) (world st) = (Inr (m, bp), w) \<and>
          predict lib m (X_test d) = Inl e \<longrightarrow>
          search_loop lib d ((name, model) # ms) st =
            Raised e (st\<lparr>stdout := stdout st @ [Running name], world := w,
                         heap := heap st @ [m],
                         best_models := dict_set (best_models st) name (length (heap st))\<rparr>)) \<and>
       (GridSearchCV_fit lib model grid 5 ''neg_mean_squared_error'' (- 1)
            (X_train d) (y_train d) (world st) = (Inr (m, bp), w) \<and>
          predict lib m (X_test d) = Inr y_pred \<and> evaluate (y_test d) y_pred = Inl e \<longrightarrow>
          search_loop lib d ((name, model) # ms) st =
            Raised e (st\<lparr>stdout := stdout st @ [Running name], world := w,
                         heap := heap st @ [m],
                         best_models := dict_set (best_models st) name (length (heap st))\<rparr>)) \<and>
       (GridSearchCV_fit lib model grid 5 ''neg_mean_squared_error'' (- 1)
            (X_train d) (y_train d) (world st) = (Inr (m, bp), w) \<and>
          predict lib m (X_test d) = Inr y_pred \<and>
          evaluate (y_test d) y_pred = Inr (mae, rmse) \<longrightarrow>
          search_loop lib d ((name, model) # ms) st =
            search_loop lib d ms
              (st\<lparr>stdout := stdout st @ [Running name], world := w,
                  heap := heap st @ [m],
                  best_models := dict_set (best_models st) name (length (heap st)),
                  results := dict_set (results st) name
                    \<lparr>Best_Params = Dict bp, MAE = mae, RMSE = rmse\<rparr>\<rparr>))"
    by (intro allI impI) (rule search_loop_turn)
next
  show "\<forall>d vr0 (st :: ('m, 'w) kernel) e s vr y_pred.
       (VotingRegressor_fit lib vr0 (X_train d) (y_train d) st = Raised e s \<longrightarrow>
          cell_8 lib d vr0 st = Raised e s) \<and>
       (VotingRegressor_fit lib vr0 (X_train d) (y_train d) st = Done vr s \<and>
          VotingRegressor_predict lib vr (X_test d) (heap s) = Inl e \<longrightarrow>
          cell_8 lib d vr0 st = Raised e s) \<and>
       (VotingRegressor_fit lib vr0 (X_train d) (y_train d) st = Done vr s \<and>
          VotingRegressor_predict lib vr (X_test d) (heap s) = Inr y_pred \<and>
          evaluate (y_test d) y_pred = Inl e \<longrightarrow>
          cell_8 lib d vr0 st = Raised e s)"
    by (intro allI) (rule cell_8_errors)
next
  show "\<forall>d b1 b2 b3 (st :: ('m, 'w) kernel) e s sr y_pred.
       (StackingRegressor_fit lib
            \<lparr>base_estimators = [(''dt'', b1), (''rf'', b2), (''xgb'', b3)],
             final_estimator = LinearRegression, cv = 5,
             fitted_base_estimators = [], fitted_final_estimator = None\<rparr>
            (X_train d) (y_train d) st = Raised e s \<longrightarrow>
          cell_9 lib d (b1, b2, b3) st = Raised e s) \<and>
       (StackingRegressor_fit lib
            \<lparr>base_estimators = [(''dt'', b1), (''rf'', b2), (''xgb'', b3)],
             final_estimator = LinearRegression, cv = 5,
             fitted_base_estimators = [], fitted_final_estimator = None\<rparr>
            (X_train d) (y_train d) st = Done sr s \<and>
          StackingRegressor_predict lib sr (X_test d) (heap s) = Inl e \<longrightarrow>
          cell_9 lib d (b1, b2, b3) st = Raised e s) \<and>
       (StackingRegressor_fit lib
            \<lparr>base_estimators = [(''dt'', b1), (''rf'', b2), (''xgb'', b3)],
             final_estimator = LinearRegression, cv = 5,
             fitted_base_estimators = [], fitted_final_estimator = None\<rparr>
            (X_train d) (y_train d) st = Done sr s \<and>
          StackingRegressor_predict lib sr (X_test d) (heap s) = Inr y_pred \<and>
          evaluate (y_test d) y_pred = Inl e \<longrightarrow>
          cell_9 lib d (b1, b2, b3) st = Raised e s)"
    by (intro allI) (rule cell_9_errors [OF refl])
next
  show "\<forall>d s6 e s v s8.
       after_search lib w0 X y = Done d s6 \<longrightarrow>
       (cell_8 lib d
            \<lparr>estimators = [(''dt'', 0), (''rf'', 1), (''xgb'', 2)], fitted_estimators = []\<rparr>
            s6 = Raised e s \<longrightarrow>
          notebook lib w0 X y = Raised e s) \<and>
       (cell_8 lib d
            \<lparr>estimators = [(''dt'', 0), (''rf'', 1), (''xgb'', 2)], fitted_estimators = []\<rparr>
            s6 = Done v s8 \<and>
          cell_9 lib d (0, 1, 2) s8 = Raised e s \<longrightarrow>
          notebook lib w0 X y = Raised e s)"
    by (intro allI impI) (rule ensemble_error_aborts [OF _ refl])
next
  show "\<forall>e s. notebook lib w0 X y = Raised e s \<longrightarrow>
       (\<exists>w. train_test_split lib X y (1 / 5) 42 w0 = (Inl e, w) \<and> s = cell_5 w) \<or>
       (\<exists>d w k j. train_test_split lib X y (1 / 5) 42 w0 = (Inr d, w) \<and>
          search_loop lib d models (cell_5 w) = Raised e s \<and>
          best_model_name s = None \<and> stdout s = map Running (take k (map fst models)) \<and>
          j \<le> 3 \<and>
          map fst (results s) = take j [''Decision Tree'', ''Random Forest'', ''XGBRegressor'']) \<or>
       (\<exists>d s6 n (sc :: score).
          after_search lib w0 X y = Done d s6 \<and>
          select_best (results s6) = Inr n \<and> dict_get (results s6) n = Inr sc \<and>
          best_model_name s6 = Some n \<and>
          stdout s6 = map Running (map fst models) @ report (results s6) @
                      [Best_Line n (RMSE sc)] \<and>
          results s = results s6 \<and>
          map fst (results s) = [''Decision Tree'', ''Random Forest'', ''XGBRegressor''] \<and>
          best_model_name s = Some n \<and>
          ((cell_8 lib d
               \<lparr>estimators = [(''dt'', 0), (''rf'', 1), (''xgb'', 2)], fitted_estimators = []\<rparr>
               s6 = Raised e s \<and> stdout s = stdout s6) \<or>
           (\<exists>vr ypv mv rv s8.
              cell_8 lib d
                \<lparr>estimators = [(''dt'', 0), (''rf'', 1), (''xgb'', 2)], fitted_estimators = []\<rparr>
                s6 = Done (vr, ypv, mv, rv) s8 \<and>
              cell_9 lib d (0, 1, 2) s8 = Raised e s \<and>
              stdout s = stdout s6 @ [Header ''Voting Regressor'', Metrics_Line mv rv])))"
    by (intro allI impI) (rule abort_location [OF _ refl])
qed

theorem stage_error_aborts_run_witness:
  "train_test_split no_split_library toy_X toy_y (1 / 5) 42 0 = (Inl LibraryError, 0) \<and>
   notebook no_split_library 0 toy_X toy_y = Raised LibraryError (cell_5 0) \<and>
   train_test_split no_search_library toy_X toy_y (1 / 5) 42 0 = (Inr toy_d, 0) \<and>
   dict_get param_grids ''Decision Tree'' =
     Inr [(''max_depth'', [IntV 5, IntV 10, IntV 20, NoneV]),
          (''min_samples_split'', [IntV 2, IntV 5, IntV 10])] \<and>
   GridSearchCV_fit no_search_library DecisionTreeRegressor
     [(''max_depth'', [IntV 5, IntV 10, IntV 20, NoneV]),
      (''min_samples_split'', [IntV 2, IntV 5, IntV 10])]
     5 ''neg_mean_squared_error'' (- 1) (X_train toy_d) (y_train toy_d)
     (world (cell_5 0 :: (real, nat) kernel)) = (Inl LibraryError, 1) \<and>
   search_loop no_search_library toy_d models (cell_5 0) =
     Raised LibraryError
       ((cell_5 0)\<lparr>stdout := stdout (cell_5 0 :: (real, nat) kernel) @ [Running ''Decision Tree''],
                   world := 1\<rparr>) \<and>
   notebook no_search_library 0 toy_X toy_y =
     Raised LibraryError
       ((cell_5 0)\<lparr>stdout := stdout (cell_5 0 :: (real, nat) kernel) @ [Running ''Decision Tree''],
                   world := 1\<rparr>) \<and>
   after_search (toy_library 0 True) 0 toy_X toy_y = Done toy_d toy_searched \<and>
   cell_8 (toy_library 0 True) toy_d
     \<lparr>estimators = [(''dt'', 0), (''rf'', 1), (''xgb'', 2)], fitted_estimators = []\<rparr>
     toy_searched = Done (toy_voting, [3, 3], 1, sqrt 2) toy_voted \<and>
   StackingRegressor_fit (toy_library 0 True)
     \<lparr>base_estimators = [(''dt'', 0), (''rf'', 1), (''xgb'', 2)],
      final_estimator = LinearRegression, cv = 5,
      fitted_base_estimators = [], fitted_final_estimator = None\<rparr>
     (X_train toy_d) (y_train toy_d) toy_voted = Raised LibraryError toy_aborted \<and>
   cell_9 (toy_library 0 True) toy_d (0, 1, 2) toy_voted = Raised LibraryError toy_aborted \<and>
   notebook (toy_library 0 True) 0 toy_X toy_y = Raised LibraryError toy_aborted \<and>
   ((\<exists>w. train_test_split (toy_library 0 True) toy_X toy_y (1 / 5) 42 0 =
          (Inl LibraryError, w) \<and> toy_aborted = cell_5 w) \<or>
    (\<exists>d w k j. train_test_split (toy_library 0 True) toy_X toy_y (1 / 5) 42 0 = (Inr d, w) \<and>
       search_loop (toy_library 0 True) d models (cell_5 w) = Raised LibraryError toy_aborted \<and>
       best_model_name toy_aborted = None \<and>
       stdout toy_aborted = map Running (take k (map fst models)) \<and>
       j \<le> 3 \<and>
       map fst (results toy_aborted) =
         take j [''Decision Tree'', ''Random Forest'', ''XGBRegressor'']) \<or>
    (\<exists>d s6 n (sc :: score).
       after_search (toy_library 0 True) 0 toy_X toy_y = Done d s6 \<and>
       select_best (results s6) = Inr n \<and> dict_get (results s6) n = Inr sc \<and>
       best_model_name s6 = Some n \<and>
       stdout s6 = map Running (map fst models) @ report (results s6) @
                   [Best_Line n (RMSE sc)] \<and>
       results toy_aborted = results s6 \<and>
       map fst (results toy_aborted) =
         [''Decision Tree'', ''Random Forest'', ''XGBRegressor''] \<and>
       best_model_name toy_aborted = Some n \<and>
       ((cell_8 (toy_library 0 True) d
            \<lparr>estimators = [(''dt'', 0), (''rf'', 1), (''xgb'', 2)], fitted_estimators = []\<rparr>
            s6 = Raised LibraryError toy_aborted \<and> stdout toy_aborted = stdout s6) \<or>
        (\<exists>vr ypv mv rv s8.
           cell_8 (toy_library 0 True) d
             \<lparr>estimators = [(''dt'', 0), (''rf'', 1), (''xgb'', 2)], fitted_estimators = []\<rparr>
             s6 = Done (vr, ypv, mv, rv) s8 \<and>
           cell_9 (toy_library 0 True) d (0, 1, 2) s8 = Raised LibraryError toy_aborted \<and>
           stdout toy_aborted =
             stdout s6 @ [Header ''Voting Regressor'', Metrics_Line mv rv]))))"
proof -
  note A = stage_error_aborts_run
    [where lib = no_split_library and X = toy_X and y = toy_y and ?w0.0 = 0]
  note B = stage_error_aborts_run
    [where lib = no_search_library and X = toy_X and y = toy_y and ?w0.0 = 0]
  note C = stage_error_aborts_run
    [where lib = "toy_library 0 True" and X = toy_X and y = toy_y and ?w0.0 = 0]
  have a1: "train_test_split no_split_library toy_X toy_y (1 / 5) 42 0 = (Inl LibraryError, 0)"
    by (simp add: no_split_fields)
  have a2: "notebook no_split_library 0 toy_X toy_y = Raised LibraryError (cell_5 0)"
    by (rule A [THEN conjunct1, rule_format, OF a1])
  have b1: "train_test_split no_search_library toy_X toy_y (1 / 5) 42 0 = (Inr toy_d, 0)"
    by (simp add: no_search_fields toy_split_eq)
  have b2: "dict_get param_grids ''Decision Tree'' =
     Inr [(''max_depth'', [IntV 5, IntV 10, IntV 20, NoneV]),
          (''min_samples_split'', [IntV 2, IntV 5, IntV 10])]"
    by (simp add: dict_get_def param_grids_def)
  have b3: "GridSearchCV_fit no_search_library DecisionTreeRegressor
     [(''max_depth'', [IntV 5, IntV 10, IntV 20, NoneV]),
      (''min_samples_split'', [IntV 2, IntV 5, IntV 10])]
     5 ''neg_mean_squared_error'' (- 1) (X_train toy_d) (y_train toy_d)
     (world (cell_5 0 :: (real, nat) kernel)) = (Inl LibraryError, 1)"
    by (simp add: no_search_fields cell_5_def)
  have b4: "search_loop no_search_library toy_d models (cell_5 0) =
     Raised LibraryError
       ((cell_5 0)\<lparr>stdout := stdout (cell_5 0 :: (real, nat) kernel) @ [Running ''Decision Tree''],
                   world := 1\<rparr>)"
    unfolding models_def
    by (rule B [THEN conjunct2, THEN conjunct2, THEN conjunct2, THEN conjunct1, rule_format,
          OF b2, THEN conjunct1, rule_format, OF b3])
  have b5: "notebook no_search_library 0 toy_X toy_y =
     Raised LibraryError
       ((cell_5 0)\<lparr>stdout := stdout (cell_5 0 :: (real, nat) kernel) @ [Running ''Decision Tree''],
                   world := 1\<rparr>)"
    by (rule B [THEN conjunct2, THEN conjunct1, rule_format, OF conjI, OF b1 b4])
  note c1 = toy_after_search [of True]
  note c2 = toy_cell_8_literal [of 0 True]
  note c3 = toy_stacking_fit_broken [of 0 "X_train toy_d" "y_train toy_d"]
  have c4: "cell_9 (toy_library 0 True) toy_d (0, 1, 2) toy_voted =
      Raised LibraryError toy_aborted"
    by (rule C [THEN conjunct2, THEN conjunct2, THEN conjunct2, THEN conjunct2, THEN conjunct2,
          THEN conjunct1, rule_format, THEN conjunct1, rule_format, OF c3])
  have c5: "notebook (toy_library 0 True) 0 toy_X toy_y = Raised LibraryError toy_aborted"
    by (rule C [THEN conjunct2, THEN conjunct2, THEN conjunct2, THEN conjunct2, THEN conjunct2,
          THEN conjunct2, THEN conjunct1, rule_format, OF c1, THEN conjunct2, rule_format,
          OF conjI, OF c2 c4])
  note c6 = C [THEN conjunct2, THEN conjunct2, THEN conjunct2, THEN conjunct2, THEN conjunct2,
      THEN conjunct2, THEN conjunct2, rule_format, OF c5]
  show ?thesis
    by (intro conjI a1 a2 b1 b2 b3 b4 b5 c1 c2 c3 c4 c5 c6)
qed

text \<open>
  A run that aborts in the stacking cell has surfaced partial results: the output holds
  the three candidates' parameters and scores, the best candidate and the voting
  regressor's scores, not progress lines only.
\<close>

theorem abort_leaves_results_printed:
  "raised (notebook (toy_library 0 True) 0 toy_X toy_y) = Some LibraryError \<and>
   \<not> list_all is_progress (stdout (final (notebook (toy_library 0 True) 0 toy_X toy_y))) \<and>
   stdout (final (notebook (toy_library 0 True) 0 toy_X toy_y)) =
     [Running ''Decision Tree'', Running ''Random Forest'', Running ''XGBRegressor'',
      Params_Line ''Decision Tree''
        (Dict [(''max_depth'', IntV 20), (''min_samples_split'', IntV 5)]),
      Metrics_Line 1 (sqrt 2),
      Params_Line ''Random Forest'' (Dict [(''max_depth'', NoneV), (''n_estimators'', IntV 200)]),
      Metrics_Line 3 (sqrt 10),
      Params_Line ''XGBRegressor''
        (Dict [(''learning_rate'', FloatV (5 / 100)), (''max_depth'', IntV 7),
               (''n_estimators'', IntV 500)]),
      Metrics_Line 1 (sqrt 2),
      Best_Line ''Decision Tree'' (sqrt 2),
      Header ''Voting Regressor'', Metrics_Line 1 (sqrt 2)]"
  by (simp add: toy_notebook_broken toy_voted_def toy_searched_def toy_table_def report_def)
section \<open>Two runs from different worlds\<close>

lemma reproducible_split:
  assumes "reproducible lib"
  shows "fst (train_test_split lib X y t r w) = fst (train_test_split lib X y t r w')"
  using assms unfolding reproducible_def by fast

lemma reproducible_search:
  assumes "reproducible lib"
  shows "fst (GridSearchCV_fit lib est g c sc n X y w) =
         fst (GridSearchCV_fit lib est g c sc n X y w')"
  using assms unfolding reproducible_def by fast

lemma reproducible_fit:
  assumes "reproducible lib"
  shows "fst (fit lib m X y w) = fst (fit lib m X y w')"
  using assms unfolding reproducible_def by fast

lemma reproducible_final:
  assumes "reproducible lib"
  shows "fst (fit_final_estimator lib est c ms X y w) =
         fst (fit_final_estimator lib est c ms X y w')"
  using assms unfolding reproducible_def by fast

lemma seen_world [simp]: "seen (st\<lparr>world := w\<rparr>) = seen st"
  by (simp add: seen_def)

lemma seen_eqD:
  fixes st st' :: "('m, 'w) kernel"
  shows "seen st = seen st' \<Longrightarrow> st' = st\<lparr>world := world st'\<rparr>"
  by (cases st; cases st') (simp add: seen_def)

lemma observed_bind:
  assumes "observed A = observed B"
    and "\<And>v s s'. seen s = seen s' \<Longrightarrow> observed (k v s) = observed (k v s')"
  shows "observed (case A of Done v s \<Rightarrow> k v s | Raised e s \<Rightarrow> Raised e s) =
         observed (case B of Done v s \<Rightarrow> k v s | Raised e s \<Rightarrow> Raised e s)"
proof (cases A)
  case A: (Done v s)
  show ?thesis
  proof (cases B)
    case B: (Done v' s')
    have "v' = v" "seen s = seen s'" using assms(1) A B by simp_all
    then show ?thesis using A B assms(2) [of s s' v] by simp
  next
    case (Raised e s')
    then show ?thesis using assms(1) A by simp
  qed
next
  case A: (Raised e s)
  show ?thesis
  proof (cases B)
    case (Done v' s')
    then show ?thesis using assms(1) A by simp
  next
    case (Raised e' s')
    then show ?thesis using assms(1) A by simp
  qed
qed

lemma observed_final:
  "observed A = observed B \<Longrightarrow>
     results (final A) = results (final B) \<and> raised A = raised B"
  by (cases A; cases B) (auto simp: seen_def)

lemma sim_from_world:
  fixes F :: "('m, 'w) kernel \<Rightarrow> ('a, ('m, 'w) kernel) outcome"
  assumes "\<And>st w. observed (F (st\<lparr>world := w\<rparr>)) = observed (F st)"
    and "seen s = seen s'"
  shows "observed (F s) = observed (F s')"
proof -
  from seen_eqD [OF assms(2)] obtain w where "s' = s\<lparr>world := w\<rparr>" by blast
  then show ?thesis using assms(1) [where st = s and w = w] by simp
qed

lemma pick_best_world:
  fixes st :: "('m, 'w) kernel"
  shows "observed (pick_best (st\<lparr>world := w\<rparr>)) = observed (pick_best st)"
  by (simp add: pick_best_def Let_def seen_def split: sum.splits)

lemma search_loop_world:
  fixes lib :: "('m, 'w) library" and st :: "('m, 'w) kernel"
  assumes "reproducible lib"
  shows "observed (search_loop lib d ms (st\<lparr>world := w\<rparr>)) = observed (search_loop lib d ms st)"
proof (induction ms arbitrary: st w)
  case Nil
  then show ?case by simp
next
  case (Cons nm ms)
  obtain name model where nm: "nm = (name, model)" by (cases nm)
  show ?case
  proof (cases "dict_get param_grids name")
    case (Inl e)
    then show ?thesis by (simp add: nm search_loop.simps(2) seen_def)
  next
    case (Inr grid)
    obtain r1 w1 where g1: "GridSearchCV_fit lib model grid 5 ''neg_mean_squared_error'' (- 1)
         (X_train d) (y_train d) (world st) = (r1, w1)"
      by (cases "GridSearchCV_fit lib model grid 5 ''neg_mean_squared_error'' (- 1)
         (X_train d) (y_train d) (world st)")
    obtain r2 w2 where g2: "GridSearchCV_fit lib model grid 5 ''neg_mean_squared_error'' (- 1)
         (X_train d) (y_train d) w = (r2, w2)"
      by (cases "GridSearchCV_fit lib model grid 5 ''neg_mean_squared_error'' (- 1)
         (X_train d) (y_train d) w")
    have "fst (GridSearchCV_fit lib model grid 5 ''neg_mean_squared_error'' (- 1)
         (X_train d) (y_train d) w) =
      fst (GridSearchCV_fit lib model grid 5 ''neg_mean_squared_error'' (- 1)
         (X_train d) (y_train d) (world st))"
      by (rule reproducible_search [OF assms])
    then have r: "r2 = r1" using g1 g2 by simp
    show ?thesis
    proof (cases r1)
      case (Inl e)
      then show ?thesis using Inr g1 g2 r by (simp add: nm search_loop.simps(2) seen_def)
    next
      case mb: (Inr mb)
      obtain m bp where mbp: "mb = (m, bp)" by (cases mb)
      show ?thesis
      proof (cases "predict lib m (X_test d)")
        case (Inl e)
        then show ?thesis
          using Inr g1 g2 r mb mbp by (simp add: nm search_loop.simps(2) seen_def)
      next
        case pr: (Inr y_pred)
        show ?thesis
        proof (cases "evaluate (y_test d) y_pred")
          case (Inl e)
          then show ?thesis
            using Inr g1 g2 r mb mbp pr by (simp add: nm search_loop.simps(2) seen_def)
        next
          case ev: (Inr sc)
          obtain mae rmse where sc: "sc = (mae, rmse)" by (cases sc)
          let ?T = "st\<lparr>world := w1, heap := heap st @ [m],
              best_models := dict_set (best_models st) name (length (heap st)),
              results := dict_set (results st) name
                 \<lparr>Best_Params = Dict bp, MAE = mae, RMSE = rmse\<rparr>,
              stdout := stdout st @ [Running name]\<rparr>"
          have a: "search_loop lib d (nm # ms) st = search_loop lib d ms ?T"
            using Inr g1 mb mbp pr ev sc by (cases st) (simp add: nm search_loop.simps(2))
          have b: "search_loop lib d (nm # ms) (st\<lparr>world := w\<rparr>) =
              search_loop lib d ms (?T\<lparr>world := w2\<rparr>)"
            using Inr g2 r mb mbp pr ev sc by (cases st) (simp add: nm search_loop.simps(2))
          show ?thesis unfolding a b by (rule Cons.IH)
        qed
      qed
    qed
  qed
qed

lemma cell_6_sim:
  fixes lib :: "('m, 'w) library" and s s' :: "('m, 'w) kernel"
  assumes "reproducible lib" and "seen s = seen s'"
  shows "observed (cell_6 lib d s) = observed (cell_6 lib d s')"
  unfolding cell_6_def
proof (rule observed_bind)
  show "observed (search_loop lib d models s) = observed (search_loop lib d models s')"
    using search_loop_world [OF assms(1)] assms(2) by (rule sim_from_world)
next
  fix v :: unit and t t' :: "('m, 'w) kernel"
  assume tt: "seen t = seen t'"
  from seen_eqD [OF tt] obtain w where t': "t' = t\<lparr>world := w\<rparr>" by blast
  have e: "t'\<lparr>stdout := stdout t' @ report (results t')\<rparr> =
      (t\<lparr>stdout := stdout t @ report (results t)\<rparr>)\<lparr>world := w\<rparr>"
    unfolding t' by (cases t) simp
  show "observed (pick_best (t\<lparr>stdout := stdout t @ report (results t)\<rparr>)) =
      observed (pick_best (t'\<lparr>stdout := stdout t' @ report (results t')\<rparr>))"
    unfolding e by (rule pick_best_world [symmetric])
qed


lemma fit_clones_world:
  fixes lib :: "('m, 'w) library" and st :: "('m, 'w) kernel"
  assumes "reproducible lib"
  shows "observed (fit_clones lib as X y (st\<lparr>world := w\<rparr>)) = observed (fit_clones lib as X y st)"
proof (induction as arbitrary: st w)
  case Nil
  then show ?case by simp
next
  case (Cons a as)
  obtain r1 w1 where f1: "fit lib (clone lib (heap st ! a)) X y (world st) = (r1, w1)"
    by (cases "fit lib (clone lib (heap st ! a)) X y (world st)")
  obtain r2 w2 where f2: "fit lib (clone lib (heap st ! a)) X y w = (r2, w2)"
    by (cases "fit lib (clone lib (heap st ! a)) X y w")
  have "fst (fit lib (clone lib (heap st ! a)) X y w) =
        fst (fit lib (clone lib (heap st ! a)) X y (world st))"
    by (rule reproducible_fit [OF assms])
  then have r: "r2 = r1" using f1 f2 by simp
  show ?case
  proof (cases r1)
    case (Inl e)
    then show ?thesis using f1 f2 r by (simp add: fit_clones.simps(2) Let_def seen_def)
  next
    case (Inr m)
    let ?T = "st\<lparr>world := w1, heap := heap st @ [m]\<rparr>"
    have a: "fit_clones lib (a # as) X y st =
        (case fit_clones lib as X y ?T of
           Done cs s \<Rightarrow> Done (length (heap st) # cs) s
         | Raised e s \<Rightarrow> Raised e s)"
      using f1 Inr by (cases st) (simp add: fit_clones.simps(2) Let_def cong: outcome.case_cong)
    have b: "fit_clones lib (a # as) X y (st\<lparr>world := w\<rparr>) =
        (case fit_clones lib as X y (?T\<lparr>world := w2\<rparr>) of
           Done cs s \<Rightarrow> Done (length (heap st) # cs) s
         | Raised e s \<Rightarrow> Raised e s)"
      using f2 r Inr by (cases st) (simp add: fit_clones.simps(2) Let_def cong: outcome.case_cong)
    show ?thesis unfolding a b
    proof (rule observed_bind)
      show "observed (fit_clones lib as X y (?T\<lparr>world := w2\<rparr>)) =
            observed (fit_clones lib as X y ?T)"
        by (rule Cons.IH)
    qed simp
  qed
qed

lemma VotingRegressor_fit_sim:
  fixes lib :: "('m, 'w) library" and s s' :: "('m, 'w) kernel"
  assumes "reproducible lib" and "seen s = seen s'"
  shows "observed (VotingRegressor_fit lib vr X y s) = observed (VotingRegressor_fit lib vr X y s')"
  unfolding VotingRegressor_fit_def
proof (rule observed_bind)
  show "observed (fit_clones lib (map snd (estimators vr)) X y s) =
        observed (fit_clones lib (map snd (estimators vr)) X y s')"
    using fit_clones_world [OF assms(1)] assms(2) by (rule sim_from_world)
qed simp

lemma cell_8_sim:
  fixes lib :: "('m, 'w) library" and s s' :: "('m, 'w) kernel"
  assumes "reproducible lib" and "seen s = seen s'"
  shows "observed (cell_8 lib d vr s) = observed (cell_8 lib d vr s')"
  unfolding cell_8_def
proof (rule observed_bind)
  show "observed (VotingRegressor_fit lib vr (X_train d) (y_train d) s) =
        observed (VotingRegressor_fit lib vr (X_train d) (y_train d) s')"
    by (rule VotingRegressor_fit_sim [OF assms])
next
  fix v :: voting and t t' :: "('m, 'w) kernel"
  assume "seen t = seen t'"
  from seen_eqD [OF this] obtain w where t': "t' = t\<lparr>world := w\<rparr>" by blast
  show "observed (case VotingRegressor_predict lib v (X_test d) (heap t) of
          Inl e \<Rightarrow> Raised e t
        | Inr y_pred_voting \<Rightarrow>
            (case evaluate (y_test d) y_pred_voting of
               Inl e \<Rightarrow> Raised e t
             | Inr (mae_voting, rmse_voting) \<Rightarrow>
                 Done (v, y_pred_voting, mae_voting, rmse_voting)
                   (t\<lparr>stdout := stdout t @
                        [Header ''Voting Regressor'', Metrics_Line mae_voting rmse_voting]\<rparr>))) =
      observed (case VotingRegressor_predict lib v (X_test d) (heap t') of
          Inl e \<Rightarrow> Raised e t'
        | Inr y_pred_voting \<Rightarrow>
            (case evaluate (y_test d) y_pred_voting of
               Inl e \<Rightarrow> Raised e t'
             | Inr (mae_voting, rmse_voting) \<Rightarrow>
                 Done (v, y_pred_voting, mae_voting, rmse_voting)
                   (t'\<lparr>stdout := stdout t' @
                        [Header ''Voting Regressor'', Metrics_Line mae_voting rmse_voting]\<rparr>)))"
    unfolding t' by (simp add: seen_def split: sum.splits prod.splits)
qed

lemma StackingRegressor_fit_sim:
  fixes lib :: "('m, 'w) library" and s s' :: "('m, 'w) kernel"
  assumes "reproducible lib" and "seen s = seen s'"
  shows "observed (StackingRegressor_fit lib sr X y s) =
         observed (StackingRegressor_fit lib sr X y s')"
  unfolding StackingRegressor_fit_def
proof (rule observed_bind)
  show "observed (fit_clones lib (map snd (base_estimators sr)) X y s) =
        observed (fit_clones lib (map snd (base_estimators sr)) X y s')"
    using fit_clones_world [OF assms(1)] assms(2) by (rule sim_from_world)
next
  fix cs :: "nat list" and t t' :: "('m, 'w) kernel"
  assume "seen t = seen t'"
  from seen_eqD [OF this] obtain w where t': "t' = t\<lparr>world := w\<rparr>" by blast
  let ?ms = "map (\<lambda>a. heap t ! a) cs"
  obtain r1 w1 where f1: "fit_final_estimator lib (final_estimator sr) (cv sr) ?ms X y (world t) = (r1, w1)"
    by (cases "fit_final_estimator lib (final_estimator sr) (cv sr) ?ms X y (world t)")
  obtain r2 w2 where f2: "fit_final_estimator lib (final_estimator sr) (cv sr) ?ms X y w = (r2, w2)"
    by (cases "fit_final_estimator lib (final_estimator sr) (cv sr) ?ms X y w")
  have "fst (fit_final_estimator lib (final_estimator sr) (cv sr) ?ms X y w) =
        fst (fit_final_estimator lib (final_estimator sr) (cv sr) ?ms X y (world t))"
    by (rule reproducible_final [OF assms(1)])
  then have r: "r2 = r1" using f1 f2 by simp
  show "observed (case fit_final_estimator lib (final_estimator sr) (cv sr)
                  (map (\<lambda>a. heap t ! a) cs) X y (world t) of
             (Inl e, w) \<Rightarrow> Raised e (t\<lparr>world := w\<rparr>)
           | (Inr m, w) \<Rightarrow>
               Done (sr\<lparr>fitted_base_estimators := cs,
                        fitted_final_estimator := Some (length (heap t))\<rparr>)
                 (t\<lparr>world := w, heap := heap t @ [m]\<rparr>)) =
        observed (case fit_final_estimator lib (final_estimator sr) (cv sr)
                  (map (\<lambda>a. heap t' ! a) cs) X y (world t') of
             (Inl e, w) \<Rightarrow> Raised e (t'\<lparr>world := w\<rparr>)
           | (Inr m, w) \<Rightarrow>
               Done (sr\<lparr>fitted_base_estimators := cs,
                        fitted_final_estimator := Some (length (heap t'))\<rparr>)
                 (t'\<lparr>world := w, heap := heap t' @ [m]\<rparr>))"
    unfolding t' using f1 f2 r by (cases r1) (simp_all add: seen_def)
qed

lemma cell_9_sim:
  fixes lib :: "('m, 'w) library" and s s' :: "('m, 'w) kernel"
  assumes "reproducible lib" and "seen s = seen s'"
  shows "observed (cell_9 lib d best s) = observed (cell_9 lib d best s')"
proof -
  obtain b1 b2 b3 where best: "best = (b1, b2, b3)" by (cases best)
  let ?sr = "\<lparr>base_estimators = [(''dt'', b1), (''rf'', b2), (''xgb'', b3)],
     final_estimator = LinearRegression, cv = 5,
     fitted_base_estimators = [], fitted_final_estimator = None\<rparr>"
  show ?thesis
    unfolding cell_9_def best prod.case Let_def
  proof (rule observed_bind)
    show "observed (StackingRegressor_fit lib ?sr (X_train d) (y_train d) s) =
          observed (StackingRegressor_fit lib ?sr (X_train d) (y_train d) s')"
      by (rule StackingRegressor_fit_sim [OF assms])
  next
    fix v :: stacking and t t' :: "('m, 'w) kernel"
    assume "seen t = seen t'"
    from seen_eqD [OF this] obtain w where t': "t' = t\<lparr>world := w\<rparr>" by blast
    show "observed (case StackingRegressor_predict lib v (X_test d) (heap t) of
          Inl e \<Rightarrow> Raised e t
        | Inr y_pred_stacking \<Rightarrow>
            (case evaluate (y_test d) y_pred_stacking of
               Inl e \<Rightarrow> Raised e t
             | Inr (mae_stacking, rmse_stacking) \<Rightarrow>
                 Done (v, y_pred_stacking, mae_stacking, rmse_stacking)
                   (t\<lparr>stdout := stdout t @
                        [Header ''Stacking Regressor'', Metrics_Line mae_stacking rmse_stacking]\<rparr>))) =
      observed (case StackingRegressor_predict lib v (X_test d) (heap t') of
          Inl e \<Rightarrow> Raised e t'
        | Inr y_pred_stacking \<Rightarrow>
            (case evaluate (y_test d) y_pred_stacking of
               Inl e \<Rightarrow> Raised e t'
             | Inr (mae_stacking, rmse_stacking) \<Rightarrow>
                 Done (v, y_pred_stacking, mae_stacking, rmse_stacking)
                   (t'\<lparr>stdout := stdout t' @
                        [Header ''Stacking Regressor'', Metrics_Line mae_stacking rmse_stacking]\<rparr>)))"
      unfolding t' by (simp add: seen_def split: sum.splits prod.splits)
  qed
qed

lemma cell_7_sim:
  fixes s s' :: "('m, 'w) kernel"
  assumes "seen s = seen s'"
  shows "observed (cell_7 s) = observed (cell_7 s')"
proof -
  from seen_eqD [OF assms] obtain w where s': "s' = s\<lparr>world := w\<rparr>" by blast
  show ?thesis unfolding s' by (simp add: cell_7_def seen_def split: sum.splits)
qed

lemma ensembles_sim:
  fixes lib :: "('m, 'w) library" and s s' :: "('m, 'w) kernel"
  assumes "reproducible lib" and "seen s = seen s'"
  shows "observed (ensembles lib d s) = observed (ensembles lib d s')"
  unfolding ensembles_def
proof (rule observed_bind)
  show "observed (cell_7 s) = observed (cell_7 s')" by (rule cell_7_sim [OF assms(2)])
next
  fix bv :: "(nat \<times> nat \<times> nat) \<times> voting" and t t' :: "('m, 'w) kernel"
  assume tt: "seen t = seen t'"
  obtain best vr where bv: "bv = (best, vr)" by (cases bv)
  have "observed (case cell_8 lib d vr t of
          Done v s8 \<Rightarrow>
            (case cell_9 lib d best s8 of
               Done s s9 \<Rightarrow> Done (v, s) s9
             | Raised e s \<Rightarrow> Raised e s)
        | Raised e s \<Rightarrow> Raised e s) =
      observed (case cell_8 lib d vr t' of
          Done v s8 \<Rightarrow>
            (case cell_9 lib d best s8 of
               Done s s9 \<Rightarrow> Done (v, s) s9
             | Raised e s \<Rightarrow> Raised e s)
        | Raised e s \<Rightarrow> Raised e s)"
  proof (rule observed_bind)
    show "observed (cell_8 lib d vr t) = observed (cell_8 lib d vr t')"
      by (rule cell_8_sim [OF assms(1) tt])
  next
    fix v :: "voting \<times> real list \<times> real \<times> real" and u u' :: "('m, 'w) kernel"
    assume uu: "seen u = seen u'"
    show "observed (case cell_9 lib d best u of
               Done s s9 \<Rightarrow> Done (v, s) s9
             | Raised e s \<Rightarrow> Raised e s) =
          observed (case cell_9 lib d best u' of
               Done s s9 \<Rightarrow> Done (v, s) s9
             | Raised e s \<Rightarrow> Raised e s)"
      by (rule observed_bind) (simp_all add: cell_9_sim [OF assms(1) uu])
  qed
  then show "observed (case bv of
          (best, voting_regressor) \<Rightarrow>
            (case cell_8 lib d voting_regressor t of
               Done v s8 \<Rightarrow>
                 (case cell_9 lib d best s8 of
                    Done s s9 \<Rightarrow> Done (v, s) s9
                  | Raised e s \<Rightarrow> Raised e s)
             | Raised e s \<Rightarrow> Raised e s)) =
      observed (case bv of
          (best, voting_regressor) \<Rightarrow>
            (case cell_8 lib d voting_regressor t' of
               Done v s8 \<Rightarrow>
                 (case cell_9 lib d best s8 of
                    Done s s9 \<Rightarrow> Done (v, s) s9
                  | Raised e s \<Rightarrow> Raised e s)
             | Raised e s \<Rightarrow> Raised e s))"
    by (simp add: bv)
qed

lemma cell_10_world:
  fixes st :: "('m, 'w) kernel"
  shows "observed (cell_10 mv rv ms rs (st\<lparr>world := w\<rparr>)) = observed (cell_10 mv rv ms rs st)"
proof -
  let ?tbl = "dict_set (dict_set (results st) ''Voting Regressor''
                 \<lparr>Best_Params = Str ''N/A'', MAE = mv, RMSE = rv\<rparr>)
       ''Stacking Regressor'' \<lparr>Best_Params = Str ''N/A'', MAE = ms, RMSE = rs\<rparr>"
  let ?T = "st\<lparr>results := ?tbl, stdout := stdout st @ report ?tbl\<rparr>"
  have a: "cell_10 mv rv ms rs st = pick_best ?T"
    by (cases st) (simp add: cell_10_def Let_def)
  have b: "cell_10 mv rv ms rs (st\<lparr>world := w\<rparr>) = pick_best (?T\<lparr>world := w\<rparr>)"
    by (cases st) (simp add: cell_10_def Let_def)
  show ?thesis unfolding a b by (rule pick_best_world)
qed

lemma seen_cell_5: "seen (cell_5 w :: ('m, 'w) kernel) = seen (cell_5 w' :: ('m, 'w) kernel)"
  by (simp add: seen_def cell_5_def)

lemma after_search_sim:
  fixes lib :: "('m, 'w) library"
  assumes "reproducible lib"
  shows "observed (after_search lib w1 X y) = observed (after_search lib w2 X y)"
proof -
  obtain r1 v1 where s1: "train_test_split lib X y (1 / 5) 42 w1 = (r1, v1)"
    by (cases "train_test_split lib X y (1 / 5) 42 w1")
  obtain r2 v2 where s2: "train_test_split lib X y (1 / 5) 42 w2 = (r2, v2)"
    by (cases "train_test_split lib X y (1 / 5) 42 w2")
  have "fst (train_test_split lib X y (1 / 5) 42 w2) = fst (train_test_split lib X y (1 / 5) 42 w1)"
    by (rule reproducible_split [OF assms])
  then have r: "r2 = r1" using s1 s2 by simp
  show ?thesis
  proof (cases r1)
    case (Inl e)
    then show ?thesis using s1 s2 r seen_cell_5 [of v1 v2] by (simp add: after_search_def)
  next
    case (Inr d)
    have "observed (case cell_6 lib d (cell_5 v1) of
             Done u s \<Rightarrow> Done d s | Raised e s \<Rightarrow> Raised e s) =
          observed (case cell_6 lib d (cell_5 v2) of
             Done u s \<Rightarrow> Done d s | Raised e s \<Rightarrow> Raised e s)"
      by (rule observed_bind) (simp_all add: cell_6_sim [OF assms seen_cell_5])
    then show ?thesis using s1 s2 r Inr by (simp add: after_search_def)
  qed
qed

lemma notebook_sim:
  fixes lib :: "('m, 'w) library"
  assumes "reproducible lib"
  shows "observed (notebook lib w1 X y) = observed (notebook lib w2 X y)"
  unfolding notebook_def
proof (rule observed_bind)
  show "observed (after_search lib w1 X y) = observed (after_search lib w2 X y)"
    by (rule after_search_sim [OF assms])
next
  fix d :: split and t t' :: "('m, 'w) kernel"
  assume tt: "seen t = seen t'"
  show "observed (case ensembles lib d t of
          Done ((vr, y_pred_voting, mae_voting, rmse_voting),
                (sr, y_pred_stacking, mae_stacking, rmse_stacking)) s9 \<Rightarrow>
            cell_10 mae_voting rmse_voting mae_stacking rmse_stacking s9
        | Raised e s \<Rightarrow> Raised e s) =
      observed (case ensembles lib d t' of
          Done ((vr, y_pred_voting, mae_voting, rmse_voting),
                (sr, y_pred_stacking, mae_stacking, rmse_stacking)) s9 \<Rightarrow>
            cell_10 mae_voting rmse_voting mae_stacking rmse_stacking s9
        | Raised e s \<Rightarrow> Raised e s)"
  proof (rule observed_bind)
    show "observed (ensembles lib d t) = observed (ensembles lib d t')"
      by (rule ensembles_sim [OF assms tt])
  next
    fix vs :: "(voting \<times> real list \<times> real \<times> real) \<times> (stacking \<times> real list \<times> real \<times> real)"
      and u u' :: "('m, 'w) kernel"
    assume uu: "seen u = seen u'"
    obtain vr ypv mv rv sr yps ms rs where
      vs: "vs = ((vr, ypv, mv, rv), (sr, yps, ms, rs))"
      by (cases vs) auto
    have "observed (cell_10 mv rv ms rs u) = observed (cell_10 mv rv ms rs u')"
      using cell_10_world uu by (rule sim_from_world)
    then show "observed (case vs of
          ((vr, y_pred_voting, mae_voting, rmse_voting),
           (sr, y_pred_stacking, mae_stacking, rmse_stacking)) \<Rightarrow>
            cell_10 mae_voting rmse_voting mae_stacking rmse_stacking u) =
        observed (case vs of
          ((vr, y_pred_voting, mae_voting, rmse_voting),
           (sr, y_pred_stacking, mae_stacking, rmse_stacking)) \<Rightarrow>
            cell_10 mae_voting rmse_voting mae_stacking rmse_stacking u')"
      by (simp add: vs)
  qed
qed


lemma reproducible_toy: "reproducible (toy_library 0 b)"
  by (simp add: reproducible_def toy_fields)

lemma toy_unseeded_search_0:
  "\<exists>s6. after_search (toy_library 1 False) 0 toy_X toy_y = Done toy_d s6 \<and>
     map (\<lambda>e. (fst e, MAE (snd e), RMSE (snd e))) (results s6) =
       [(''Decision Tree'', 1, sqrt 2), (''Random Forest'', 4, sqrt 17),
        (''XGBRegressor'', 1, sqrt 2)]"
  by (simp add: after_search_def toy_fields toy_split_eq cell_6_def models_def
      search_loop.simps cell_5_def param_grids_def dict_get_def Let_def toy_d_fields
      evaluate_pair pick_best_def select_best_def py_min_def rmse_key_def)

lemma toy_unseeded_search_1:
  "\<exists>s6. after_search (toy_library 1 False) 1 toy_X toy_y = Done toy_d s6 \<and>
     map (\<lambda>e. (fst e, MAE (snd e), RMSE (snd e))) (results s6) =
       [(''Decision Tree'', 2, sqrt 5), (''Random Forest'', 5, sqrt 26),
        (''XGBRegressor'', 2, sqrt 5)]"
  by (simp add: after_search_def toy_fields toy_split_eq cell_6_def models_def
      search_loop.simps cell_5_def param_grids_def dict_get_def Let_def toy_d_fields
      evaluate_pair pick_best_def select_best_def py_min_def rmse_key_def)

text \<open>
  C4, as the notebook has it. The notebook fixes a seed for the split only. If every call
  into the library gives the same result whatever the state of the world it starts from
  (as seeded or deterministic estimators and search do), two runs on the same table
  record the same entries, with the same MAE and RMSE for each model, and stop in the
  same way.
\<close>

theorem reproducible_runs_agree:
  fixes lib :: "('m, 'w) library"
  assumes "reproducible lib"
  shows "results (final (notebook lib w1 X y)) = results (final (notebook lib w2 X y)) \<and>
         raised (notebook lib w1 X y) = raised (notebook lib w2 X y)"
  using notebook_sim [OF assms, of w1 X y w2] by (rule observed_final)

theorem reproducible_runs_agree_witness:
  "reproducible (toy_library 0 False) \<and>
   results (final (notebook (toy_library 0 False) 0 toy_X toy_y)) =
     results (final (notebook (toy_library 0 False) 7 toy_X toy_y)) \<and>
   raised (notebook (toy_library 0 False) 0 toy_X toy_y) =
     raised (notebook (toy_library 0 False) 7 toy_X toy_y)"
  using reproducible_runs_agree [OF reproducible_toy, of False 0 toy_X toy_y 7]
    reproducible_toy [of False]
  by simp

theorem unseeded_runs_differ:
  "map (\<lambda>e. (fst e, MAE (snd e), RMSE (snd e)))
     (results (final (notebook (toy_library 1 False) 0 toy_X toy_y))) \<noteq>
   map (\<lambda>e. (fst e, MAE (snd e), RMSE (snd e)))
     (results (final (notebook (toy_library 1 False) 1 toy_X toy_y)))"
proof
  let ?f = "\<lambda>e :: string \<times> score. (fst e, MAE (snd e), RMSE (snd e))"
  assume eq: "map ?f (results (final (notebook (toy_library 1 False) 0 toy_X toy_y))) =
    map ?f (results (final (notebook (toy_library 1 False) 1 toy_X toy_y)))"
  from toy_unseeded_search_0 obtain s0 where
    at0: "after_search (toy_library 1 False) 0 toy_X toy_y = Done toy_d s0 \<and>
     map ?f (results s0) =
       [(''Decision Tree'', 1, sqrt 2), (''Random Forest'', 4, sqrt 17),
        (''XGBRegressor'', 1, sqrt 2)]" ..
  note a0 = at0 [THEN conjunct1] and t0 = at0 [THEN conjunct2]
  from toy_unseeded_search_1 obtain s1 where
    at1: "after_search (toy_library 1 False) 1 toy_X toy_y = Done toy_d s1 \<and>
     map ?f (results s1) =
       [(''Decision Tree'', 2, sqrt 5), (''Random Forest'', 5, sqrt 26),
        (''XGBRegressor'', 2, sqrt 5)]" ..
  note a1 = at1 [THEN conjunct1] and t1 = at1 [THEN conjunct2]
  have "map ?f (results s0) =
      take 3 (map ?f (results (final (notebook (toy_library 1 False) 0 toy_X toy_y))))"
    using notebook_table_prefix [OF a0] by (simp only: take_map)
  also have "\<dots> = take 3 (map ?f (results (final (notebook (toy_library 1 False) 1 toy_X toy_y))))"
    by (simp only: eq)
  also have "\<dots> = map ?f (results s1)"
    using notebook_table_prefix [OF a1] by (simp only: take_map)
  finally show False using t0 t1 by simp
qed

end
